(* ===== verification/Prelude.thy ===== *)
theory Prelude
  imports Complex_Main "HOL-Library.AList" "HOL-Library.List_Lexorder" "HOL-Library.Char_ord"
begin

text \<open>
  Shared vocabulary of the development: the lemma collections the component theories add to,
  the part of the Python language and library that every component uses (strings, insertion
  ordered dictionaries, floats with a NaN, truth values of optional strings) and generic facts
  about maps, association lists and lists of records with distinct keys.

  A Python \<open>str\<close> is a HOL \<^typ>\<open>string\<close>. A Python \<open>dict\<close> is an association list with
  distinct keys: \<^const>\<open>AList.update\<close> overwrites a key in place and appends a new one, as
  Python's insertion ordered dictionaries do. A call that can raise has a sum type with the
  exception on the left; a call that changes state returns the result and the new state, so
  that state changes made before a raise are kept.
\<close>

named_theorems port_simps "equations of adapter operations, read off an adapter record"
named_theorems status_simps "membership in the status groups and the transition table"
named_theorems evolve_intros "introduction rules for the evolution of stored jobs"

subsection \<open>Strings\<close>

definition starts_with :: "string \<Rightarrow> string \<Rightarrow> bool" where
  "starts_with p s \<longleftrightarrow> take (length p) s = p"

definition ends_with :: "string \<Rightarrow> string \<Rightarrow> bool" where
  "ends_with p s \<longleftrightarrow> starts_with (rev p) (rev s)"

lemma starts_with_append [simp]: "starts_with p (p @ s)"
  by (simp add: starts_with_def)

lemma starts_with_iff: "starts_with p s \<longleftrightarrow> (\<exists>t. s = p @ t)"
  by (metis append_eq_conv_conj append_take_drop_id starts_with_def)

lemma ends_with_iff: "ends_with p s \<longleftrightarrow> (\<exists>t. s = t @ p)"
proof -
  have "ends_with p s \<longleftrightarrow> (\<exists>t. rev s = rev p @ t)"
    by (simp add: ends_with_def starts_with_iff)
  also have "\<dots> \<longleftrightarrow> (\<exists>t. s = rev t @ p)"
    by (metis rev_append rev_rev_ident)
  finally show ?thesis by (metis rev_rev_ident)
qed

lemma ends_with_append [simp]: "ends_with p (s @ p)"
  by (auto simp: ends_with_iff)

text \<open>A text between single quotes, as in the program's messages.\<close>

definition quoted :: "string \<Rightarrow> string" where
  "quoted s = [CHR 0x27] @ s @ [CHR 0x27]"

fun nat_digits :: "nat \<Rightarrow> string" where
  "nat_digits n =
     (if n < 10 then [char_of (48 + n)] else nat_digits (n div 10) @ [char_of (48 + n mod 10)])"

declare nat_digits.simps [simp del]

text \<open>\<open>str(i)\<close> and the \<open>{i}\<close> of a format string, for an \<open>int\<close>.\<close>

definition str_int :: "int \<Rightarrow> string" where
  "str_int i = (if i < 0 then ''-'' @ nat_digits (nat (- i)) else nat_digits (nat i))"

text \<open>\<open>s.split("/")\<close> without the empty parts, which is how \<open>pathlib.Path\<close> reads a path.\<close>

fun path_parts :: "string \<Rightarrow> string \<Rightarrow> string list" where
  "path_parts acc [] = (if acc = [] then [] else [rev acc])"
| "path_parts acc (c # cs) =
     (if c = CHR ''/''
      then (if acc = [] then [] else [rev acc]) @ path_parts [] cs
      else path_parts (c # acc) cs)"

lemma path_parts_slash: "path_parts acc (a @ ''/'' @ b) = path_parts acc a @ path_parts [] b"
  by (induction acc a rule: path_parts.induct) auto

lemma path_parts_no_slash: "CHR ''/'' \<notin> set s \<Longrightarrow> acc \<noteq> [] \<or> s \<noteq> [] \<Longrightarrow>
    path_parts acc s = [rev acc @ s]"
  by (induction acc s rule: path_parts.induct) auto

subsection \<open>Truth values and floats\<close>

text \<open>The truth value Python gives to an optional string: \<open>None\<close> and \<open>""\<close> are false.\<close>

definition truthy :: "'a list option \<Rightarrow> bool" where
  "truthy x \<longleftrightarrow> (case x of None \<Rightarrow> False | Some s \<Rightarrow> s \<noteq> [])"

lemma truthy_simps [simp]: "\<not> truthy None" "truthy (Some s) \<longleftrightarrow> s \<noteq> []"
  by (simp_all add: truthy_def)

text \<open>Floats: finite values are kept exact; comparisons with a NaN are false, equality included.\<close>

datatype pyfloat = Fin rat | PosInf | NegInf | NaN

fun float_eq :: "pyfloat \<Rightarrow> pyfloat \<Rightarrow> bool" where
  "float_eq (Fin x) (Fin y) \<longleftrightarrow> x = y"
| "float_eq PosInf PosInf \<longleftrightarrow> True"
| "float_eq NegInf NegInf \<longleftrightarrow> True"
| "float_eq _ _ \<longleftrightarrow> False"

fun float_less :: "pyfloat \<Rightarrow> pyfloat \<Rightarrow> bool" where
  "float_less (Fin x) (Fin y) \<longleftrightarrow> x < y"
| "float_less NegInf (Fin _) \<longleftrightarrow> True"
| "float_less (Fin _) PosInf \<longleftrightarrow> True"
| "float_less NegInf PosInf \<longleftrightarrow> True"
| "float_less _ _ \<longleftrightarrow> False"

lemma float_eq_iff: "float_eq x y \<longleftrightarrow> x = y \<and> x \<noteq> NaN"
  by (cases x; cases y) auto

subsection \<open>Sequencing computations that can raise\<close>

definition and_then :: "'e + 'a \<Rightarrow> ('a \<Rightarrow> 'e + 'b) \<Rightarrow> 'e + 'b" where
  "and_then r f = (case r of Inl e \<Rightarrow> Inl e | Inr x \<Rightarrow> f x)"

lemma and_then_simps [simp]: "and_then (Inr x) f = f x" "and_then (Inl e) f = Inl e"
  by (simp_all add: and_then_def)

lemma and_then_Inr_iff: "and_then r f = Inr y \<longleftrightarrow> (\<exists>x. r = Inr x \<and> f x = Inr y)"
  by (auto simp: and_then_def split: sum.splits)

text \<open>A list of computations, evaluated in order up to the first exception.\<close>

fun collect :: "('e + 'a) list \<Rightarrow> 'e + 'a list" where
  "collect [] = Inr []"
| "collect (r # rs) = and_then r (\<lambda>x. and_then (collect rs) (\<lambda>xs. Inr (x # xs)))"

lemma collect_map_Inr: "(\<And>x. x \<in> set xs \<Longrightarrow> f x = Inr (g x)) \<Longrightarrow> collect (map f xs) = Inr (map g xs)"
  by (induction xs) auto

subsection \<open>Time\<close>

text \<open>
  A \<open>datetime\<close> is a number of microseconds since the epoch (the code only uses UTC), a
  \<open>timedelta\<close> a number of microseconds, a \<open>date\<close> a number of days.
\<close>

type_synonym datetime = int
type_synonym timedelta = int
type_synonym date = int

definition seconds :: "int \<Rightarrow> timedelta" where
  "seconds n = n * 1000000"

definition minutes :: "int \<Rightarrow> timedelta" where
  "minutes n = seconds (60 * n)"

definition date_of :: "datetime \<Rightarrow> date" where
  "date_of t = t div 86400000000"

lemma date_of_mono: "s \<le> t \<Longrightarrow> date_of s \<le> date_of t"
  by (simp add: date_of_def zdiv_mono1)

subsection \<open>Dictionaries\<close>

definition dict_ok :: "('k \<times> 'v) list \<Rightarrow> bool" where
  "dict_ok d \<longleftrightarrow> distinct (map fst d)"

lemma dict_ok_update [simp]: "dict_ok d \<Longrightarrow> dict_ok (AList.update k v d)"
  by (simp add: dict_ok_def distinct_update)

lemma dict_ok_delete [simp]: "dict_ok d \<Longrightarrow> dict_ok (AList.delete k d)"
  by (simp add: dict_ok_def distinct_delete)

lemma dict_ok_Nil [simp]: "dict_ok []"
  by (simp add: dict_ok_def)

lemma dict_lookup_iff: "dict_ok d \<Longrightarrow> map_of d k = Some v \<longleftrightarrow> (k, v) \<in> set d"
  by (simp add: dict_ok_def map_of_eq_Some_iff)

lemma dict_lookup_update [simp]: "map_of (AList.update k v d) = (map_of d)(k \<mapsto> v)"
  by (simp add: update_conv')

lemma dict_lookup_delete [simp]: "map_of (AList.delete k d) = (map_of d)(k := None)"
  by (simp add: delete_conv')

subsection \<open>Maps keyed by a field of their values\<close>

text \<open>
  A repository is, to its clients, a map from keys to entities that carry their own key.
  \<open>keyed\<close> says so, and \<open>enumerates\<close> that a list holds exactly the entities of the map
  that satisfy a condition, each once.
\<close>

definition keyed :: "('a \<Rightarrow> 'k) \<Rightarrow> ('k \<rightharpoonup> 'a) \<Rightarrow> bool" where
  "keyed key m \<longleftrightarrow> (\<forall>k x. m k = Some x \<longrightarrow> key x = k)"

definition enumerates :: "('a \<Rightarrow> 'k) \<Rightarrow> ('k \<rightharpoonup> 'a) \<Rightarrow> ('a \<Rightarrow> bool) \<Rightarrow> 'a list \<Rightarrow> bool" where
  "enumerates key m P xs \<longleftrightarrow>
     distinct (map key xs) \<and> (\<forall>x. x \<in> set xs \<longleftrightarrow> m (key x) = Some x \<and> P x)"

lemma keyedD: "keyed key m \<Longrightarrow> m k = Some x \<Longrightarrow> key x = k"
  by (simp add: keyed_def)

lemma keyed_upd [simp]: "keyed key m \<Longrightarrow> keyed key (m(key x \<mapsto> x))"
  by (simp add: keyed_def)

lemma keyed_empty [simp]: "keyed key Map.empty"
  by (simp add: keyed_def)

lemma enumeratesD:
  assumes "enumerates key m P xs"
  shows "distinct (map key xs)" and "x \<in> set xs \<Longrightarrow> m (key x) = Some x" and "x \<in> set xs \<Longrightarrow> P x"
  using assms by (auto simp: enumerates_def)

lemma enumeratesI_mem: "enumerates key m P xs \<Longrightarrow> keyed key m \<Longrightarrow> m k = Some x \<Longrightarrow> P x \<Longrightarrow> x \<in> set xs"
  by (auto simp: enumerates_def keyed_def)

lemma enumerates_Nil_iff:
  "enumerates key m P [] \<Longrightarrow> keyed key m \<Longrightarrow> m k = Some x \<Longrightarrow> \<not> P x"
  using enumeratesI_mem by fastforce

text \<open>Writing entities one after the other.\<close>

fun store_all :: "('a \<Rightarrow> 'k) \<Rightarrow> 'a list \<Rightarrow> ('k \<rightharpoonup> 'a) \<Rightarrow> ('k \<rightharpoonup> 'a)" where
  "store_all key [] m = m"
| "store_all key (x # xs) m = store_all key xs (m(key x \<mapsto> x))"

lemma store_all_append: "store_all key (xs @ ys) m = store_all key ys (store_all key xs m)"
  by (induction xs arbitrary: m) auto

lemma store_all_other: "k \<notin> key ` set xs \<Longrightarrow> store_all key xs m k = m k"
  by (induction xs arbitrary: m) auto

lemma store_all_mem:
  "distinct (map key xs) \<Longrightarrow> x \<in> set xs \<Longrightarrow> store_all key xs m (key x) = Some x"
proof (induction xs arbitrary: m)
  case (Cons y ys)
  show ?case
  proof (cases "x = y")
    case True
    with Cons.prems have "key x \<notin> key ` set ys" by auto
    then show ?thesis using True by (simp add: store_all_other)
  next
    case False
    with Cons show ?thesis by auto
  qed
qed simp

lemma keyed_store_all: "keyed key m \<Longrightarrow> keyed key (store_all key xs m)"
  by (induction xs arbitrary: m) auto

lemma store_all_cases:
  "distinct (map key xs) \<Longrightarrow> store_all key xs m k = Some y \<Longrightarrow>
     y \<in> set xs \<and> key y = k \<or> k \<notin> key ` set xs \<and> m k = Some y"
proof (cases "k \<in> key ` set xs")
  case True
  then obtain x where "x \<in> set xs" and "k = key x" by auto
  moreover assume "distinct (map key xs)" and "store_all key xs m k = Some y"
  ultimately show ?thesis by (simp add: store_all_mem)
next
  case False
  assume "store_all key xs m k = Some y"
  with False show ?thesis by (simp add: store_all_other)
qed

subsection \<open>Lists\<close>

lemma distinct_map_sort_key [simp]: "distinct (map g (sort_key f xs)) = distinct (map g xs)"
  by (simp add: distinct_map)

lemma distinct_map_filterI: "distinct (map g xs) \<Longrightarrow> distinct (map g (filter P xs))"
  by (simp add: distinct_map_filter)

lemma values_filter_eq: "filter P (map snd d) = map snd (filter (P \<circ> snd) d)"
  by (simp add: filter_map)

end
