(* ===== verification/Models.thy ===== *)
theory Models
  imports Prelude
begin

text \<open>
  The domain models of \<open>common/models.py\<close>, the exceptions the program raises, and the status
  groups. Each enum is a datatype, each dataclass a record; a record field carries the
  dataclass's field name behind a prefix (\<open>j_\<close> for \<open>Job\<close>, \<open>u_\<close> for \<open>User\<close>, \<open>p_\<close> for
  \<open>Progress\<close>), since \<open>id\<close> and \<open>status\<close> would clash.
\<close>

datatype JobStatus = QUEUED | INITIALIZING | TRAINING | COMPLETED | FAILED | CANCELLED

datatype PolicyType = ACT | SMOLVLA

datatype SourceType = HF_HUB | ZIP_UPLOAD

datatype AuthProvider = EMAIL | HUGGINGFACE

instantiation JobStatus :: enum
begin

definition enum_JobStatus :: "JobStatus list" where
  "enum_JobStatus = [QUEUED, INITIALIZING, TRAINING, COMPLETED, FAILED, CANCELLED]"

definition enum_all_JobStatus :: "(JobStatus \<Rightarrow> bool) \<Rightarrow> bool" where
  "enum_all_JobStatus P \<longleftrightarrow> list_all P [QUEUED, INITIALIZING, TRAINING, COMPLETED, FAILED, CANCELLED]"

definition enum_ex_JobStatus :: "(JobStatus \<Rightarrow> bool) \<Rightarrow> bool" where
  "enum_ex_JobStatus P \<longleftrightarrow> list_ex P [QUEUED, INITIALIZING, TRAINING, COMPLETED, FAILED, CANCELLED]"

instance
proof
  have all: "(UNIV :: JobStatus set) = {QUEUED, INITIALIZING, TRAINING, COMPLETED, FAILED, CANCELLED}"
    by (auto intro: JobStatus.exhaust)
  show "(UNIV :: JobStatus set) = set Enum.enum"
    by (simp add: enum_JobStatus_def all)
  show "distinct (Enum.enum :: JobStatus list)"
    by (simp add: enum_JobStatus_def)
  show "Enum.enum_all P \<longleftrightarrow> Ball UNIV P" for P :: "JobStatus \<Rightarrow> bool"
    by (simp add: enum_all_JobStatus_def all)
  show "Enum.enum_ex P \<longleftrightarrow> Bex UNIV P" for P :: "JobStatus \<Rightarrow> bool"
    by (simp add: enum_ex_JobStatus_def all)
qed

end

fun status_value :: "JobStatus \<Rightarrow> string" where
  "status_value QUEUED = ''queued''"
| "status_value INITIALIZING = ''initializing''"
| "status_value TRAINING = ''training''"
| "status_value COMPLETED = ''completed''"
| "status_value FAILED = ''failed''"
| "status_value CANCELLED = ''cancelled''"

fun policy_value :: "PolicyType \<Rightarrow> string" where
  "policy_value ACT = ''act''"
| "policy_value SMOLVLA = ''smolvla''"

fun source_type_value :: "SourceType \<Rightarrow> string" where
  "source_type_value HF_HUB = ''hf_hub''"
| "source_type_value ZIP_UPLOAD = ''zip_upload''"

fun provider_value :: "AuthProvider \<Rightarrow> string" where
  "provider_value EMAIL = ''email''"
| "provider_value HUGGINGFACE = ''huggingface''"

lemma status_value_inject [simp]: "status_value s = status_value t \<longleftrightarrow> s = t"
  by (cases s; cases t) simp_all

definition ACTIVE_STATUSES :: "JobStatus list" where
  "ACTIVE_STATUSES = [QUEUED, INITIALIZING, TRAINING]"

definition CONTAINER_STARTED_STATUSES :: "JobStatus list" where
  "CONTAINER_STARTED_STATUSES = [INITIALIZING, TRAINING, COMPLETED, FAILED, CANCELLED]"

definition TERMINAL_STATUSES :: "JobStatus list" where
  "TERMINAL_STATUSES = [COMPLETED, FAILED, CANCELLED]"

record User =
  u_id :: string
  u_auth_provider :: AuthProvider
  u_email :: "string option"
  u_password_hash :: "string option"
  u_hf_user_id :: "string option"
  u_daily_quota_used :: int
  u_quota_reset_date :: "date option"
  u_created_at :: datetime

record Progress =
  p_step :: int
  p_total_steps :: int
  p_loss :: pyfloat
  p_updated_at :: datetime

record Job =
  j_id :: string
  j_user_id :: string
  j_policy :: PolicyType
  j_source_type :: SourceType
  j_source_ref :: string
  j_training_steps :: int
  j_status :: JobStatus
  j_container_id :: "string option"
  j_heartbeat_at :: "datetime option"
  j_progress :: "Progress option"
  j_cancel_requested :: bool
  j_checkpoint_gcs_path :: "string option"
  j_error_message :: "string option"
  j_created_at :: datetime
  j_updated_at :: datetime

text \<open>
  The exceptions: the program's own classes with the message or the fields they carry, the
  library's that the code raises or catches, and \<open>ExternalError\<close> for whatever an external
  client (Docker, GCS, the Hugging Face Hub) raises beyond those.
\<close>

datatype exn =
    InvalidTransitionError JobStatus JobStatus
  | CancelNotAllowedError JobStatus
  | UserNotFoundError string
  | JobNotFoundError string
  | NotJobOwnerError string
  | QuotaExceededError string
  | InvalidTrainingStepsError string
  | DownloadNotAvailableError string
  | UploadValidationError string
  | UploadNotFoundError string
  | HFDatasetNotFoundError string
  | CaptchaFailedError string
  | EmailAlreadyRegisteredError string
  | InvalidCredentialsError string
  | WrongOldPasswordError string
  | InvalidTokenError string
  | InvalidInfoJsonError string
  | UserMissingError string
  | DatasetFetchError string
  | CheckpointNotFoundError string
  | LockAcquisitionError string
  | OAuthExchangeError string
  | HTTPException int string
  | SystemExit int
  | RuntimeError string
  | CalledProcessError "string list" int
  | JSONDecodeError string
  | UnicodeDecodeError string
  | BadZipFile string
  | FileNotFoundError string
  | KeyError string
  | ValueError string
  | TypeError string
  | AttributeError string
  | StopIteration
  | OSError string
  | ExternalError string

text \<open>\<open>str(xs)\<close> of a list of texts without quotes or special characters.\<close>

definition text_of_list :: "string list \<Rightarrow> string" where
  "text_of_list xs = ''['' @ concat (map (\<lambda>(i, x). (if i = 0 then [] else '', '') @ quoted x) (enumerate 0 xs)) @ '']''"

text \<open>
  \<open>str(exc)\<close>. The text of an error the operating system raises is reduced to its path.
\<close>

fun exn_text :: "exn \<Rightarrow> string" where
  "exn_text (InvalidTransitionError s t) =
     ''Cannot transition job from '' @ quoted (status_value s) @ '' to '' @ quoted (status_value t)"
| "exn_text (CancelNotAllowedError s) = ''Cannot cancel a job in status '' @ quoted (status_value s)"
| "exn_text (UserNotFoundError m) = m"
| "exn_text (JobNotFoundError m) = m"
| "exn_text (NotJobOwnerError m) = m"
| "exn_text (QuotaExceededError m) = m"
| "exn_text (InvalidTrainingStepsError m) = m"
| "exn_text (DownloadNotAvailableError m) = m"
| "exn_text (UploadValidationError m) = m"
| "exn_text (UploadNotFoundError m) = m"
| "exn_text (HFDatasetNotFoundError m) = m"
| "exn_text (CaptchaFailedError m) = m"
| "exn_text (EmailAlreadyRegisteredError m) = m"
| "exn_text (InvalidCredentialsError m) = m"
| "exn_text (WrongOldPasswordError m) = m"
| "exn_text (InvalidTokenError m) = m"
| "exn_text (InvalidInfoJsonError m) = m"
| "exn_text (UserMissingError m) = m"
| "exn_text (DatasetFetchError m) = m"
| "exn_text (CheckpointNotFoundError m) = m"
| "exn_text (LockAcquisitionError m) = m"
| "exn_text (OAuthExchangeError m) = m"
| "exn_text (HTTPException n m) = str_int n @ '': '' @ m"
| "exn_text (SystemExit n) = str_int n"
| "exn_text (RuntimeError m) = m"
| "exn_text (CalledProcessError cmd n) =
     ''Command '' @ quoted (text_of_list cmd) @ '' returned non-zero exit status '' @ str_int n @ ''.''"
| "exn_text (JSONDecodeError m) = m"
| "exn_text (UnicodeDecodeError m) = m"
| "exn_text (BadZipFile m) = m"
| "exn_text (FileNotFoundError m) = m"
| "exn_text (KeyError m) = quoted m"
| "exn_text (ValueError m) = m"
| "exn_text (TypeError m) = m"
| "exn_text (AttributeError m) = m"
| "exn_text StopIteration = []"
| "exn_text (OSError m) = m"
| "exn_text (ExternalError m) = m"

type_synonym ('s, 'a) outcome = "(exn + 'a) \<times> 's"

text \<open>Sequencing of two steps that can raise and change the state.\<close>

definition then_do :: "('s, 'a) outcome \<Rightarrow> ('a \<Rightarrow> 's \<Rightarrow> ('s, 'b) outcome) \<Rightarrow> ('s, 'b) outcome" where
  "then_do r f = (case r of (Inl e, s) \<Rightarrow> (Inl e, s) | (Inr x, s) \<Rightarrow> f x s)"

lemma then_do_simps [simp]: "then_do (Inr x, s) f = f x s" "then_do (Inl e, s) f = (Inl e, s)"
  by (simp_all add: then_do_def)

text \<open>Looking an enum member up by its value raises \<open>ValueError\<close> when there is none.\<close>

definition status_of_value :: "string \<Rightarrow> exn + JobStatus" where
  "status_of_value v =
     (case find (\<lambda>s. status_value s = v) Enum.enum of
        Some s \<Rightarrow> Inr s | None \<Rightarrow> Inl (ValueError v))"

definition policy_of_value :: "string \<Rightarrow> exn + PolicyType" where
  "policy_of_value v =
     (case find (\<lambda>s. policy_value s = v) [ACT, SMOLVLA] of
        Some s \<Rightarrow> Inr s | None \<Rightarrow> Inl (ValueError v))"

definition source_type_of_value :: "string \<Rightarrow> exn + SourceType" where
  "source_type_of_value v =
     (case find (\<lambda>s. source_type_value s = v) [HF_HUB, ZIP_UPLOAD] of
        Some s \<Rightarrow> Inr s | None \<Rightarrow> Inl (ValueError v))"

definition provider_of_value :: "string \<Rightarrow> exn + AuthProvider" where
  "provider_of_value v =
     (case find (\<lambda>s. provider_value s = v) [EMAIL, HUGGINGFACE] of
        Some s \<Rightarrow> Inr s | None \<Rightarrow> Inl (ValueError v))"

lemma enum_values_roundtrip [simp]:
  "status_of_value (status_value s) = Inr s"
  "policy_of_value (policy_value p) = Inr p"
  "source_type_of_value (source_type_value t) = Inr t"
  "provider_of_value (provider_value a) = Inr a"
     apply (cases s; simp add: status_of_value_def enum_JobStatus_def)
    apply (cases p; simp add: policy_of_value_def)
   apply (cases t; simp add: source_type_of_value_def)
  apply (cases a; simp add: provider_of_value_def)
  done

lemma mem_status_groups [status_simps]:
  "s \<in> set ACTIVE_STATUSES \<longleftrightarrow> s = QUEUED \<or> s = INITIALIZING \<or> s = TRAINING"
  "s \<in> set TERMINAL_STATUSES \<longleftrightarrow> s = COMPLETED \<or> s = FAILED \<or> s = CANCELLED"
  "s \<in> set CONTAINER_STARTED_STATUSES \<longleftrightarrow> s \<noteq> QUEUED"
  by (cases s; simp add: ACTIVE_STATUSES_def TERMINAL_STATUSES_def CONTAINER_STARTED_STATUSES_def)+

lemma active_iff_not_terminal: "s \<in> set ACTIVE_STATUSES \<longleftrightarrow> s \<notin> set TERMINAL_STATUSES"
  by (cases s; simp add: status_simps)

text \<open>A concrete job and a concrete user, for examples.\<close>

definition demo_job :: "string \<Rightarrow> string \<Rightarrow> JobStatus \<Rightarrow> Job" where
  "demo_job i u s =
     \<lparr>j_id = i, j_user_id = u, j_policy = ACT, j_source_type = HF_HUB, j_source_ref = ''org/repo'',
      j_training_steps = 1000, j_status = s, j_container_id = None, j_heartbeat_at = None,
      j_progress = None, j_cancel_requested = False, j_checkpoint_gcs_path = None,
      j_error_message = None, j_created_at = 0, j_updated_at = 0\<rparr>"

definition demo_user :: "string \<Rightarrow> User" where
  "demo_user i =
     \<lparr>u_id = i, u_auth_provider = EMAIL, u_email = Some ''a@example.com'',
      u_password_hash = None, u_hf_user_id = None, u_daily_quota_used = 0,
      u_quota_reset_date = None, u_created_at = 0\<rparr>"

end
