(* ===== verification/Job_State_Machine.thy ===== *)
theory Job_State_Machine
  imports Models
begin

text \<open>
  \<open>common/domain/job_state_machine.py\<close>: the table of allowed status transitions, the guarded
  transition of a job and the cancellation request. The second half states what the state
  machine promises its callers: which statuses a job can reach, that terminal statuses are
  final, and \<open>evolves_to\<close>, the relation between an earlier and a later version of the same
  job that every write of the services and the worker has to respect.
\<close>

fun allowed_transitions :: "JobStatus \<Rightarrow> JobStatus list" where
  "allowed_transitions QUEUED = [INITIALIZING, CANCELLED]"
| "allowed_transitions INITIALIZING = [TRAINING, FAILED, CANCELLED]"
| "allowed_transitions TRAINING = [COMPLETED, FAILED, CANCELLED]"
| "allowed_transitions COMPLETED = []"
| "allowed_transitions FAILED = []"
| "allowed_transitions CANCELLED = []"

definition can_transition :: "JobStatus \<Rightarrow> JobStatus \<Rightarrow> bool" where
  "can_transition from_status to_status \<longleftrightarrow> to_status \<in> set (allowed_transitions from_status)"

definition transition :: "Job \<Rightarrow> JobStatus \<Rightarrow> datetime \<Rightarrow> exn + Job" where
  "transition job to_status now =
     (if \<not> can_transition (j_status job) to_status
      then Inl (InvalidTransitionError (j_status job) to_status)
      else Inr (job\<lparr>j_status := to_status, j_updated_at := now\<rparr>))"

definition can_request_cancel :: "JobStatus \<Rightarrow> bool" where
  "can_request_cancel s \<longleftrightarrow> s \<in> set ACTIVE_STATUSES"

definition request_cancel :: "Job \<Rightarrow> datetime \<Rightarrow> exn + Job" where
  "request_cancel job now =
     (if \<not> can_request_cancel (j_status job)
      then Inl (CancelNotAllowedError (j_status job))
      else Inr (job\<lparr>j_cancel_requested := True, j_updated_at := now\<rparr>))"

subsection \<open>Transitions\<close>

lemma can_transition_iff [status_simps]:
  "can_transition QUEUED t \<longleftrightarrow> t = INITIALIZING \<or> t = CANCELLED"
  "can_transition INITIALIZING t \<longleftrightarrow> t = TRAINING \<or> t = FAILED \<or> t = CANCELLED"
  "can_transition TRAINING t \<longleftrightarrow> t = COMPLETED \<or> t = FAILED \<or> t = CANCELLED"
  "can_transition COMPLETED t \<longleftrightarrow> False"
  "can_transition FAILED t \<longleftrightarrow> False"
  "can_transition CANCELLED t \<longleftrightarrow> False"
  by (auto simp: can_transition_def)

lemma transition_Inr_iff:
  "transition job t now = Inr job' \<longleftrightarrow>
     can_transition (j_status job) t \<and> job' = job\<lparr>j_status := t, j_updated_at := now\<rparr>"
  by (auto simp: transition_def)

lemma transition_okI [simp]:
  "can_transition (j_status job) t \<Longrightarrow>
     transition job t now = Inr (job\<lparr>j_status := t, j_updated_at := now\<rparr>)"
  by (simp add: transition_def)

lemma transition_Inl_iff:
  "transition job t now = Inl e \<longleftrightarrow>
     \<not> can_transition (j_status job) t \<and> e = InvalidTransitionError (j_status job) t"
  by (auto simp: transition_def)

lemma request_cancel_Inr_iff:
  "request_cancel job now = Inr job' \<longleftrightarrow>
     j_status job \<in> set ACTIVE_STATUSES \<and>
     job' = job\<lparr>j_cancel_requested := True, j_updated_at := now\<rparr>"
  by (auto simp: request_cancel_def can_request_cancel_def)

inductive status_reaches :: "JobStatus \<Rightarrow> JobStatus \<Rightarrow> bool" where
  reaches_refl: "status_reaches s s"
| reaches_step: "status_reaches s t \<Longrightarrow> can_transition t u \<Longrightarrow> status_reaches s u"

code_pred status_reaches .

lemma status_reaches_trans: "status_reaches t u \<Longrightarrow> status_reaches s t \<Longrightarrow> status_reaches s u"
  by (induction rule: status_reaches.induct) (auto intro: status_reaches.intros)

lemma status_reaches_one: "can_transition s t \<Longrightarrow> status_reaches s t"
  by (auto intro: status_reaches.intros)

text \<open>The progress of a status: it grows along every allowed transition.\<close>

fun status_rank :: "JobStatus \<Rightarrow> nat" where
  "status_rank QUEUED = 0"
| "status_rank INITIALIZING = 1"
| "status_rank TRAINING = 2"
| "status_rank COMPLETED = 3"
| "status_rank FAILED = 3"
| "status_rank CANCELLED = 3"

lemma can_transition_rank: "can_transition s t \<Longrightarrow> status_rank s < status_rank t"
  by (cases s; cases t) (simp_all add: status_simps)

lemma status_reaches_rank: "status_reaches s t \<Longrightarrow> s = t \<or> status_rank s < status_rank t"
  by (induction rule: status_reaches.induct) (auto dest: can_transition_rank)

lemma status_reaches_terminal: "status_reaches s t \<Longrightarrow> s \<in> set TERMINAL_STATUSES \<Longrightarrow> t = s"
  by (induction rule: status_reaches.induct) (auto simp: status_simps)

lemma status_reaches_iff:
  "status_reaches s t \<longleftrightarrow>
     s = t \<or>
     s = QUEUED \<or>
     s = INITIALIZING \<and> t \<noteq> QUEUED \<or>
     s = TRAINING \<and> t \<in> set TERMINAL_STATUSES"
proof
  assume "status_reaches s t"
  then show "s = t \<or> s = QUEUED \<or> s = INITIALIZING \<and> t \<noteq> QUEUED \<or>
      s = TRAINING \<and> t \<in> set TERMINAL_STATUSES"
  proof (induction rule: status_reaches.induct)
    case (reaches_step s t u)
    then show ?case by (cases t; cases s) (auto simp: status_simps)
  qed simp
next
  have q: "status_reaches QUEUED INITIALIZING" and i: "status_reaches INITIALIZING TRAINING"
    by (auto intro!: status_reaches_one simp: status_simps)
  have t: "status_reaches TRAINING u" if "u \<in> set TERMINAL_STATUSES" for u
    using that by (auto intro!: status_reaches_one simp: status_simps)
  have i': "status_reaches INITIALIZING u" if "u \<noteq> QUEUED" for u
    using that i t status_reaches_trans[OF t i]
    by (cases u) (auto simp: status_simps intro: reaches_refl)
  have q': "status_reaches QUEUED u" for u
    using status_reaches_trans[OF i' q] by (cases "u = QUEUED") (auto intro: reaches_refl)
  assume "s = t \<or> s = QUEUED \<or> s = INITIALIZING \<and> t \<noteq> QUEUED \<or>
      s = TRAINING \<and> t \<in> set TERMINAL_STATUSES"
  then show "status_reaches s t"
    using t i' q' by (auto intro: reaches_refl)
qed

subsection \<open>Evolution of a stored job\<close>

text \<open>
  What may change between two versions of a job: identity, owner, policy, source, number of
  steps and creation time never do; the status moves along allowed transitions; and once a job
  is terminal nothing about it changes any more.
\<close>

definition same_submission :: "Job \<Rightarrow> Job \<Rightarrow> bool" where
  "same_submission j j' \<longleftrightarrow>
     j_id j' = j_id j \<and> j_user_id j' = j_user_id j \<and> j_policy j' = j_policy j \<and>
     j_source_type j' = j_source_type j \<and> j_source_ref j' = j_source_ref j \<and>
     j_training_steps j' = j_training_steps j \<and> j_created_at j' = j_created_at j"

definition evolves_to :: "Job \<Rightarrow> Job \<Rightarrow> bool" where
  "evolves_to j j' \<longleftrightarrow>
     j' = j \<or>
     j_status j \<notin> set TERMINAL_STATUSES \<and> same_submission j j' \<and>
     status_reaches (j_status j) (j_status j')"

lemma same_submission_refl [simp]: "same_submission j j"
  by (simp add: same_submission_def)

lemma evolves_to_refl [simp, intro]: "evolves_to j j"
  by (simp add: evolves_to_def)

lemma evolves_to_trans: "evolves_to i j \<Longrightarrow> evolves_to j k \<Longrightarrow> evolves_to i k"
  by (auto simp: evolves_to_def same_submission_def intro: status_reaches_trans)

lemma evolves_to_terminal: "evolves_to j j' \<Longrightarrow> j_status j \<in> set TERMINAL_STATUSES \<Longrightarrow> j' = j"
  by (auto simp: evolves_to_def)

lemma evolves_to_id: "evolves_to j j' \<Longrightarrow> j_id j' = j_id j"
  by (auto simp: evolves_to_def same_submission_def)

lemma evolves_to_user: "evolves_to j j' \<Longrightarrow> j_user_id j' = j_user_id j"
  by (auto simp: evolves_to_def same_submission_def)

lemma evolves_to_reaches: "evolves_to j j' \<Longrightarrow> status_reaches (j_status j) (j_status j')"
  by (auto simp: evolves_to_def intro: reaches_refl)

lemma evolves_to_active_back:
  "evolves_to j j' \<Longrightarrow> j_status j' \<in> set ACTIVE_STATUSES \<Longrightarrow> j_status j \<in> set ACTIVE_STATUSES"
  by (auto simp: active_iff_not_terminal dest: evolves_to_terminal)

lemma evolves_to_queued_back: "evolves_to j j' \<Longrightarrow> j_status j' = QUEUED \<Longrightarrow> j_status j = QUEUED"
  by (auto dest!: evolves_to_reaches status_reaches_rank)

lemma evolves_to_writeI [evolve_intros]:
  assumes "j_status j \<notin> set TERMINAL_STATUSES" and "status_reaches (j_status j) (j_status j')"
    and "same_submission j j'"
  shows "evolves_to j j'"
  using assms by (simp add: evolves_to_def)

lemma evolves_to_transition [evolve_intros]: "transition j t now = Inr j' \<Longrightarrow> evolves_to j j'"
  by (cases "j_status j")
     (auto simp: transition_Inr_iff evolves_to_def same_submission_def status_simps
        intro: status_reaches_one)

lemma evolves_to_request_cancel [evolve_intros]: "request_cancel j now = Inr j' \<Longrightarrow> evolves_to j j'"
  by (auto simp: request_cancel_Inr_iff evolves_to_def same_submission_def
      active_iff_not_terminal intro: reaches_refl)

text \<open>Evolution of a whole repository: no job disappears, and jobs that appear are queued.\<close>

definition jobs_evolve :: "(string \<rightharpoonup> Job) \<Rightarrow> (string \<rightharpoonup> Job) \<Rightarrow> bool" where
  "jobs_evolve m m' \<longleftrightarrow>
     (\<forall>k j. m k = Some j \<longrightarrow> (\<exists>j'. m' k = Some j' \<and> evolves_to j j')) \<and>
     (\<forall>k j'. m k = None \<longrightarrow> m' k = Some j' \<longrightarrow> j_status j' = QUEUED)"

text \<open>The evolution of a step that creates no job: the worker and the timeout sweep.\<close>

definition jobs_advance :: "(string \<rightharpoonup> Job) \<Rightarrow> (string \<rightharpoonup> Job) \<Rightarrow> bool" where
  "jobs_advance m m' \<longleftrightarrow> dom m' = dom m \<and> (\<forall>k j j'. m k = Some j \<longrightarrow> m' k = Some j' \<longrightarrow> evolves_to j j')"

lemma jobs_advance_refl [simp, intro]: "jobs_advance m m"
  by (simp add: jobs_advance_def)

lemma jobs_advanceD:
  assumes "jobs_advance m m'" and "m k = Some j"
  obtains j' where "m' k = Some j'" and "evolves_to j j'"
  using assms by (fastforce simp: jobs_advance_def)

lemma jobs_advance_backD:
  assumes "jobs_advance m m'" and "m' k = Some j'"
  obtains j where "m k = Some j" and "evolves_to j j'"
  using assms by (fastforce simp: jobs_advance_def)

lemma jobs_advance_trans:
  assumes "jobs_advance m m'" and "jobs_advance m' m''"
  shows "jobs_advance m m''"
proof -
  have "evolves_to j j''" if j: "m k = Some j" and j'': "m'' k = Some j''" for k j j''
  proof -
    obtain j' where "m' k = Some j'" and "evolves_to j j'"
      using assms(1) j by (rule jobs_advanceD)
    moreover have "evolves_to j' j''"
      using assms(2) calculation(1) j'' by (auto simp: jobs_advance_def)
    ultimately show ?thesis by (blast intro: evolves_to_trans)
  qed
  with assms show ?thesis by (auto simp: jobs_advance_def)
qed

lemma jobs_advance_evolve: "jobs_advance m m' \<Longrightarrow> jobs_evolve m m'"
  unfolding jobs_advance_def jobs_evolve_def by (fastforce simp: dom_def)

lemma jobs_advance_write:
  assumes "m (j_id j) = Some j" and "evolves_to j j'"
  shows "jobs_advance m (m(j_id j' \<mapsto> j'))"
  using assms evolves_to_id [OF assms(2)] by (auto simp: jobs_advance_def)

subsection \<open>Properties\<close>

text \<open>A sequence of transitions, stopped by the first one that raises.\<close>

fun run_transitions :: "Job \<Rightarrow> (JobStatus \<times> datetime) list \<Rightarrow> exn + Job" where
  "run_transitions job [] = Inr job"
| "run_transitions job ((t, now) # ts) = and_then (transition job t now) (\<lambda>j. run_transitions j ts)"

lemma run_transitions_rank:
  "run_transitions job ts = Inr job' \<Longrightarrow>
     status_rank (j_status job) + length ts \<le> status_rank (j_status job')"
proof (induction ts arbitrary: job)
  case (Cons t ts)
  obtain u now where t: "t = (u, now)" by (cases t)
  with Cons.prems have "can_transition (j_status job) u"
    and "run_transitions (job\<lparr>j_status := u, j_updated_at := now\<rparr>) ts = Inr job'"
    by (auto simp: and_then_Inr_iff transition_Inr_iff)
  with Cons.IH can_transition_rank show ?case by fastforce
qed simp

lemma run_transitions_evolves: "run_transitions job ts = Inr job' \<Longrightarrow> evolves_to job job'"
proof (induction ts arbitrary: job)
  case (Cons t ts)
  obtain u now where t: "t = (u, now)" by (cases t)
  with Cons.prems obtain j where "transition job u now = Inr j" and "run_transitions j ts = Inr job'"
    by (auto simp: and_then_Inr_iff)
  with Cons.IH show ?case by (blast intro: evolves_to_trans evolves_to_transition)
qed simp

lemma status_rank_bound: "status_rank s \<le> 3"
  by (cases s) auto

text \<open>
  C16: However transitions are sequenced, a job takes at most three of them, none leaves a
  terminal status, each run follows the table (so a status never comes back), and the submission
  itself (id, owner, policy, source, steps, creation time) is untouched.
\<close>

theorem transitions_bounded:
  assumes "run_transitions job ts = Inr job'"
  shows "length ts \<le> 3 \<and> status_reaches (j_status job) (j_status job') \<and>
    (j_status job \<in> set TERMINAL_STATUSES \<longrightarrow> ts = [] \<and> job' = job) \<and>
    (ts \<noteq> [] \<longrightarrow> j_status job' \<noteq> j_status job) \<and> same_submission job job'"
proof -
  have rank: "status_rank (j_status job) + length ts \<le> status_rank (j_status job')"
    using assms by (rule run_transitions_rank)
  then have "length ts \<le> 3" and "ts \<noteq> [] \<longrightarrow> j_status job' \<noteq> j_status job"
    using status_rank_bound [of "j_status job'"] by auto
  moreover have ev: "evolves_to job job'" using assms by (rule run_transitions_evolves)
  moreover have "j_status job \<in> set TERMINAL_STATUSES \<longrightarrow> ts = [] \<and> job' = job"
    using rank evolves_to_terminal [OF ev] by auto
  ultimately show ?thesis
    using evolves_to_reaches [OF ev] by (auto simp: evolves_to_def)
qed

theorem transitions_bounded_witness:
  "run_transitions (demo_job ''j1'' ''u1'' QUEUED) [(INITIALIZING, 5), (TRAINING, 6), (COMPLETED, 7)] =
     Inr ((demo_job ''j1'' ''u1'' COMPLETED)\<lparr>j_updated_at := 7\<rparr>) \<and>
   status_reaches QUEUED COMPLETED"
proof -
  have run: "run_transitions (demo_job ''j1'' ''u1'' QUEUED)
      [(INITIALIZING, 5), (TRAINING, 6), (COMPLETED, 7)] =
      Inr ((demo_job ''j1'' ''u1'' COMPLETED)\<lparr>j_updated_at := 7\<rparr>)"
    by (simp add: demo_job_def transition_def can_transition_def)
  then show ?thesis using transitions_bounded [OF run] by (simp add: demo_job_def)
qed

end
