(* ===== verification/Content.thy ===== *)
theory Content
  imports Models
begin

text \<open>
  File contents and the part of Python's \<open>json\<close> and \<open>zipfile\<close> modules that the program uses.
  A sequence of bytes is represented by what the program can do with it: the bytes of a JSON
  text by the value \<open>json.loads\<close> returns, the bytes of a zip archive by its members in the
  order of the central directory, everything else as raw bytes. Objects of a JSON text are
  dictionaries (association lists with distinct keys), numbers are kept as Python's \<open>int\<close> or
  \<open>float\<close>. The position a decoding error reports is not modelled: its text is one constant.
\<close>

datatype json =
    JNull
  | JBool bool
  | JInt int
  | JFloat pyfloat
  | JStr string
  | JArr "json list"
  | JObj "(string \<times> json) list"

datatype blob =
    RawBytes string
  | JsonText json
  | ZipArchive "zip_member list"
and zip_member = ZipMember (zm_name: string) (zm_size: int) (zm_data: blob)

definition JSON_ERROR :: string where
  "JSON_ERROR = ''Expecting value: line 1 column 1 (char 0)''"

text \<open>\<open>json.loads\<close> of the bytes, and \<open>json.dumps\<close> followed by encoding.\<close>

fun json_loads :: "blob \<Rightarrow> exn + json" where
  "json_loads (JsonText v) = Inr v"
| "json_loads (RawBytes _) = Inl (JSONDecodeError JSON_ERROR)"
| "json_loads (ZipArchive _) = Inl (JSONDecodeError JSON_ERROR)"

definition json_dumps :: "json \<Rightarrow> blob" where
  "json_dumps v = JsonText v"

lemma json_loads_dumps [simp]: "json_loads (json_dumps v) = Inr v"
  by (simp add: json_dumps_def)

lemma json_loads_Inl: "json_loads b = Inl e \<Longrightarrow> e = JSONDecodeError JSON_ERROR"
  by (cases b) auto

text \<open>\<open>raw[key]\<close>: a \<open>KeyError\<close> on an object without the key, a \<open>TypeError\<close> on anything else.\<close>

fun json_item :: "json \<Rightarrow> string \<Rightarrow> exn + json" where
  "json_item (JObj d) key =
     (case map_of d key of Some v \<Rightarrow> Inr v | None \<Rightarrow> Inl (KeyError key))"
| "json_item _ key = Inl (TypeError key)"

text \<open>
  \<open>zipfile.ZipFile(stream)\<close> reads the central directory or raises \<open>BadZipFile\<close>;
  \<open>infolist()\<close> is the directory in order; \<open>read(name)\<close> takes the last member of that name,
  because \<open>ZipFile.NameToInfo\<close> keeps the last one, and raises \<open>KeyError\<close> if there is none.
\<close>

fun zip_infolist :: "blob \<Rightarrow> exn + zip_member list" where
  "zip_infolist (ZipArchive ms) = Inr ms"
| "zip_infolist _ = Inl (BadZipFile ''File is not a zip file'')"

definition zip_find :: "zip_member list \<Rightarrow> string \<Rightarrow> exn + blob" where
  "zip_find ms name =
     (case find (\<lambda>m. zm_name m = name) (rev ms) of
        Some m \<Rightarrow> Inr (zm_data m)
      | None \<Rightarrow> Inl (KeyError name))"

definition zip_read :: "blob \<Rightarrow> string \<Rightarrow> exn + blob" where
  "zip_read b name =
     (case zip_infolist b of Inl e \<Rightarrow> Inl e | Inr ms \<Rightarrow> zip_find ms name)"

lemma zip_find_found: "name \<in> zm_name ` set ms \<Longrightarrow> \<exists>b. zip_find ms name = Inr b"
  by (cases "find (\<lambda>m. zm_name m = name) (rev ms)")
     (auto simp: zip_find_def find_None_iff)

lemma zip_find_missing: "name \<notin> zm_name ` set ms \<Longrightarrow> zip_find ms name = Inl (KeyError name)"
proof -
  assume "name \<notin> zm_name ` set ms"
  then have "find (\<lambda>m. zm_name m = name) (rev ms) = None"
    by (auto simp: find_None_iff)
  then show ?thesis by (simp add: zip_find_def)
qed

end
