(* ===== verification/File_System.thy ===== *)
theory File_System
  imports Content
begin

text \<open>
  The local file system as \<open>pathlib\<close>, \<open>os\<close> and \<open>shutil\<close> show it to the worker: a path is the list
  of its components, a file system a dictionary from paths to nodes in the order \<open>iterdir\<close> would
  list them, with the time the next change is stamped with. Symbolic links, permissions and
  partial failures of \<open>rmtree(ignore_errors=True)\<close> are not modelled.
\<close>

type_synonym path = "string list"

datatype node = FileNode (node_size: int) (node_blob: blob) | DirNode

record inode =
  i_node :: node
  i_mtime :: int

record fsys =
  fs_nodes :: "(path \<times> inode) list"
  fs_clock :: int

text \<open>\<open>Path(s)\<close> and the right operand of \<open>/\<close>: the components other than \<open>.\<close>.\<close>

definition path_of_string :: "string \<Rightarrow> path" where
  "path_of_string s = filter (\<lambda>c. c \<noteq> ''.'') (path_parts [] s)"

text \<open>\<open>str(path)\<close> of an absolute path.\<close>

definition string_of_path :: "path \<Rightarrow> string" where
  "string_of_path p = concat (map (\<lambda>c. ''/'' @ c) p)"

definition within_dir :: "path \<Rightarrow> path \<Rightarrow> bool" where
  "within_dir d p \<longleftrightarrow> take (length d) p = d"

definition strictly_within :: "path \<Rightarrow> path \<Rightarrow> bool" where
  "strictly_within d p \<longleftrightarrow> within_dir d p \<and> length d < length p"

definition fs_lookup :: "fsys \<Rightarrow> path \<Rightarrow> inode option" where
  "fs_lookup fs p = map_of (fs_nodes fs) p"

definition fs_exists :: "fsys \<Rightarrow> path \<Rightarrow> bool" where
  "fs_exists fs p \<longleftrightarrow> fs_lookup fs p \<noteq> None"

definition is_dir_inode :: "inode \<Rightarrow> bool" where
  "is_dir_inode i \<longleftrightarrow> i_node i = DirNode"

definition fs_is_dir :: "fsys \<Rightarrow> path \<Rightarrow> bool" where
  "fs_is_dir fs p \<longleftrightarrow> (case fs_lookup fs p of Some i \<Rightarrow> is_dir_inode i | None \<Rightarrow> False)"

definition fs_is_file :: "fsys \<Rightarrow> path \<Rightarrow> bool" where
  "fs_is_file fs p \<longleftrightarrow> (case fs_lookup fs p of Some i \<Rightarrow> \<not> is_dir_inode i | None \<Rightarrow> False)"

definition fs_mtime :: "fsys \<Rightarrow> path \<Rightarrow> int" where
  "fs_mtime fs p = (case fs_lookup fs p of Some i \<Rightarrow> i_mtime i | None \<Rightarrow> 0)"

definition fs_read :: "fsys \<Rightarrow> path \<Rightarrow> exn + blob" where
  "fs_read fs p =
     (case fs_lookup fs p of
        Some i \<Rightarrow> (case i_node i of FileNode _ b \<Rightarrow> Inr b | DirNode \<Rightarrow> Inl (OSError (string_of_path p)))
      | None \<Rightarrow> Inl (FileNotFoundError (string_of_path p)))"

text \<open>\<open>d.iterdir()\<close>: the immediate children, and everything below a directory.\<close>

definition fs_iterdir :: "fsys \<Rightarrow> path \<Rightarrow> path list" where
  "fs_iterdir fs d = filter (\<lambda>p. within_dir d p \<and> length p = Suc (length d)) (map fst (fs_nodes fs))"

definition fs_below :: "fsys \<Rightarrow> path \<Rightarrow> path list" where
  "fs_below fs d = filter (strictly_within d) (map fst (fs_nodes fs))"

definition fs_put :: "path \<Rightarrow> inode \<Rightarrow> fsys \<Rightarrow> fsys" where
  "fs_put p i fs = fs\<lparr>fs_nodes := AList.update p i (fs_nodes fs)\<rparr>"

definition fs_touch :: "path \<Rightarrow> fsys \<Rightarrow> fsys" where
  "fs_touch p fs =
     (case fs_lookup fs p of
        Some i \<Rightarrow> fs_put p (i\<lparr>i_mtime := fs_clock fs\<rparr>) fs
      | None \<Rightarrow> fs_put p \<lparr>i_node = FileNode 0 (RawBytes []), i_mtime = fs_clock fs\<rparr> fs)"

text \<open>Adding or removing an entry stamps the parent directory.\<close>

definition fs_stamp :: "path \<Rightarrow> fsys \<Rightarrow> fsys" where
  "fs_stamp p fs =
     (case fs_lookup fs p of
        Some i \<Rightarrow> fs_put p (i\<lparr>i_mtime := fs_clock fs\<rparr>) fs
      | None \<Rightarrow> fs)"

definition fs_mkdir1 :: "path \<Rightarrow> fsys \<Rightarrow> fsys" where
  "fs_mkdir1 p fs =
     (if fs_exists fs p then fs
      else fs_stamp (butlast p) (fs_put p \<lparr>i_node = DirNode, i_mtime = fs_clock fs\<rparr> fs))"

text \<open>\<open>p.mkdir(parents=True, exist_ok=True)\<close> creates the missing prefixes from the root down.\<close>

definition fs_mkdir :: "path \<Rightarrow> fsys \<Rightarrow> fsys" where
  "fs_mkdir p fs = fold (\<lambda>n. fs_mkdir1 (take n p)) [1 ..< Suc (length p)] fs"

definition fs_write :: "path \<Rightarrow> int \<Rightarrow> blob \<Rightarrow> fsys \<Rightarrow> fsys" where
  "fs_write p sz b fs =
     (let fs' = (if fs_exists fs p then fs else fs_stamp (butlast p) fs)
      in fs_put p \<lparr>i_node = FileNode sz b, i_mtime = fs_clock fs\<rparr> fs')"

text \<open>
  \<open>os.makedirs\<close> and \<open>open(p, "wb")\<close> with their failures: a file where a directory is needed, a
  directory where a file is to be written, a missing parent.
\<close>

definition fs_makedirs :: "path \<Rightarrow> fsys \<Rightarrow> (fsys, unit) outcome" where
  "fs_makedirs p fs =
     (if list_ex (\<lambda>n. fs_is_file fs (take n p)) [1 ..< Suc (length p)]
      then (Inl (OSError (string_of_path p)), fs)
      else (Inr (), fs_mkdir p fs))"

definition fs_write_file :: "path \<Rightarrow> int \<Rightarrow> blob \<Rightarrow> fsys \<Rightarrow> (fsys, unit) outcome" where
  "fs_write_file p sz b fs =
     (if p = [] \<or> fs_is_dir fs p \<or> \<not> (butlast p = [] \<or> fs_is_dir fs (butlast p))
      then (Inl (OSError (string_of_path p)), fs)
      else (Inr (), fs_write p sz b fs))"

definition fs_rmtree :: "path \<Rightarrow> fsys \<Rightarrow> fsys" where
  "fs_rmtree d fs =
     (if fs_exists fs d
      then fs_stamp (butlast d) (fs\<lparr>fs_nodes := filter (\<lambda>(p, _). \<not> within_dir d p) (fs_nodes fs)\<rparr>)
      else fs)"

text \<open>
  \<open>os.replace(src, dst)\<close>: everything at or below \<open>src\<close> moves; an existing \<open>dst\<close> is replaced
  when it is a file or an empty directory.
\<close>

definition fs_replace :: "path \<Rightarrow> path \<Rightarrow> fsys \<Rightarrow> (exn + unit) \<times> fsys" where
  "fs_replace src dst fs =
     (if \<not> fs_exists fs src then (Inl (FileNotFoundError (string_of_path src)), fs)
      else if fs_is_dir fs dst \<and> fs_below fs dst \<noteq> [] then (Inl (OSError (string_of_path dst)), fs)
      else
        (let kept = filter (\<lambda>(p, _). \<not> within_dir dst p) (fs_nodes fs);
             moved = map (\<lambda>(p, i). (if within_dir src p then dst @ drop (length src) p else p, i)) kept
         in (Inr (), fs_stamp (butlast dst) (fs_stamp (butlast src) (fs\<lparr>fs_nodes := moved\<rparr>)))))"

subsection \<open>Paths\<close>

lemma within_dir_refl [simp]: "within_dir d d"
  by (simp add: within_dir_def)

lemma within_dir_append [simp]: "within_dir d (d @ p)"
  by (simp add: within_dir_def)

lemma within_dir_iff: "within_dir d p \<longleftrightarrow> (\<exists>q. p = d @ q)"
  by (metis append_eq_conv_conj append_take_drop_id within_dir_def)

lemma within_dir_trans: "within_dir a b \<Longrightarrow> within_dir b c \<Longrightarrow> within_dir a c"
  by (auto simp: within_dir_iff)

lemma path_of_string_join:
  "path_of_string (a @ ''/'' @ b) = path_of_string a @ path_of_string b"
  unfolding path_of_string_def path_parts_slash by simp

lemma path_of_string_component:
  "CHR ''/'' \<notin> set c \<Longrightarrow> c \<noteq> [] \<Longrightarrow> c \<noteq> ''.'' \<Longrightarrow> path_of_string c = [c]"
  by (simp add: path_of_string_def path_parts_no_slash)

lemma path_string_roundtrip:
  "\<forall>c \<in> set p. c \<noteq> [] \<and> c \<noteq> ''.'' \<and> CHR ''/'' \<notin> set c \<Longrightarrow> path_of_string (string_of_path p) = p"
proof (induction p rule: rev_induct)
  case (snoc c p)
  have "path_of_string (string_of_path (p @ [c])) = path_of_string (string_of_path p @ ''/'' @ c)"
    by (simp add: string_of_path_def)
  also have "\<dots> = path_of_string (string_of_path p) @ path_of_string c"
    by (rule path_of_string_join)
  finally show ?case using snoc by (simp add: path_of_string_component)
qed (simp add: string_of_path_def path_of_string_def)

subsection \<open>Lookups after changes\<close>

lemma lookup_put [simp]: "fs_lookup (fs_put p i fs) q = (if q = p then Some i else fs_lookup fs q)"
  by (simp add: fs_lookup_def fs_put_def)

lemma clock_put [simp]: "fs_clock (fs_put p i fs) = fs_clock fs"
  by (simp add: fs_put_def)

lemma lookup_stamp:
  "fs_lookup (fs_stamp p fs) q =
     (if q = p then map_option (\<lambda>i. i\<lparr>i_mtime := fs_clock fs\<rparr>) (fs_lookup fs q) else fs_lookup fs q)"
  by (simp add: fs_stamp_def split: option.splits)

lemma exists_stamp [simp]: "fs_exists (fs_stamp p fs) q = fs_exists fs q"
  by (simp add: fs_exists_def lookup_stamp)

lemma is_dir_stamp [simp]: "fs_is_dir (fs_stamp p fs) q = fs_is_dir fs q"
  by (simp add: fs_is_dir_def is_dir_inode_def lookup_stamp split: option.splits)

lemma read_stamp [simp]: "fs_read (fs_stamp p fs) q = fs_read fs q"
  by (simp add: fs_read_def lookup_stamp split: option.splits)

lemma map_of_filter_key:
  "map_of (filter (\<lambda>(p, _). P p) xs) q = (if P q then map_of xs q else None)"
  by (induction xs) auto

lemma lookup_rmtree:
  "fs_exists fs d \<Longrightarrow> fs_lookup (fs_rmtree d fs) q =
     (if within_dir d q then None
      else if q = butlast d then map_option (\<lambda>i. i\<lparr>i_mtime := fs_clock fs\<rparr>) (fs_lookup fs q)
      else fs_lookup fs q)"
  by (auto simp: fs_rmtree_def lookup_stamp) (auto simp: fs_lookup_def map_of_filter_key)

definition parents_closed :: "fsys \<Rightarrow> bool" where
  "parents_closed fs \<longleftrightarrow> (\<forall>p q. fs_exists fs (p @ q) \<longrightarrow> p \<noteq> [] \<longrightarrow> fs_exists fs p)"

lemma rmtree_gone: "parents_closed fs \<Longrightarrow> d \<noteq> [] \<Longrightarrow> within_dir d q \<Longrightarrow> \<not> fs_exists (fs_rmtree d fs) q"
proof (cases "fs_exists fs d")
  case True
  assume "within_dir d q"
  with True show ?thesis by (simp add: fs_exists_def lookup_rmtree)
next
  case False
  assume closed: "parents_closed fs" and d: "d \<noteq> []" "within_dir d q"
  then obtain p where "q = d @ p" by (auto simp: within_dir_iff)
  with closed d False have "\<not> fs_exists fs q"
    unfolding parents_closed_def by blast
  with False show ?thesis by (simp add: fs_rmtree_def)
qed

lemma rmtree_other: "\<not> within_dir d q \<Longrightarrow> fs_exists (fs_rmtree d fs) q = fs_exists fs q"
proof (cases "fs_exists fs d")
  case True
  assume "\<not> within_dir d q"
  with True show ?thesis by (simp add: fs_exists_def lookup_rmtree)
qed (simp add: fs_rmtree_def)

lemma rmtree_read_other: "\<not> within_dir d q \<Longrightarrow> fs_read (fs_rmtree d fs) q = fs_read fs q"
proof (cases "fs_exists fs d")
  case True
  assume "\<not> within_dir d q"
  with True show ?thesis
    by (auto simp: fs_read_def lookup_rmtree split: option.splits)
qed (simp add: fs_rmtree_def)

subsection \<open>What writing leaves alone\<close>

text \<open>Creating a directory or a file changes only the path itself and its ancestors.\<close>

lemma mkdir1_other: "\<not> within_dir q p \<Longrightarrow> fs_lookup (fs_mkdir1 p fs) q = fs_lookup fs q"
  using within_dir_append [of "butlast p" "[last p]"]
  by (cases "p = []") (auto simp: fs_mkdir1_def lookup_stamp)

lemma mkdir_other: "\<not> within_dir q p \<Longrightarrow> fs_lookup (fs_mkdir p fs) q = fs_lookup fs q"
proof -
  assume q: "\<not> within_dir q p"
  have "\<not> within_dir q (take n p)" for n
    using q by (metis append_take_drop_id within_dir_append within_dir_trans)
  then have "fs_lookup (fold (\<lambda>n. fs_mkdir1 (take n p)) ns fs) q = fs_lookup fs q" for ns
    by (induction ns arbitrary: fs) (simp_all add: mkdir1_other)
  then show ?thesis by (simp add: fs_mkdir_def)
qed

lemma makedirs_other:
  "\<not> within_dir q p \<Longrightarrow> fs_lookup (snd (fs_makedirs p fs)) q = fs_lookup fs q"
  by (simp add: fs_makedirs_def mkdir_other)

lemma write_other:
  assumes "q \<noteq> p" and "q \<noteq> butlast p"
  shows "fs_lookup (fs_write p n b fs) q = fs_lookup fs q"
  using assms by (simp add: fs_write_def Let_def lookup_stamp)

lemma write_file_other:
  "q \<noteq> p \<Longrightarrow> q \<noteq> butlast p \<Longrightarrow> fs_lookup (snd (fs_write_file p n b fs)) q = fs_lookup fs q"
  by (simp add: fs_write_file_def write_other)

lemma within_butlast: "within_dir (butlast p) p"
  by (cases p rule: rev_cases) simp_all

lemma write_file_read: "fs_write_file p n b fs = (Inr u, fs') \<Longrightarrow> fs_read fs' p = Inr b"
  by (auto simp: fs_write_file_def fs_write_def Let_def fs_read_def split: if_splits)

lemma read_cong: "fs_lookup fs p = fs_lookup fs' p \<Longrightarrow> fs_read fs p = fs_read fs' p"
  by (simp add: fs_read_def)

text \<open>A file survives what is written beside it.\<close>

lemma mkdir1_keeps: "fs_read fs p = Inr b \<Longrightarrow> fs_read (fs_mkdir1 q fs) p = Inr b"
  by (auto simp: fs_mkdir1_def fs_exists_def fs_read_def lookup_stamp split: option.splits)

lemma makedirs_keeps: "fs_read fs p = Inr b \<Longrightarrow> fs_read (snd (fs_makedirs q fs)) p = Inr b"
proof -
  assume r: "fs_read fs p = Inr b"
  have "fs_read (fold (\<lambda>n. fs_mkdir1 (take n q)) ns fs) p = Inr b" for ns
    using r by (induction ns arbitrary: fs) (simp_all add: mkdir1_keeps)
  with r show ?thesis by (simp add: fs_makedirs_def fs_mkdir_def)
qed

lemma write_keeps: "fs_read fs p = Inr b \<Longrightarrow> p \<noteq> q \<Longrightarrow> fs_read (snd (fs_write_file q n x fs)) p = Inr b"
  by (auto simp: fs_write_file_def fs_write_def Let_def fs_read_def lookup_stamp split: option.splits)

text \<open>A created directory is there.\<close>

lemma mkdir1_no_file: "\<not> fs_is_file fs p \<Longrightarrow> \<not> fs_is_file (fs_mkdir1 q fs) p"
  by (auto simp: fs_is_file_def fs_mkdir1_def is_dir_inode_def lookup_stamp split: option.splits if_splits)

lemma mkdir_is_dir:
  assumes "\<not> fs_is_file fs p" and "p \<noteq> []"
  shows "fs_is_dir (fs_mkdir p fs) p"
proof -
  let ?g = "fold (\<lambda>n. fs_mkdir1 (take n p)) [1 ..< length p] fs"
  have "\<not> fs_is_file (fold (\<lambda>n. fs_mkdir1 (take n p)) ns fs) p" for ns
    using assms(1) by (induction ns arbitrary: fs) (simp_all add: mkdir1_no_file)
  then have no: "\<not> fs_is_file ?g p" .
  have "[1 ..< Suc (length p)] = [1 ..< length p] @ [length p]" using assms(2) by (simp add: Suc_leI)
  then have "fs_mkdir p fs = fs_mkdir1 p ?g" unfolding fs_mkdir_def by simp
  moreover have "fs_is_dir (fs_mkdir1 p ?g) p"
    using no by (auto simp: fs_mkdir1_def fs_is_dir_def fs_is_file_def fs_exists_def is_dir_inode_def lookup_stamp
        split: option.splits)
  ultimately show ?thesis by simp
qed

lemma makedirs_is_dir:
  assumes "fs_makedirs p fs = (Inr u, fs')" and "p \<noteq> []"
  shows "fs_is_dir fs' p"
proof -
  have all: "\<not> list_ex (\<lambda>n. fs_is_file fs (take n p)) [1 ..< Suc (length p)]" and "fs' = fs_mkdir p fs"
    using assms(1) by (simp_all add: fs_makedirs_def split: if_splits)
  moreover have "length p \<in> set [1 ..< Suc (length p)]" using assms(2) by (simp add: Suc_le_eq)
  then have "\<not> fs_is_file fs (take (length p) p)" using all unfolding list_ex_iff by blast
  ultimately show ?thesis using mkdir_is_dir [of fs p] assms(2) by simp
qed

end
