(* ===== verification/Ports.thy ===== *)
theory Ports
  imports Job_State_Machine Content File_System
begin

text \<open>
  The ports of \<open>common/ports\<close>. An abstract base class becomes a record of its methods over the
  type of the adapter's state: a query takes the state, a command returns the new state, and a
  method that can raise returns a sum. An adapter is a value of such a record.

  The contracts the clients rely on are the locales \<open>job_store\<close>, \<open>user_store\<close>,
  \<open>object_store\<close> and \<open>container_host\<close>: their parameters are the adapter's record and the abstract view of its state,
  their assumptions what the docstrings of the ports promise. The adapters' theories interpret
  them.
\<close>

record 'j job_repository =
  jr_get :: "'j \<Rightarrow> string \<Rightarrow> exn + Job option"
  jr_create :: "Job \<Rightarrow> 'j \<Rightarrow> 'j"
  jr_update :: "Job \<Rightarrow> 'j \<Rightarrow> 'j"
  jr_list_for_user :: "'j \<Rightarrow> string \<Rightarrow> exn + Job list"
  jr_list_by_statuses :: "'j \<Rightarrow> JobStatus list \<Rightarrow> exn + Job list"

record 'u user_repository =
  ur_get :: "'u \<Rightarrow> string \<Rightarrow> exn + User option"
  ur_get_by_email :: "'u \<Rightarrow> string \<Rightarrow> exn + User option"
  ur_get_by_hf_user_id :: "'u \<Rightarrow> string \<Rightarrow> exn + User option"
  ur_create :: "User \<Rightarrow> 'u \<Rightarrow> 'u"
  ur_update :: "User \<Rightarrow> 'u \<Rightarrow> 'u"

record 'o object_storage =
  os_generate_upload_url :: "string \<Rightarrow> string \<Rightarrow> int \<Rightarrow> string"
  os_generate_download_url :: "string \<Rightarrow> int \<Rightarrow> string"
  os_open_read_stream :: "'o \<Rightarrow> string \<Rightarrow> exn + blob"
  os_exists :: "'o \<Rightarrow> string \<Rightarrow> bool"
  os_delete :: "string \<Rightarrow> 'o \<Rightarrow> (exn + unit) \<times> 'o"
  os_upload_file :: "string \<Rightarrow> path \<Rightarrow> fsys \<Rightarrow> 'o \<Rightarrow> (exn + unit) \<times> 'o"

record hf_hub_client =
  hh_repo_exists :: "string \<Rightarrow> exn + bool"
  hh_list_repo_files :: "string \<Rightarrow> exn + string list"
  hh_get_repo_file_bytes :: "string \<Rightarrow> string \<Rightarrow> exn + blob"
  hh_download_dataset :: "string \<Rightarrow> path \<Rightarrow> fsys \<Rightarrow> (exn + unit) \<times> fsys"

record CaptchaResult =
  cap_success :: bool
  cap_score :: pyfloat

record HFOAuthUser =
  hfu_hf_user_id :: string
  hfu_username :: string
  hfu_email :: "string option"

type_synonym captcha_verifier = "string \<Rightarrow> exn + CaptchaResult"
type_synonym hf_oauth_client = "string \<Rightarrow> string \<Rightarrow> exn + HFOAuthUser"

definition LEROBOT_JOB_ID_LABEL :: string where
  "LEROBOT_JOB_ID_LABEL = ''lerobot.job_id''"

record ContainerSpec =
  cs_image :: string
  cs_name :: string
  cs_command :: "string list"
  cs_volumes :: "(string \<times> string) list"
  cs_environment :: "(string \<times> string) list"
  cs_labels :: "(string \<times> string) list"
  cs_use_gpu :: bool
  cs_read_only_paths :: "string list"

record 'd docker_client =
  dc_run :: "ContainerSpec \<Rightarrow> 'd \<times> fsys \<Rightarrow> (exn + string) \<times> ('d \<times> fsys)"
  dc_kill :: "string \<Rightarrow> 'd \<Rightarrow> (exn + unit) \<times> 'd"
  dc_is_running :: "'d \<Rightarrow> string \<Rightarrow> exn + bool"
  dc_get_exit_code :: "'d \<Rightarrow> string \<Rightarrow> exn + int option"
  dc_get_logs :: "'d \<Rightarrow> string \<Rightarrow> int \<Rightarrow> exn + string"
  dc_list_running_container_ids :: "'d \<Rightarrow> exn + string list"
  dc_get_label :: "'d \<Rightarrow> string \<Rightarrow> string \<Rightarrow> exn + string option"

subsection \<open>The contract of a job repository\<close>

locale job_store =
  fixes R :: "'j job_repository"
    and jobs_of :: "'j \<Rightarrow> string \<rightharpoonup> Job"
    and wf_jobs :: "'j \<Rightarrow> bool"
  assumes get_job_law: "wf_jobs s \<Longrightarrow> jr_get R s k = Inr (jobs_of s k)"
    and create_job_law: "wf_jobs s \<Longrightarrow> jobs_of (jr_create R j s) = (jobs_of s)(j_id j \<mapsto> j)"
    and create_job_wf: "wf_jobs s \<Longrightarrow> wf_jobs (jr_create R j s)"
    and update_job_law: "wf_jobs s \<Longrightarrow> jobs_of (jr_update R j s) = (jobs_of s)(j_id j \<mapsto> j)"
    and update_job_wf: "wf_jobs s \<Longrightarrow> wf_jobs (jr_update R j s)"
    and list_for_user_law: "wf_jobs s \<Longrightarrow>
      \<exists>js. jr_list_for_user R s u = Inr js \<and> enumerates j_id (jobs_of s) (\<lambda>j. j_user_id j = u) js"
    and list_by_statuses_law: "wf_jobs s \<Longrightarrow>
      \<exists>js. jr_list_by_statuses R s sts = Inr js \<and>
        enumerates j_id (jobs_of s) (\<lambda>j. j_status j \<in> set sts) js \<and> sorted (map j_created_at js)"
    and jobs_keyed: "wf_jobs s \<Longrightarrow> keyed j_id (jobs_of s)"
    and jobs_finite: "wf_jobs s \<Longrightarrow> finite (dom (jobs_of s))"

locale user_store =
  fixes U :: "'u user_repository"
    and users_of :: "'u \<Rightarrow> string \<rightharpoonup> User"
    and wf_users :: "'u \<Rightarrow> bool"
  assumes get_user_law: "wf_users s \<Longrightarrow> ur_get U s k = Inr (users_of s k)"
    and create_user_law: "wf_users s \<Longrightarrow> users_of (ur_create U u s) = (users_of s)(u_id u \<mapsto> u)"
    and create_user_wf: "wf_users s \<Longrightarrow> wf_users (ur_create U u s)"
    and update_user_law: "wf_users s \<Longrightarrow> users_of (ur_update U u s) = (users_of s)(u_id u \<mapsto> u)"
    and update_user_wf: "wf_users s \<Longrightarrow> wf_users (ur_update U u s)"
    and by_email_law: "wf_users s \<Longrightarrow>
      \<exists>r. ur_get_by_email U s e = Inr r \<and>
        (case r of Some u \<Rightarrow> users_of s (u_id u) = Some u \<and> u_email u = Some e
         | None \<Rightarrow> \<forall>k u. users_of s k = Some u \<longrightarrow> u_email u \<noteq> Some e)"
    and by_hf_user_id_law: "wf_users s \<Longrightarrow>
      \<exists>r. ur_get_by_hf_user_id U s h = Inr r \<and>
        (case r of Some u \<Rightarrow> users_of s (u_id u) = Some u \<and> u_hf_user_id u = Some h
         | None \<Rightarrow> \<forall>k u. users_of s k = Some u \<longrightarrow> u_hf_user_id u \<noteq> Some h)"
    and users_keyed: "wf_users s \<Longrightarrow> keyed u_id (users_of s)"

locale object_store =
  fixes S :: "'o object_storage"
    and objects_of :: "'o \<Rightarrow> string \<rightharpoonup> blob"
  assumes exists_law: "os_exists S s p \<longleftrightarrow> objects_of s p \<noteq> None"
    and read_law: "objects_of s p = Some b \<Longrightarrow> os_open_read_stream S s p = Inr b"
    and read_missing_law: "objects_of s p = None \<Longrightarrow> \<exists>e. os_open_read_stream S s p = Inl e"
    and delete_law: "os_delete S p s = (r, s') \<Longrightarrow>
      (case r of Inr _ \<Rightarrow> objects_of s' = (objects_of s)(p := None) | Inl _ \<Rightarrow> objects_of s' = objects_of s)"
    and upload_law: "os_upload_file S p lp fs s = (r, s') \<Longrightarrow>
      (case r of Inr _ \<Rightarrow> \<exists>b. fs_read fs lp = Inr b \<and> objects_of s' = (objects_of s)(p \<mapsto> b)
       | Inl _ \<Rightarrow> objects_of s' = objects_of s)"

text \<open>
  What the worker relies on of its Docker client, seen as the containers that are running, each
  with its labels: a started container is a new one, a kill that returns has stopped its container
  and no other, the listing is exactly the running containers with the service's label, and only a
  container that is not running has an exit code. A call that raises starts and stops nothing.
\<close>

locale container_host =
  fixes D :: "'d docker_client"
    and running :: "'d \<Rightarrow> string \<rightharpoonup> (string \<times> string) list"
  assumes run_law: "dc_run D spec (d, fs) = (r, (d', fs')) \<Longrightarrow>
      (case r of Inr c \<Rightarrow> c \<noteq> [] \<and> running d c = None \<and> running d' = (running d)(c \<mapsto> cs_labels spec)
       | Inl _ \<Rightarrow> running d' = running d)"
    and kill_law: "dc_kill D c d = (q, d') \<Longrightarrow>
      (case q of Inr _ \<Rightarrow> running d' = (running d)(c := None) | Inl _ \<Rightarrow> running d' = running d)"
    and list_law: "dc_list_running_container_ids D d = Inr cs \<Longrightarrow>
      distinct cs \<and> set cs = {c. \<exists>ls. running d c = Some ls \<and> LEROBOT_JOB_ID_LABEL \<in> fst ` set ls}"
    and exit_law: "dc_get_exit_code D d c = Inr (Some n) \<Longrightarrow> running d c = None"

subsection \<open>What every client of a job repository uses\<close>

context job_store begin

text \<open>Writing a new version of a stored job is one step of its evolution.\<close>

lemma write_advances:
  assumes "wf_jobs s" and "jobs_of s (j_id j) = Some j" and "evolves_to j j'"
  shows "jobs_advance (jobs_of s) (jobs_of (jr_update R j' s))"
  using assms by (simp add: update_job_law jobs_advance_write)

lemma listed_by_statuses:
  assumes "wf_jobs s"
  obtains js where "jr_list_by_statuses R s sts = Inr js"
    and "enumerates j_id (jobs_of s) (\<lambda>j. j_status j \<in> set sts) js" and "sorted (map j_created_at js)"
  using list_by_statuses_law [OF assms] by blast

lemma listed_for_user:
  assumes "wf_jobs s"
  obtains js where "jr_list_for_user R s u = Inr js"
    and "enumerates j_id (jobs_of s) (\<lambda>j. j_user_id j = u) js"
  using list_for_user_law [OF assms] by blast

lemma list_by_statuses_mem:
  assumes "wf_jobs s" and "jr_list_by_statuses R s sts = Inr js" and "j \<in> set js"
  shows "jobs_of s (j_id j) = Some j" and "j_status j \<in> set sts"
  using assms by (auto elim!: listed_by_statuses [of s sts] dest: enumeratesD)

lemma list_by_statuses_complete:
  assumes "wf_jobs s" and "jr_list_by_statuses R s sts = Inr js"
    and "jobs_of s k = Some j" and "j_status j \<in> set sts"
  shows "j \<in> set js"
  using assms jobs_keyed [OF assms(1)]
  by (auto elim!: listed_by_statuses [of s sts] intro: enumeratesI_mem)

lemma list_by_statuses_distinct:
  assumes "wf_jobs s" and "jr_list_by_statuses R s sts = Inr js"
  shows "distinct (map j_id js)"
  using assms by (auto elim!: listed_by_statuses [of s sts] dest: enumeratesD)

lemma list_by_statuses_never_raises: "wf_jobs s \<Longrightarrow> jr_list_by_statuses R s sts \<noteq> Inl e"
  by (auto elim: listed_by_statuses [of s sts])

lemma list_by_statuses_empty_iff:
  assumes "wf_jobs s"
  shows "jr_list_by_statuses R s sts = Inr [] \<longleftrightarrow>
    (\<forall>k j. jobs_of s k = Some j \<longrightarrow> j_status j \<notin> set sts)"
proof -
  obtain js where js: "jr_list_by_statuses R s sts = Inr js"
    using assms by (rule listed_by_statuses)
  show ?thesis
  proof (cases js)
    case Nil
    with js have "j_status j \<notin> set sts" if "jobs_of s k = Some j" for k j
      using list_by_statuses_complete [OF assms js that] by auto
    with js Nil show ?thesis by simp
  next
    case (Cons j js')
    with list_by_statuses_mem [OF assms js, of j] show ?thesis using js by auto
  qed
qed

text \<open>The head of a status listing is a job no other listed job is older than.\<close>

lemma list_by_statuses_oldest:
  assumes "wf_jobs s" and "jr_list_by_statuses R s sts = Inr (j # js)"
    and "jobs_of s k = Some i" and "j_status i \<in> set sts"
  shows "j_created_at j \<le> j_created_at i"
proof -
  have "i \<in> set (j # js)"
    using assms by (rule list_by_statuses_complete)
  moreover have "sorted (map j_created_at (j # js))"
    using assms(1,2) by (auto elim!: listed_by_statuses [of s sts])
  ultimately show ?thesis by auto
qed

end

end
