(* ===== verification/Memory_Adapters.thy ===== *)
theory Memory_Adapters
  imports Ports
begin

text \<open>
  \<open>backend/adapters/memory.py\<close>: the in-memory adapters of the ports. A dictionary of copies is a
  dictionary of values here, since records are immutable. The file's repositories interpret the
  contracts \<open>job_store\<close>, \<open>user_store\<close> and \<open>object_store\<close>.
\<close>

subsection \<open>Jobs\<close>

type_synonym mem_jobs = "(string \<times> Job) list"

definition mem_put_job :: "Job \<Rightarrow> mem_jobs \<Rightarrow> mem_jobs" where
  "mem_put_job job jobs = AList.update (j_id job) job jobs"

definition mem_list_for_user :: "mem_jobs \<Rightarrow> string \<Rightarrow> Job list" where
  "mem_list_for_user jobs user_id = filter (\<lambda>j. j_user_id j = user_id) (map snd jobs)"

definition mem_list_by_statuses :: "mem_jobs \<Rightarrow> JobStatus list \<Rightarrow> Job list" where
  "mem_list_by_statuses jobs statuses =
     sort_key j_created_at (filter (\<lambda>j. j_status j \<in> set statuses) (map snd jobs))"

definition memory_job_repository :: "mem_jobs job_repository" where
  "memory_job_repository =
     \<lparr>jr_get = (\<lambda>jobs job_id. Inr (map_of jobs job_id)),
      jr_create = mem_put_job,
      jr_update = mem_put_job,
      jr_list_for_user = (\<lambda>jobs user_id. Inr (mem_list_for_user jobs user_id)),
      jr_list_by_statuses = (\<lambda>jobs statuses. Inr (mem_list_by_statuses jobs statuses))\<rparr>"

definition mem_jobs_ok :: "mem_jobs \<Rightarrow> bool" where
  "mem_jobs_ok jobs \<longleftrightarrow> dict_ok jobs \<and> list_all (\<lambda>(k, j). j_id j = k) jobs"

lemma memory_job_repository_simps [port_simps]:
  "jr_get memory_job_repository = (\<lambda>jobs job_id. Inr (map_of jobs job_id))"
  "jr_create memory_job_repository = mem_put_job"
  "jr_update memory_job_repository = mem_put_job"
  "jr_list_for_user memory_job_repository = (\<lambda>jobs user_id. Inr (mem_list_for_user jobs user_id))"
  "jr_list_by_statuses memory_job_repository = (\<lambda>jobs statuses. Inr (mem_list_by_statuses jobs statuses))"
  by (simp_all add: memory_job_repository_def)

lemma set_AList_update: "(k, v) \<in> set (AList.update a b d) \<Longrightarrow> (k, v) = (a, b) \<or> (k, v) \<in> set d"
  by (induction d) (auto split: if_splits)

lemma mem_put_job_ok: "mem_jobs_ok jobs \<Longrightarrow> mem_jobs_ok (mem_put_job job jobs)"
  by (auto simp: mem_jobs_ok_def mem_put_job_def list_all_iff dest!: set_AList_update)

lemma mem_values_distinct: "mem_jobs_ok jobs \<Longrightarrow> distinct (map j_id (map snd jobs))"
proof -
  assume ok: "mem_jobs_ok jobs"
  then have "map j_id (map snd jobs) = map fst jobs"
    by (auto simp: mem_jobs_ok_def list_all_iff)
  with ok show ?thesis by (simp add: mem_jobs_ok_def dict_ok_def del: map_map)
qed

lemma mem_value_iff: "mem_jobs_ok jobs \<Longrightarrow> j \<in> snd ` set jobs \<longleftrightarrow> map_of jobs (j_id j) = Some j"
  by (force simp: mem_jobs_ok_def dict_lookup_iff list_all_iff)

lemma mem_values_enumerates:
  "mem_jobs_ok jobs \<Longrightarrow> enumerates j_id (map_of jobs) P (filter P (map snd jobs))"
  using mem_values_distinct [of jobs] mem_value_iff [of jobs]
  by (auto simp: enumerates_def intro!: distinct_map_filterI simp del: map_map)

lemma enumerates_sort_key: "enumerates key m P (sort_key f xs) \<longleftrightarrow> enumerates key m P xs"
  by (simp add: enumerates_def)

interpretation memj: job_store memory_job_repository map_of mem_jobs_ok
proof unfold_locales
  fix s u
  assume "mem_jobs_ok s"
  then have "enumerates j_id (map_of s) (\<lambda>j. j_user_id j = u) (mem_list_for_user s u)"
    unfolding mem_list_for_user_def by (rule mem_values_enumerates)
  then show "\<exists>js. jr_list_for_user memory_job_repository s u = Inr js \<and>
      enumerates j_id (map_of s) (\<lambda>j. j_user_id j = u) js"
    by (simp add: port_simps)
next
  fix s sts
  assume "mem_jobs_ok s"
  then have "enumerates j_id (map_of s) (\<lambda>j. j_status j \<in> set sts) (mem_list_by_statuses s sts)"
    unfolding mem_list_by_statuses_def enumerates_sort_key by (rule mem_values_enumerates)
  moreover have "sorted (map j_created_at (mem_list_by_statuses s sts))"
    by (simp add: mem_list_by_statuses_def)
  ultimately show "\<exists>js. jr_list_by_statuses memory_job_repository s sts = Inr js \<and>
      enumerates j_id (map_of s) (\<lambda>j. j_status j \<in> set sts) js \<and> sorted (map j_created_at js)"
    by (simp add: port_simps)
next
  fix s
  assume "mem_jobs_ok s"
  then show "keyed j_id (map_of s)"
    by (auto simp: keyed_def mem_jobs_ok_def list_all_iff dest: map_of_SomeD)
next
  fix s :: mem_jobs
  show "finite (dom (map_of s))" by (rule finite_dom_map_of)
qed (simp_all add: port_simps mem_put_job_ok, simp_all add: mem_put_job_def)

subsection \<open>Users\<close>

type_synonym mem_users = "(string \<times> User) list"

definition mem_put_user :: "User \<Rightarrow> mem_users \<Rightarrow> mem_users" where
  "mem_put_user user users = AList.update (u_id user) user users"

definition mem_get_by_email :: "mem_users \<Rightarrow> string \<Rightarrow> User option" where
  "mem_get_by_email users email = find (\<lambda>u. u_email u = Some email) (map snd users)"

definition mem_get_by_hf_user_id :: "mem_users \<Rightarrow> string \<Rightarrow> User option" where
  "mem_get_by_hf_user_id users hf_user_id = find (\<lambda>u. u_hf_user_id u = Some hf_user_id) (map snd users)"

definition memory_user_repository :: "mem_users user_repository" where
  "memory_user_repository =
     \<lparr>ur_get = (\<lambda>users user_id. Inr (map_of users user_id)),
      ur_get_by_email = (\<lambda>users email. Inr (mem_get_by_email users email)),
      ur_get_by_hf_user_id = (\<lambda>users h. Inr (mem_get_by_hf_user_id users h)),
      ur_create = mem_put_user,
      ur_update = mem_put_user\<rparr>"

definition mem_users_ok :: "mem_users \<Rightarrow> bool" where
  "mem_users_ok users \<longleftrightarrow> dict_ok users \<and> list_all (\<lambda>(k, u). u_id u = k) users"

lemma memory_user_repository_simps [port_simps]:
  "ur_get memory_user_repository = (\<lambda>users user_id. Inr (map_of users user_id))"
  "ur_get_by_email memory_user_repository = (\<lambda>users email. Inr (mem_get_by_email users email))"
  "ur_get_by_hf_user_id memory_user_repository = (\<lambda>users h. Inr (mem_get_by_hf_user_id users h))"
  "ur_create memory_user_repository = mem_put_user"
  "ur_update memory_user_repository = mem_put_user"
  by (simp_all add: memory_user_repository_def)

lemma mem_put_user_ok: "mem_users_ok users \<Longrightarrow> mem_users_ok (mem_put_user user users)"
  by (auto simp: mem_users_ok_def mem_put_user_def list_all_iff dest!: set_AList_update)

lemma mem_user_iff: "mem_users_ok users \<Longrightarrow> u \<in> snd ` set users \<longleftrightarrow> map_of users (u_id u) = Some u"
  by (force simp: mem_users_ok_def dict_lookup_iff list_all_iff)

lemma mem_find_user:
  assumes "mem_users_ok users"
  shows "case find P (map snd users) of
      Some u \<Rightarrow> map_of users (u_id u) = Some u \<and> P u
    | None \<Rightarrow> \<forall>k u. map_of users k = Some u \<longrightarrow> \<not> P u"
proof (cases "find P (map snd users)")
  case None
  then have "\<forall>u \<in> set (map snd users). \<not> P u" by (simp add: find_None_iff)
  with None show ?thesis by (force dest: map_of_SomeD)
next
  case (Some u)
  then have "u \<in> set (map snd users)" and "P u"
    by (auto simp: find_Some_iff)
  with Some mem_user_iff [OF assms, of u] show ?thesis by simp
qed

interpretation memu: user_store memory_user_repository map_of mem_users_ok
proof unfold_locales
  fix s e
  assume "mem_users_ok s"
  then show "\<exists>r. ur_get_by_email memory_user_repository s e = Inr r \<and>
      (case r of Some u \<Rightarrow> map_of s (u_id u) = Some u \<and> u_email u = Some e
       | None \<Rightarrow> \<forall>k u. map_of s k = Some u \<longrightarrow> u_email u \<noteq> Some e)"
    using mem_find_user [of s "\<lambda>u. u_email u = Some e"]
    by (simp add: port_simps mem_get_by_email_def)
next
  fix s h
  assume "mem_users_ok s"
  then show "\<exists>r. ur_get_by_hf_user_id memory_user_repository s h = Inr r \<and>
      (case r of Some u \<Rightarrow> map_of s (u_id u) = Some u \<and> u_hf_user_id u = Some h
       | None \<Rightarrow> \<forall>k u. map_of s k = Some u \<longrightarrow> u_hf_user_id u \<noteq> Some h)"
    using mem_find_user [of s "\<lambda>u. u_hf_user_id u = Some h"]
    by (simp add: port_simps mem_get_by_hf_user_id_def)
next
  fix s
  assume "mem_users_ok s"
  then show "keyed u_id (map_of s)"
    by (auto simp: keyed_def mem_users_ok_def list_all_iff dest: map_of_SomeD)
qed (simp_all add: port_simps mem_put_user_ok, simp_all add: mem_put_user_def)

subsection \<open>Objects\<close>

type_synonym mem_objects = "(string \<times> blob) list"

definition rstrip_slash :: "string \<Rightarrow> string" where
  "rstrip_slash s = rev (dropWhile (\<lambda>c. c = CHR ''/'') (rev s))"

definition mem_url :: "string \<Rightarrow> string \<Rightarrow> string" where
  "mem_url base_url object_path = rstrip_slash base_url @ ''/dev-storage/'' @ object_path"

definition put_bytes :: "string \<Rightarrow> blob \<Rightarrow> mem_objects \<Rightarrow> mem_objects" where
  "put_bytes object_path data objects = AList.update object_path data objects"

definition mem_open_read_stream :: "mem_objects \<Rightarrow> string \<Rightarrow> exn + blob" where
  "mem_open_read_stream objects object_path =
     (case map_of objects object_path of
        None \<Rightarrow> Inl (FileNotFoundError object_path)
      | Some data \<Rightarrow> Inr data)"

definition mem_upload_file ::
    "string \<Rightarrow> path \<Rightarrow> fsys \<Rightarrow> mem_objects \<Rightarrow> (exn + unit) \<times> mem_objects" where
  "mem_upload_file object_path local_path fs objects =
     (case fs_read fs local_path of
        Inl e \<Rightarrow> (Inl e, objects)
      | Inr data \<Rightarrow> (Inr (), AList.update object_path data objects))"

definition memory_object_storage :: "string \<Rightarrow> mem_objects object_storage" where
  "memory_object_storage base_url =
     \<lparr>os_generate_upload_url = (\<lambda>object_path content_type expires. mem_url base_url object_path),
      os_generate_download_url = (\<lambda>object_path expires. mem_url base_url object_path),
      os_open_read_stream = mem_open_read_stream,
      os_exists = (\<lambda>objects object_path. object_path \<in> fst ` set objects),
      os_delete = (\<lambda>object_path objects. (Inr (), AList.delete object_path objects)),
      os_upload_file = mem_upload_file\<rparr>"

lemma memory_object_storage_simps [port_simps]:
  "os_generate_upload_url (memory_object_storage b) = (\<lambda>p c e. mem_url b p)"
  "os_generate_download_url (memory_object_storage b) = (\<lambda>p e. mem_url b p)"
  "os_open_read_stream (memory_object_storage b) = mem_open_read_stream"
  "os_exists (memory_object_storage b) = (\<lambda>objects p. p \<in> fst ` set objects)"
  "os_delete (memory_object_storage b) = (\<lambda>p objects. (Inr (), AList.delete p objects))"
  "os_upload_file (memory_object_storage b) = mem_upload_file"
  by (simp_all add: memory_object_storage_def)

interpretation memo: object_store "memory_object_storage b" map_of for b
proof unfold_locales
  fix s p
  show "os_exists (memory_object_storage b) s p \<longleftrightarrow> map_of s p \<noteq> None"
    by (simp add: port_simps map_of_eq_None_iff)
  show "os_open_read_stream (memory_object_storage b) s p = Inr x" if "map_of s p = Some x" for x
    using that by (simp add: port_simps mem_open_read_stream_def)
  show "\<exists>e. os_open_read_stream (memory_object_storage b) s p = Inl e" if "map_of s p = None"
    using that by (simp add: port_simps mem_open_read_stream_def)
  show "case r of Inr _ \<Rightarrow> map_of s' = (map_of s)(p := None) | Inl _ \<Rightarrow> map_of s' = map_of s"
    if "os_delete (memory_object_storage b) p s = (r, s')" for r s'
    using that by (auto simp: port_simps)
next
  fix p lp fs s r s'
  assume "os_upload_file (memory_object_storage b) p lp fs s = (r, s')"
  then show "case r of Inr _ \<Rightarrow> \<exists>x. fs_read fs lp = Inr x \<and> map_of s' = (map_of s)(p \<mapsto> x)
      | Inl _ \<Rightarrow> map_of s' = map_of s"
    by (auto simp: port_simps mem_upload_file_def split: sum.splits)
qed

subsection \<open>Hugging Face Hub, captcha and OAuth\<close>

text \<open>A repository's files carry their length beside what the bytes decode to.\<close>

type_synonym mem_repos = "(string \<times> (string \<times> (int \<times> blob)) list) list"

definition add_repo :: "string \<Rightarrow> (string \<times> (int \<times> blob)) list \<Rightarrow> mem_repos \<Rightarrow> mem_repos" where
  "add_repo repo_id files repos = AList.update repo_id files repos"

definition mem_list_repo_files :: "mem_repos \<Rightarrow> string \<Rightarrow> exn + string list" where
  "mem_list_repo_files repos repo_id =
     (case map_of repos repo_id of
        None \<Rightarrow> Inl (FileNotFoundError repo_id)
      | Some files \<Rightarrow> Inr (map fst files))"

definition mem_get_repo_file_bytes :: "mem_repos \<Rightarrow> string \<Rightarrow> string \<Rightarrow> exn + blob" where
  "mem_get_repo_file_bytes repos repo_id path_in_repo =
     (case map_of repos repo_id of
        None \<Rightarrow> Inl (FileNotFoundError (repo_id @ '':'' @ path_in_repo))
      | Some files \<Rightarrow>
          (case map_of files path_in_repo of
             None \<Rightarrow> Inl (FileNotFoundError (repo_id @ '':'' @ path_in_repo))
           | Some (_, data) \<Rightarrow> Inr data))"

fun write_repo_files ::
    "path \<Rightarrow> (string \<times> (int \<times> blob)) list \<Rightarrow> fsys \<Rightarrow> (fsys, unit) outcome" where
  "write_repo_files target_dir [] fs = (Inr (), fs)"
| "write_repo_files target_dir ((path_in_repo, (len, content)) # files) fs =
     (let file_path = target_dir @ path_of_string path_in_repo
      in then_do (fs_makedirs (butlast file_path) fs) (\<lambda>_ fs.
         then_do (fs_write_file file_path len content fs) (\<lambda>_ fs.
           write_repo_files target_dir files fs)))"

definition mem_download_dataset :: "mem_repos \<Rightarrow> string \<Rightarrow> path \<Rightarrow> fsys \<Rightarrow> (fsys, unit) outcome" where
  "mem_download_dataset repos repo_id target_dir fs =
     (case map_of repos repo_id of
        None \<Rightarrow> (Inl (FileNotFoundError repo_id), fs)
      | Some files \<Rightarrow> write_repo_files target_dir files fs)"

definition memory_hf_hub_client :: "mem_repos \<Rightarrow> hf_hub_client" where
  "memory_hf_hub_client repos =
     \<lparr>hh_repo_exists = (\<lambda>repo_id. Inr (repo_id \<in> fst ` set repos)),
      hh_list_repo_files = mem_list_repo_files repos,
      hh_get_repo_file_bytes = mem_get_repo_file_bytes repos,
      hh_download_dataset = mem_download_dataset repos\<rparr>"

definition memory_captcha_verifier :: captcha_verifier where
  "memory_captcha_verifier token = Inr \<lparr>cap_success = True, cap_score = Fin 1\<rparr>"

definition memory_hf_oauth_client :: hf_oauth_client where
  "memory_hf_oauth_client code redirect_uri =
     Inl (ValueError ''HF OAuth is not available in local dev mode'')"

end
