(* ===== verification/Quota.thy ===== *)
theory Quota
  imports Models
begin

text \<open>
  \<open>common/domain/quota.py\<close>: the concurrent job limit and the daily quota, which is an implicit
  counter: it is read as 0 on any day other than the stored \<open>quota_reset_date\<close>.
\<close>

definition MAX_CONCURRENT_JOBS :: int where "MAX_CONCURRENT_JOBS = 1"
definition MAX_DAILY_JOBS :: int where "MAX_DAILY_JOBS = 10"

fun count_active :: "Job list \<Rightarrow> int" where
  "count_active [] = 0"
| "count_active (job # jobs) =
     (if j_status job \<in> set ACTIVE_STATUSES then 1 + count_active jobs else count_active jobs)"

definition has_free_concurrent_slot :: "Job list \<Rightarrow> int \<Rightarrow> bool" where
  "has_free_concurrent_slot jobs max_concurrent \<longleftrightarrow> count_active jobs < max_concurrent"

definition effective_daily_used :: "User \<Rightarrow> date \<Rightarrow> int" where
  "effective_daily_used user today =
     (if u_quota_reset_date user \<noteq> Some today then 0 else u_daily_quota_used user)"

definition has_daily_quota_remaining :: "User \<Rightarrow> date \<Rightarrow> int \<Rightarrow> bool" where
  "has_daily_quota_remaining user today max_daily \<longleftrightarrow> effective_daily_used user today < max_daily"

record QuotaCheckResult =
  q_allowed :: bool
  q_reason :: "string option"

definition can_create_job :: "User \<Rightarrow> Job list \<Rightarrow> date \<Rightarrow> QuotaCheckResult" where
  "can_create_job user active_jobs today =
     (if \<not> has_free_concurrent_slot active_jobs MAX_CONCURRENT_JOBS
      then \<lparr>q_allowed = False, q_reason = Some ''You already have a job queued or in progress.''\<rparr>
      else if \<not> has_daily_quota_remaining user today MAX_DAILY_JOBS
      then \<lparr>q_allowed = False, q_reason = Some ''Daily job quota exceeded.''\<rparr>
      else \<lparr>q_allowed = True, q_reason = None\<rparr>)"

definition record_job_started :: "User \<Rightarrow> date \<Rightarrow> User" where
  "record_job_started user today =
     (let used = effective_daily_used user today
      in user\<lparr>u_daily_quota_used := used + 1, u_quota_reset_date := Some today\<rparr>)"

subsection \<open>Counting\<close>

lemma count_active_filter: "count_active jobs = int (length (filter (\<lambda>j. j_status j \<in> set ACTIVE_STATUSES) jobs))"
  by (induction jobs) auto

lemma count_active_nonneg: "0 \<le> count_active jobs"
  by (simp add: count_active_filter)

lemma free_slot_iff:
  "has_free_concurrent_slot jobs MAX_CONCURRENT_JOBS \<longleftrightarrow>
     (\<forall>j \<in> set jobs. j_status j \<notin> set ACTIVE_STATUSES)"
  by (simp add: has_free_concurrent_slot_def MAX_CONCURRENT_JOBS_def count_active_filter
      filter_empty_conv)

lemma can_create_job_allowed_iff:
  "q_allowed (can_create_job user jobs today) \<longleftrightarrow>
     (\<forall>j \<in> set jobs. j_status j \<notin> set ACTIVE_STATUSES) \<and> effective_daily_used user today < MAX_DAILY_JOBS"
  by (auto simp: can_create_job_def free_slot_iff has_daily_quota_remaining_def)

lemma can_create_job_reason: "\<not> q_allowed (can_create_job user jobs today) \<Longrightarrow>
    \<exists>r. q_reason (can_create_job user jobs today) = Some r"
  by (auto simp: can_create_job_def split: if_splits)

subsection \<open>The daily counter\<close>

lemma record_job_started_fields [simp]:
  "u_id (record_job_started u d) = u_id u"
  "u_email (record_job_started u d) = u_email u"
  "u_hf_user_id (record_job_started u d) = u_hf_user_id u"
  "u_password_hash (record_job_started u d) = u_password_hash u"
  "u_auth_provider (record_job_started u d) = u_auth_provider u"
  "u_quota_reset_date (record_job_started u d) = Some d"
  "u_daily_quota_used (record_job_started u d) = effective_daily_used u d + 1"
  by (simp_all add: record_job_started_def Let_def)

lemma effective_after_start [simp]:
  "effective_daily_used (record_job_started u d) d' =
     (if d' = d then effective_daily_used u d + 1 else 0)"
  by (simp add: effective_daily_used_def)

subsection \<open>Admission\<close>

text \<open>
  A new job is admitted exactly when none of the listed jobs is active and fewer than ten jobs
  were charged to the user on that day; charging a start on day \<open>d\<close> makes the counter of day \<open>d\<close>
  one higher and reads as zero on every other day, so on a day that begins without charges ten
  starts are admitted and the eleventh is refused.
\<close>

theorem quota_admission:
  "(q_allowed (can_create_job user jobs today) \<longleftrightarrow>
      (\<forall>j \<in> set jobs. j_status j \<notin> set ACTIVE_STATUSES) \<and> effective_daily_used user today < 10) \<and>
   effective_daily_used (((\<lambda>u. record_job_started u today) ^^ n) user) today =
      effective_daily_used user today + int n \<and>
   (today \<noteq> d \<longrightarrow> n > 0 \<longrightarrow>
      effective_daily_used (((\<lambda>u. record_job_started u today) ^^ n) user) d = 0)"
proof -
  have count: "effective_daily_used (((\<lambda>u. record_job_started u today) ^^ n) user) today =
      effective_daily_used user today + int n" for n
    by (induction n) auto
  have "effective_daily_used (((\<lambda>u. record_job_started u today) ^^ n) user) d = 0"
    if "today \<noteq> d" "n > 0"
    using that by (cases n) auto
  with count show ?thesis
    by (auto simp: can_create_job_allowed_iff MAX_DAILY_JOBS_def)
qed

theorem quota_admission_witness:
  "q_allowed (can_create_job (demo_user ''u1'') [demo_job ''j0'' ''u1'' FAILED] 3) \<and>
   effective_daily_used (((\<lambda>u. record_job_started u 3) ^^ 10) (demo_user ''u1'')) 3 = 10 \<and>
   effective_daily_used (((\<lambda>u. record_job_started u 3) ^^ 10) (demo_user ''u1'')) 4 = 0"
  using quota_admission [of "demo_user ''u1''" "[demo_job ''j0'' ''u1'' FAILED]" 3 10 4]
  by (simp add: demo_job_def demo_user_def ACTIVE_STATUSES_def effective_daily_used_def)

end
