(* ===== verification/Dataset_Validation.thy ===== *)
theory Dataset_Validation
  imports Content
begin

text \<open>
  \<open>common/domain/dataset_validation.py\<close> and \<open>common/domain/limits.py\<close>: the structure test of a
  LeRobot v3 dataset, the decompression bomb caps and the training step bounds.
\<close>

record ZipEntryMeta =
  ze_name :: string
  ze_uncompressed_size :: int

record ValidationLimits =
  max_total_uncompressed_bytes :: int
  max_single_file_bytes :: int
  max_file_count :: int

definition DEFAULT_LIMITS :: ValidationLimits where
  "DEFAULT_LIMITS =
     \<lparr>max_total_uncompressed_bytes = 2 * 1024 ^ 3,
      max_single_file_bytes = 512 * 1024 ^ 2,
      max_file_count = 200000\<rparr>"

definition REQUIRED_META_FILE :: string where "REQUIRED_META_FILE = ''meta/info.json''"
definition REQUIRED_DIR_PREFIX :: string where "REQUIRED_DIR_PREFIX = ''data/''"

record ValidationResult =
  vr_ok :: bool
  vr_error :: "string option"

definition success :: ValidationResult where
  "success = \<lparr>vr_ok = True, vr_error = None\<rparr>"

definition failure :: "string \<Rightarrow> ValidationResult" where
  "failure message = \<lparr>vr_ok = False, vr_error = Some message\<rparr>"

definition check_lerobot_structure :: "string list \<Rightarrow> ValidationResult" where
  "check_lerobot_structure entry_names =
     (if REQUIRED_META_FILE \<notin> set entry_names
      then failure (''Missing required file: '' @ REQUIRED_META_FILE)
      else if \<not> list_ex (starts_with REQUIRED_DIR_PREFIX) entry_names
      then failure (''Missing required directory: '' @ REQUIRED_DIR_PREFIX)
      else success)"

fun check_sizes :: "ValidationLimits \<Rightarrow> int \<Rightarrow> ZipEntryMeta list \<Rightarrow> ValidationResult" where
  "check_sizes limits total_size [] = success"
| "check_sizes limits total_size (entry # entries) =
     (if ze_uncompressed_size entry > max_single_file_bytes limits
      then failure (''File '' @ quoted (ze_name entry) @ '' exceeds the per-file size limit ('' @
             str_int (ze_uncompressed_size entry) @ '' > '' @
             str_int (max_single_file_bytes limits) @ '' bytes)'')
      else
        (let total' = total_size + ze_uncompressed_size entry
         in if total' > max_total_uncompressed_bytes limits
            then failure (''Uncompressed archive exceeds the total size limit ('' @
                   str_int total' @ '' > '' @
                   str_int (max_total_uncompressed_bytes limits) @ '' bytes)'')
            else check_sizes limits total' entries))"

definition check_decompression_bomb :: "ZipEntryMeta list \<Rightarrow> ValidationLimits \<Rightarrow> ValidationResult" where
  "check_decompression_bomb entries limits =
     (if int (length entries) > max_file_count limits
      then failure (''Archive contains too many files ('' @ str_int (int (length entries)) @
             '' > '' @ str_int (max_file_count limits) @ '')'')
      else check_sizes limits 0 entries)"

definition MAX_TRAINING_STEPS :: int where "MAX_TRAINING_STEPS = 20000"
definition MIN_TRAINING_STEPS :: int where "MIN_TRAINING_STEPS = 1"

definition validate_training_steps :: "int \<Rightarrow> ValidationResult" where
  "validate_training_steps steps =
     (if steps < MIN_TRAINING_STEPS then failure ''Training steps must be a positive integer''
      else if steps > MAX_TRAINING_STEPS
      then failure (''Training steps exceeds the maximum of '' @ str_int MAX_TRAINING_STEPS)
      else success)"

subsection \<open>Results\<close>

lemma result_simps [simp]:
  "vr_ok success" "vr_error success = None"
  "\<not> vr_ok (failure m)" "vr_error (failure m) = Some m"
  by (simp_all add: success_def failure_def)

lemma success_neq_failure [simp]: "success \<noteq> failure m" "failure m \<noteq> success"
  by (simp_all add: success_def failure_def)

lemma structure_ok_iff:
  "vr_ok (check_lerobot_structure names) \<longleftrightarrow>
     ''meta/info.json'' \<in> set names \<and> (\<exists>rest. ''data/'' @ rest \<in> set names)"
  by (auto simp: check_lerobot_structure_def REQUIRED_META_FILE_def REQUIRED_DIR_PREFIX_def
      list_ex_iff starts_with_iff)

lemma steps_ok_iff: "vr_ok (validate_training_steps n) \<longleftrightarrow> 1 \<le> n \<and> n \<le> 20000"
  by (auto simp: validate_training_steps_def MIN_TRAINING_STEPS_def MAX_TRAINING_STEPS_def)

subsection \<open>The decompression bomb check\<close>

abbreviation total_size :: "ZipEntryMeta list \<Rightarrow> int" where
  "total_size es \<equiv> sum_list (map ze_uncompressed_size es)"

definition within_limits :: "ValidationLimits \<Rightarrow> ZipEntryMeta list \<Rightarrow> bool" where
  "within_limits limits es \<longleftrightarrow>
     int (length es) \<le> max_file_count limits \<and>
     (\<forall>e \<in> set es. ze_uncompressed_size e \<le> max_single_file_bytes limits) \<and>
     total_size es \<le> max_total_uncompressed_bytes limits"

lemma check_sizes_ok_iff:
  assumes "\<forall>e \<in> set es. 0 \<le> ze_uncompressed_size e"
  shows "vr_ok (check_sizes limits t es) \<longleftrightarrow>
     (\<forall>e \<in> set es. ze_uncompressed_size e \<le> max_single_file_bytes limits) \<and>
     (es = [] \<or> t + total_size es \<le> max_total_uncompressed_bytes limits)"
  using assms
proof (induction limits t es rule: check_sizes.induct)
  case (2 limits t e es)
  have nonneg: "0 \<le> total_size es"
    using "2.prems" by (intro sum_list_nonneg) auto
  show ?case
  proof (cases "ze_uncompressed_size e > max_single_file_bytes limits \<or>
      t + ze_uncompressed_size e > max_total_uncompressed_bytes limits")
    case True
    with nonneg show ?thesis by (auto simp: Let_def)
  next
    case False
    with 2 show ?thesis by (auto simp: Let_def add.assoc)
  qed
qed simp

text \<open>
  For the sizes a zip directory can hold (they are unsigned), the early exits of the loop
  decide exactly the three caps.
\<close>

lemma bomb_ok_iff:
  assumes "\<forall>e \<in> set es. 0 \<le> ze_uncompressed_size e" and "0 \<le> max_total_uncompressed_bytes limits"
  shows "vr_ok (check_decompression_bomb es limits) \<longleftrightarrow> within_limits limits es"
  using assms by (auto simp: check_decompression_bomb_def within_limits_def check_sizes_ok_iff)

subsection \<open>Properties\<close>

text \<open>
  C17: For the unsigned sizes of a zip directory, the loop with its early exits accepts an archive
  exactly when the number of entries, every single size and the total size are within the limits.
\<close>

theorem bomb_check_exact:
  assumes "\<forall>e \<in> set es. 0 \<le> ze_uncompressed_size e" and "0 \<le> max_total_uncompressed_bytes limits"
  shows "vr_ok (check_decompression_bomb es limits) \<longleftrightarrow>
    int (length es) \<le> max_file_count limits \<and>
    (\<forall>e \<in> set es. ze_uncompressed_size e \<le> max_single_file_bytes limits) \<and>
    sum_list (map ze_uncompressed_size es) \<le> max_total_uncompressed_bytes limits"
  using bomb_ok_iff [OF assms] by (simp add: within_limits_def)

theorem bomb_check_exact_witness:
  "\<not> vr_ok (check_decompression_bomb (replicate 5 \<lparr>ze_name = ''data/x'', ze_uncompressed_size = 512 * 1024 ^ 2\<rparr>)
      DEFAULT_LIMITS) \<and>
   vr_ok (check_decompression_bomb (replicate 4 \<lparr>ze_name = ''data/x'', ze_uncompressed_size = 512 * 1024 ^ 2\<rparr>)
      DEFAULT_LIMITS)"
  using bomb_check_exact [of "replicate 5 \<lparr>ze_name = ''data/x'', ze_uncompressed_size = 512 * 1024 ^ 2\<rparr>" DEFAULT_LIMITS]
    bomb_check_exact [of "replicate 4 \<lparr>ze_name = ''data/x'', ze_uncompressed_size = 512 * 1024 ^ 2\<rparr>" DEFAULT_LIMITS]
  by (simp add: DEFAULT_LIMITS_def sum_list_replicate)

end
