(* ===== verification/Job_Service.thy ===== *)
theory Job_Service
  imports Memory_Adapters Quota Dataset_Validation
begin

text \<open>
  \<open>backend/services/job_service.py\<close>: job creation under the quota, the polled list of jobs with
  queue positions, cancellation requests and download links. The repositories are the records of
  \<^theory_text>\<open>Ports\<close>; \<open>now n\<close> is the value of the method's \<open>n\<close>-th reading of the clock and \<open>new_id\<close>
  the UUID it draws. A method that writes returns its result and the new job repository state.
\<close>

definition DOWNLOAD_URL_EXPIRES_IN_SECONDS :: int where
  "DOWNLOAD_URL_EXPIRES_IN_SECONDS = 7 * 24 * 60 * 60"

fun DISPLAY_STATUS :: "JobStatus \<Rightarrow> string" where
  "DISPLAY_STATUS QUEUED = ''queued''"
| "DISPLAY_STATUS INITIALIZING = ''running''"
| "DISPLAY_STATUS TRAINING = ''running''"
| "DISPLAY_STATUS COMPLETED = ''completed''"
| "DISPLAY_STATUS FAILED = ''failed''"
| "DISPLAY_STATUS CANCELLED = ''cancelled''"

record JobView =
  jv_job :: Job
  jv_display_status :: string
  jv_queue_position :: "int option"

text \<open>\<open>str(x)\<close> of an optional message.\<close>

definition message_text :: "string option \<Rightarrow> string" where
  "message_text m = (case m of Some s \<Rightarrow> s | None \<Rightarrow> ''None'')"

definition new_job ::
    "string \<Rightarrow> string \<Rightarrow> PolicyType \<Rightarrow> SourceType \<Rightarrow> string \<Rightarrow> int \<Rightarrow> datetime \<Rightarrow> Job" where
  "new_job new_id user_id policy source_type source_ref training_steps now =
     \<lparr>j_id = new_id, j_user_id = user_id, j_policy = policy, j_source_type = source_type,
      j_source_ref = source_ref, j_training_steps = training_steps, j_status = QUEUED,
      j_container_id = None, j_heartbeat_at = None, j_progress = None,
      j_cancel_requested = False, j_checkpoint_gcs_path = None, j_error_message = None,
      j_created_at = now, j_updated_at = now\<rparr>"

definition JobService_create_job ::
    "'j job_repository \<Rightarrow> 'u user_repository \<Rightarrow> (nat \<Rightarrow> datetime) \<Rightarrow> string \<Rightarrow> 'u \<Rightarrow>
     string \<Rightarrow> PolicyType \<Rightarrow> SourceType \<Rightarrow> string \<Rightarrow> int \<Rightarrow> 'j \<Rightarrow> ('j, Job) outcome" where
  "JobService_create_job R U now new_id users user_id policy source_type source_ref training_steps jobs =
     (let steps_result = validate_training_steps training_steps
      in if \<not> vr_ok steps_result
         then (Inl (InvalidTrainingStepsError (message_text (vr_error steps_result))), jobs)
         else
           (case ur_get U users user_id of
              Inl e \<Rightarrow> (Inl e, jobs)
            | Inr None \<Rightarrow> (Inl (UserNotFoundError user_id), jobs)
            | Inr (Some user) \<Rightarrow>
                (case jr_list_for_user R jobs user_id of
                   Inl e \<Rightarrow> (Inl e, jobs)
                 | Inr active_jobs \<Rightarrow>
                     (let quota_result = can_create_job user active_jobs (date_of (now 0))
                      in if \<not> q_allowed quota_result
                         then (Inl (QuotaExceededError (message_text (q_reason quota_result))), jobs)
                         else
                           (let job = new_job new_id user_id policy source_type source_ref
                                        training_steps (now 1)
                            in (Inr job, jr_create R job jobs))))))"

definition JobService_get_job :: "'j job_repository \<Rightarrow> 'j \<Rightarrow> string \<Rightarrow> exn + Job" where
  "JobService_get_job R jobs job_id =
     and_then (jr_get R jobs job_id) (\<lambda>job.
       case job of None \<Rightarrow> Inl (JobNotFoundError job_id) | Some j \<Rightarrow> Inr j)"

text \<open>\<open>xs.index(x)\<close>\<close>

fun index_of :: "'a \<Rightarrow> 'a list \<Rightarrow> nat option" where
  "index_of x [] = None"
| "index_of x (y # ys) = (if x = y then Some 0 else map_option Suc (index_of x ys))"

definition job_view :: "string list \<Rightarrow> Job \<Rightarrow> exn + JobView" where
  "job_view queued_ids_in_order job =
     and_then
       (if j_status job = QUEUED
        then (case index_of (j_id job) queued_ids_in_order of
                Some i \<Rightarrow> Inr (Some (int i + 1))
              | None \<Rightarrow> Inl (ValueError (j_id job)))
        else Inr None)
       (\<lambda>queue_position.
          Inr \<lparr>jv_job = job, jv_display_status = DISPLAY_STATUS (j_status job),
               jv_queue_position = queue_position\<rparr>)"

definition JobService_list_jobs_for_user ::
    "'j job_repository \<Rightarrow> 'j \<Rightarrow> string \<Rightarrow> exn + JobView list" where
  "JobService_list_jobs_for_user R jobs user_id =
     and_then (jr_list_for_user R jobs user_id) (\<lambda>mine.
     and_then (jr_list_by_statuses R jobs [QUEUED]) (\<lambda>queued.
       collect (map (job_view (map j_id queued)) mine)))"

definition JobService_request_cancel ::
    "'j job_repository \<Rightarrow> datetime \<Rightarrow> string \<Rightarrow> string \<Rightarrow> 'j \<Rightarrow> ('j, Job) outcome" where
  "JobService_request_cancel R now user_id job_id jobs =
     (case JobService_get_job R jobs job_id of
        Inl e \<Rightarrow> (Inl e, jobs)
      | Inr job \<Rightarrow>
          (if j_user_id job \<noteq> user_id then (Inl (NotJobOwnerError job_id), jobs)
           else
             (case request_cancel job now of
                Inl e \<Rightarrow> (Inl e, jobs)
              | Inr updated \<Rightarrow> (Inr updated, jr_update R updated jobs))))"

definition JobService_get_download_url ::
    "'j job_repository \<Rightarrow> 'o object_storage \<Rightarrow> 'j \<Rightarrow> string \<Rightarrow> string \<Rightarrow> exn + string" where
  "JobService_get_download_url R S jobs user_id job_id =
     and_then (JobService_get_job R jobs job_id) (\<lambda>job.
       if j_user_id job \<noteq> user_id then Inl (NotJobOwnerError job_id)
       else if j_status job \<noteq> COMPLETED \<or> \<not> truthy (j_checkpoint_gcs_path job)
       then Inl (DownloadNotAvailableError job_id)
       else Inr (os_generate_download_url S (the (j_checkpoint_gcs_path job))
                   DOWNLOAD_URL_EXPIRES_IN_SECONDS))"

subsection \<open>Positions in a list\<close>

lemma index_of_None_iff: "index_of x xs = None \<longleftrightarrow> x \<notin> set xs"
  by (induction xs) auto

lemma index_of_SomeD: "index_of x xs = Some i \<Longrightarrow> i < length xs \<and> xs ! i = x \<and> x \<notin> set (take i xs)"
proof (induction xs arbitrary: i)
  case (Cons y ys)
  then show ?case by (cases "x = y") auto
qed simp

lemma index_of_distinct: "distinct xs \<Longrightarrow> i < length xs \<Longrightarrow> index_of (xs ! i) xs = Some i"
proof (induction xs arbitrary: i)
  case (Cons y ys)
  then show ?case by (cases i) auto
qed simp

lemma index_of_key:
  "distinct (map f xs) \<Longrightarrow> x \<in> set xs \<Longrightarrow> index_of (f x) (map f xs) = index_of x xs"
proof (induction xs)
  case (Cons y ys)
  then show ?case by (cases "x = y") (auto simp: image_iff)
qed simp

lemma new_job_fields [simp]:
  "j_id (new_job i u p s r n t) = i" "j_user_id (new_job i u p s r n t) = u"
  "j_status (new_job i u p s r n t) = QUEUED" "j_created_at (new_job i u p s r n t) = t"
  "j_heartbeat_at (new_job i u p s r n t) = None" "j_container_id (new_job i u p s r n t) = None"
  "j_cancel_requested (new_job i u p s r n t) = False"
  "j_checkpoint_gcs_path (new_job i u p s r n t) = None"
  "j_error_message (new_job i u p s r n t) = None"
  "j_training_steps (new_job i u p s r n t) = n"
  "j_source_type (new_job i u p s r n t) = s" "j_source_ref (new_job i u p s r n t) = r"
  "j_policy (new_job i u p s r n t) = p" "j_progress (new_job i u p s r n t) = None"
  by (simp_all add: new_job_def)

subsection \<open>The service over any job store\<close>

definition has_active_job :: "(string \<rightharpoonup> Job) \<Rightarrow> string \<Rightarrow> bool" where
  "has_active_job m u \<longleftrightarrow>
     (\<exists>k j. m k = Some j \<and> j_user_id j = u \<and> j_status j \<in> set ACTIVE_STATUSES)"

context job_store begin

lemma get_job_spec:
  "wf_jobs s \<Longrightarrow> JobService_get_job R s k =
     (case jobs_of s k of None \<Rightarrow> Inl (JobNotFoundError k) | Some j \<Rightarrow> Inr j)"
  by (simp add: JobService_get_job_def get_job_law)

text \<open>The quota check sees exactly the owner's active jobs.\<close>

lemma create_job_spec:
  assumes wf: "wf_jobs s" and user: "ur_get U users u = Inr (Some usr)"
  shows "JobService_create_job R U now i users u p st ref n s =
    (if \<not> (1 \<le> n \<and> n \<le> 20000)
     then (Inl (InvalidTrainingStepsError (message_text (vr_error (validate_training_steps n)))), s)
     else if has_active_job (jobs_of s) u
     then (Inl (QuotaExceededError ''You already have a job queued or in progress.''), s)
     else if effective_daily_used usr (date_of (now 0)) \<ge> MAX_DAILY_JOBS
     then (Inl (QuotaExceededError ''Daily job quota exceeded.''), s)
     else (Inr (new_job i u p st ref n (now 1)), jr_create R (new_job i u p st ref n (now 1)) s))"
proof -
  obtain js where js: "jr_list_for_user R s u = Inr js"
    and en: "enumerates j_id (jobs_of s) (\<lambda>j. j_user_id j = u) js"
    using wf by (rule listed_for_user)
  have "(\<forall>j \<in> set js. j_status j \<notin> set ACTIVE_STATUSES) \<longleftrightarrow> \<not> has_active_job (jobs_of s) u"
    using enumeratesD(2,3) [OF en] enumeratesI_mem [OF en jobs_keyed [OF wf]]
    unfolding has_active_job_def by blast
  then have free: "has_free_concurrent_slot js MAX_CONCURRENT_JOBS \<longleftrightarrow> \<not> has_active_job (jobs_of s) u"
    by (simp add: free_slot_iff)
  show ?thesis
    using user js free
    by (auto simp: JobService_create_job_def Let_def steps_ok_iff can_create_job_def message_text_def
        has_daily_quota_remaining_def)
qed

lemma create_job_wf_result:
  assumes "wf_jobs s"
  shows "wf_jobs (snd (JobService_create_job R U now i users u p st ref n s))"
  using assms create_job_wf
  by (auto simp: JobService_create_job_def Let_def split: sum.splits option.splits)

lemma create_job_evolves:
  assumes "wf_jobs s" and "jobs_of s i = None"
  shows "jobs_evolve (jobs_of s) (jobs_of (snd (JobService_create_job R U now i users u p st ref n s)))"
  using assms create_job_law
  by (auto simp: JobService_create_job_def Let_def jobs_evolve_def split: sum.splits option.splits)

lemma request_cancel_spec:
  assumes "wf_jobs s"
  shows "JobService_request_cancel R now u k s =
    (case jobs_of s k of
       None \<Rightarrow> (Inl (JobNotFoundError k), s)
     | Some j \<Rightarrow>
         if j_user_id j \<noteq> u then (Inl (NotJobOwnerError k), s)
         else if j_status j \<notin> set ACTIVE_STATUSES then (Inl (CancelNotAllowedError (j_status j)), s)
         else let j' = j\<lparr>j_cancel_requested := True, j_updated_at := now\<rparr>
              in (Inr j', jr_update R j' s))"
  using assms
  by (auto simp: JobService_request_cancel_def get_job_spec request_cancel_def can_request_cancel_def
      Let_def split: option.splits)

lemma request_cancel_wf:
  "wf_jobs s \<Longrightarrow> wf_jobs (snd (JobService_request_cancel R now u k s))"
  by (auto simp: request_cancel_spec Let_def update_job_wf split: option.splits)

lemma request_cancel_advances:
  assumes wf: "wf_jobs s"
  shows "jobs_advance (jobs_of s) (jobs_of (snd (JobService_request_cancel R now u k s)))"
proof -
  have "jobs_advance (jobs_of s) (jobs_of (jr_update R j' s))"
    if j: "jobs_of s k = Some j" and j': "request_cancel j now = Inr j'" for j j'
  proof (rule write_advances [OF wf])
    show "jobs_of s (j_id j) = Some j"
      using j keyedD [OF jobs_keyed [OF wf] j] by simp
    show "evolves_to j j'" using j' by (rule evolves_to_request_cancel)
  qed
  then show ?thesis
    using wf by (auto simp: JobService_request_cancel_def get_job_spec split: option.splits sum.splits)
qed

text \<open>Every queued job of the list has its position among all queued jobs, oldest first.\<close>

lemma list_jobs_spec:
  assumes wf: "wf_jobs s"
  obtains mine queued views where
    "enumerates j_id (jobs_of s) (\<lambda>j. j_user_id j = u) mine"
    "jr_list_by_statuses R s [QUEUED] = Inr queued"
    "JobService_list_jobs_for_user R s u = Inr views"
    "views = map (\<lambda>j. \<lparr>jv_job = j, jv_display_status = DISPLAY_STATUS (j_status j),
        jv_queue_position = (if j_status j = QUEUED
          then map_option (\<lambda>i. int i + 1) (index_of j queued) else None)\<rparr>) mine"
    "\<forall>j \<in> set mine. j_status j = QUEUED \<longrightarrow> index_of j queued \<noteq> None"
proof -
  obtain mine where mine: "jr_list_for_user R s u = Inr mine"
    and en: "enumerates j_id (jobs_of s) (\<lambda>j. j_user_id j = u) mine"
    using wf by (rule listed_for_user)
  obtain queued where q: "jr_list_by_statuses R s [QUEUED] = Inr queued"
    using wf by (rule listed_by_statuses)
  have dist: "distinct (map j_id queued)"
    using wf q by (rule list_by_statuses_distinct)
  have idx: "index_of (j_id j) (map j_id queued) = index_of j queued" if "j \<in> set queued" for j
    using dist that by (rule index_of_key)
  have mem: "j \<in> set queued" if "j \<in> set mine" "j_status j = QUEUED" for j
    using that enumeratesD(2) [OF en] list_by_statuses_complete [OF wf q] by auto
  let ?view = "\<lambda>j. \<lparr>jv_job = j, jv_display_status = DISPLAY_STATUS (j_status j),
        jv_queue_position = (if j_status j = QUEUED
          then map_option (\<lambda>i. int i + 1) (index_of j queued) else None)\<rparr>"
  have some: "\<forall>j \<in> set mine. j_status j = QUEUED \<longrightarrow> index_of j queued \<noteq> None"
    using mem by (auto simp: index_of_None_iff)
  have "job_view (map j_id queued) j = Inr (?view j)" if "j \<in> set mine" for j
    using that mem [OF that] idx [of j] some by (auto simp: job_view_def split: option.splits)
  then have "collect (map (job_view (map j_id queued)) mine) = Inr (map ?view mine)"
    by (rule collect_map_Inr)
  then have "JobService_list_jobs_for_user R s u = Inr (map ?view mine)"
    by (simp add: JobService_list_jobs_for_user_def mine q)
  with en q show ?thesis using some by (intro that) auto
qed

lemma download_url_spec:
  assumes "wf_jobs s"
  shows "JobService_get_download_url R S s u k =
    (case jobs_of s k of
       None \<Rightarrow> Inl (JobNotFoundError k)
     | Some j \<Rightarrow>
         if j_user_id j \<noteq> u then Inl (NotJobOwnerError k)
         else if j_status j = COMPLETED \<and> truthy (j_checkpoint_gcs_path j)
         then Inr (os_generate_download_url S (the (j_checkpoint_gcs_path j)) 604800)
         else Inl (DownloadNotAvailableError k))"
  using assms
  by (auto simp: JobService_get_download_url_def get_job_spec DOWNLOAD_URL_EXPIRES_IN_SECONDS_def
      split: option.splits)

end

end
