(* ===== verification/Policy_Shapes.thy ===== *)
theory Policy_Shapes
  imports Dataset_Validation
begin

text \<open>
  \<open>common/domain/policy_shapes.py\<close>: the input contract of each policy and its check against the
  \<open>features\<close> of \<open>meta/info.json\<close>. The parsed info is whatever \<open>json.loads\<close> returned; a top
  level value that is not an object has no \<open>get\<close>, so the check raises \<open>AttributeError\<close>.
\<close>

record PolicyRequirement =
  required_features :: "string list"
  requires_visual_feature :: bool
  requires_visual_or_env_state :: bool

fun POLICY_REQUIREMENTS :: "PolicyType \<Rightarrow> PolicyRequirement" where
  "POLICY_REQUIREMENTS ACT =
     \<lparr>required_features = [''observation.state'', ''action''],
      requires_visual_feature = False, requires_visual_or_env_state = True\<rparr>"
| "POLICY_REQUIREMENTS SMOLVLA =
     \<lparr>required_features = [''observation.state'', ''action''],
      requires_visual_feature = True, requires_visual_or_env_state = False\<rparr>"

definition VISUAL_FEATURE_PREFIXES :: "string list" where
  "VISUAL_FEATURE_PREFIXES = [''observation.image'', ''observation.images'']"

definition ENV_STATE_FEATURE :: string where
  "ENV_STATE_FEATURE = ''observation.environment_state''"

definition has_visual_feature :: "(string \<times> json) list \<Rightarrow> bool" where
  "has_visual_feature features \<longleftrightarrow>
     list_ex (\<lambda>name. list_ex (\<lambda>prefix. starts_with prefix name) VISUAL_FEATURE_PREFIXES) (map fst features)"

definition parse_info_json :: "blob \<Rightarrow> exn + json" where
  "parse_info_json raw =
     (case json_loads raw of
        Inr v \<Rightarrow> Inr v
      | Inl (UnicodeDecodeError m) \<Rightarrow> Inl (InvalidInfoJsonError (''meta/info.json is not valid JSON: '' @ m))
      | Inl (JSONDecodeError m) \<Rightarrow> Inl (InvalidInfoJsonError (''meta/info.json is not valid JSON: '' @ m))
      | Inl e \<Rightarrow> Inl e)"

definition check_requirement ::
    "PolicyRequirement \<Rightarrow> (string \<times> json) list \<Rightarrow> PolicyType \<Rightarrow> ValidationResult" where
  "check_requirement requirement features policy =
     (case find (\<lambda>name. name \<notin> set (map fst features)) (required_features requirement) of
        Some name \<Rightarrow>
          failure (''Dataset is missing feature '' @ quoted name @ '' required by policy '' @
            quoted (policy_value policy))
      | None \<Rightarrow>
          (if requires_visual_feature requirement \<and> \<not> has_visual_feature features
           then failure (''Policy '' @ quoted (policy_value policy) @
                  '' requires at least one visual observation feature'')
           else if requires_visual_or_env_state requirement \<and>
               (\<not> has_visual_feature features \<and> ENV_STATE_FEATURE \<notin> set (map fst features))
           then failure (''Policy '' @ quoted (policy_value policy) @
                  '' requires at least one visual observation feature or the '' @
                  quoted ENV_STATE_FEATURE @ '' feature'')
           else success))"

definition check_policy_compatibility :: "json \<Rightarrow> PolicyType \<Rightarrow> exn + ValidationResult" where
  "check_policy_compatibility info policy =
     (case info of
        JObj d \<Rightarrow>
          (case (case map_of d ''features'' of Some v \<Rightarrow> v | None \<Rightarrow> JObj []) of
             JObj features \<Rightarrow> Inr (check_requirement (POLICY_REQUIREMENTS policy) features policy)
           | _ \<Rightarrow> Inr (failure ''meta/info.json is missing a valid 'features' map''))
      | _ \<Rightarrow> Inl (AttributeError ''get''))"

subsection \<open>What the check accepts\<close>

definition feature_names :: "json \<Rightarrow> string set" where
  "feature_names info =
     (case info of
        JObj d \<Rightarrow> (case map_of d ''features'' of Some (JObj fs) \<Rightarrow> fst ` set fs | _ \<Rightarrow> {})
      | _ \<Rightarrow> {})"

definition has_camera :: "string set \<Rightarrow> bool" where
  "has_camera names \<longleftrightarrow> (\<exists>name \<in> names. starts_with ''observation.image'' name)"

text \<open>The second prefix adds nothing: it extends the first.\<close>

lemma starts_with_images: "starts_with ''observation.images'' s \<Longrightarrow> starts_with ''observation.image'' s"
  by (auto simp: starts_with_iff)

lemma visual_name_iff:
  "list_ex (\<lambda>prefix. starts_with prefix s) VISUAL_FEATURE_PREFIXES \<longleftrightarrow> starts_with ''observation.image'' s"
  using starts_with_images [of s] by (auto simp del: starts_with_def simp add: VISUAL_FEATURE_PREFIXES_def)

lemma has_visual_feature_iff: "has_visual_feature fs \<longleftrightarrow> has_camera (fst ` set fs)"
  unfolding has_visual_feature_def visual_name_iff by (simp add: list_ex_iff has_camera_def)

lemma check_requirement_ok_iff:
  "vr_ok (check_requirement r fs p) \<longleftrightarrow>
     set (required_features r) \<subseteq> fst ` set fs \<and>
     (requires_visual_feature r \<longrightarrow> has_camera (fst ` set fs)) \<and>
     (requires_visual_or_env_state r \<longrightarrow>
        has_camera (fst ` set fs) \<or> ENV_STATE_FEATURE \<in> fst ` set fs)"
proof (cases "find (\<lambda>name. name \<notin> set (map fst fs)) (required_features r)")
  case None
  then have "set (required_features r) \<subseteq> fst ` set fs"
    by (auto simp: find_None_iff)
  with None show ?thesis by (auto simp: check_requirement_def has_visual_feature_iff)
next
  case (Some n)
  then have "n \<in> set (required_features r)" and "n \<notin> fst ` set fs"
    by (auto simp: find_Some_iff)
  with Some show ?thesis by (auto simp: check_requirement_def)
qed

lemma requirement_policy_ok_iff:
  "vr_ok (check_requirement (POLICY_REQUIREMENTS policy) fs policy) \<longleftrightarrow>
     {''observation.state'', ''action''} \<subseteq> fst ` set fs \<and>
     (has_camera (fst ` set fs) \<or> policy = ACT \<and> ENV_STATE_FEATURE \<in> fst ` set fs)"
  by (cases policy) (simp_all add: check_requirement_ok_iff)

lemma compatibility_ok_iff:
  assumes "check_policy_compatibility info policy = Inr res"
  shows "vr_ok res \<longleftrightarrow>
     {''observation.state'', ''action''} \<subseteq> feature_names info \<and>
     (has_camera (feature_names info) \<or> policy = ACT \<and> ENV_STATE_FEATURE \<in> feature_names info)"
proof -
  obtain d where d: "info = JObj d"
    using assms by (auto simp: check_policy_compatibility_def split: json.splits)
  show ?thesis
  proof (cases "map_of d ''features''")
    case None
    then have "res = check_requirement (POLICY_REQUIREMENTS policy) [] policy"
      using assms d by (simp add: check_policy_compatibility_def)
    then show ?thesis using d None
      by (simp only: requirement_policy_ok_iff) (simp add: feature_names_def)
  next
    case (Some v)
    show ?thesis
    proof (cases "\<exists>fs. v = JObj fs")
      case True
      then obtain fs where fs: "v = JObj fs" ..
      then have "res = check_requirement (POLICY_REQUIREMENTS policy) fs policy"
        using assms d Some by (simp add: check_policy_compatibility_def)
      moreover have "feature_names info = fst ` set fs"
        using d Some fs by (simp add: feature_names_def)
      ultimately show ?thesis by (simp only: requirement_policy_ok_iff)
    next
      case False
      then have "\<not> vr_ok res" and "feature_names info = {}"
        using assms d Some
        by (auto simp: check_policy_compatibility_def feature_names_def split: json.splits)
      then show ?thesis by simp
    qed
  qed
qed

lemma compatibility_raises_iff:
  "(\<exists>e. check_policy_compatibility info policy = Inl e) \<longleftrightarrow> (\<forall>d. info \<noteq> JObj d)"
  by (auto simp: check_policy_compatibility_def split: json.splits)

subsection \<open>Properties\<close>

text \<open>
  C18: The compatibility check raises exactly on a top level value that is not an object;
  otherwise it accepts exactly the datasets that have \<open>observation.state\<close> and \<open>action\<close> and a
  camera feature, where for ACT the environment state can stand for the camera. In particular a
  dataset SmolVLA accepts is one ACT accepts.
\<close>

theorem policy_contract:
  "(\<forall>d. info \<noteq> JObj d) \<and> (\<exists>e. check_policy_compatibility info policy = Inl e) \<or>
   (\<exists>res. check_policy_compatibility info policy = Inr res \<and>
      (vr_ok res \<longleftrightarrow>
         {''observation.state'', ''action''} \<subseteq> feature_names info \<and>
         (has_camera (feature_names info) \<or> policy = ACT \<and> ENV_STATE_FEATURE \<in> feature_names info)))"
proof (cases "check_policy_compatibility info policy")
  case (Inl e)
  with compatibility_raises_iff [of info policy] show ?thesis by blast
next
  case (Inr res)
  with compatibility_ok_iff [OF Inr] show ?thesis by blast
qed

end
