(* ===== verification/Upload_Service.thy ===== *)
theory Upload_Service
  imports Job_Service Policy_Shapes
begin

text \<open>
  \<open>backend/services/upload_service.py\<close>: the two ways to submit a dataset. The service acts on the
  job repository and the object storage; \<open>new_id\<close> stands for the UUID drawn. The validation of an
  upload is \<open>inspect_upload\<close>: every check that fails goes through \<open>reject\<close>, which deletes the object
  before it raises. \<open>valid_dataset\<close> says which archives get through, without the order of the checks.
\<close>

definition INFO_JSON_PATH :: string where "INFO_JSON_PATH = ''meta/info.json''"

definition UPLOAD_URL_EXPIRES_IN_SECONDS :: int where "UPLOAD_URL_EXPIRES_IN_SECONDS = 15 * 60"

definition object_path_for :: "string \<Rightarrow> string \<Rightarrow> string" where
  "object_path_for user_id upload_id = ''uploads/'' @ user_id @ ''/'' @ upload_id @ ''.zip''"

definition create_upload_target ::
    "'o object_storage \<Rightarrow> string \<Rightarrow> string \<Rightarrow> string option \<Rightarrow> string \<times> string" where
  "create_upload_target S new_id user_id upload_id =
     (let upload_id' = (if truthy upload_id then the upload_id else new_id)
      in (upload_id', os_generate_upload_url S (object_path_for user_id upload_id')
            ''application/zip'' UPLOAD_URL_EXPIRES_IN_SECONDS))"

definition reject :: "'o object_storage \<Rightarrow> string \<Rightarrow> string option \<Rightarrow> 'o \<Rightarrow> ('o, 'a) outcome" where
  "reject S object_path error_message objects =
     (case os_delete S object_path objects of
        (Inl e, objects') \<Rightarrow> (Inl e, objects')
      | (Inr _, objects') \<Rightarrow>
          (Inl (UploadValidationError
             (if truthy error_message then the error_message else ''Dataset validation failed'')), objects'))"

definition entry_meta :: "zip_member \<Rightarrow> ZipEntryMeta" where
  "entry_meta i = \<lparr>ze_name = zm_name i, ze_uncompressed_size = zm_size i\<rparr>"

definition read_zip_entries ::
    "'o object_storage \<Rightarrow> 'o \<Rightarrow> string \<Rightarrow> exn + ZipEntryMeta list \<times> string list" where
  "read_zip_entries S objects object_path =
     and_then (os_open_read_stream S objects object_path) (\<lambda>stream.
     and_then (zip_infolist stream) (\<lambda>infos. Inr (map entry_meta infos, map zm_name infos)))"

definition read_zip_member :: "'o object_storage \<Rightarrow> 'o \<Rightarrow> string \<Rightarrow> string \<Rightarrow> exn + blob" where
  "read_zip_member S objects object_path member_name =
     and_then (os_open_read_stream S objects object_path) (\<lambda>stream. zip_read stream member_name)"

text \<open>Lines 98 to 108: the metadata file and the policy's input contract.\<close>

definition inspect_info ::
    "'o object_storage \<Rightarrow> PolicyType \<Rightarrow> string \<Rightarrow> 'o \<Rightarrow> ('o, unit) outcome" where
  "inspect_info S policy object_path objects =
     (case and_then (read_zip_member S objects object_path INFO_JSON_PATH) parse_info_json of
        Inl (KeyError _) \<Rightarrow> reject S object_path (Some (''Missing required file: '' @ INFO_JSON_PATH)) objects
      | Inl (FileNotFoundError _) \<Rightarrow> reject S object_path (Some (''Missing required file: '' @ INFO_JSON_PATH)) objects
      | Inl (InvalidInfoJsonError m) \<Rightarrow> reject S object_path (Some m) objects
      | Inl e \<Rightarrow> (Inl e, objects)
      | Inr info \<Rightarrow>
          (case check_policy_compatibility info policy of
             Inl e \<Rightarrow> (Inl e, objects)
           | Inr shape_result \<Rightarrow>
               (if \<not> vr_ok shape_result then reject S object_path (vr_error shape_result) objects
                else (Inr (), objects))))"

definition inspect_upload ::
    "'o object_storage \<Rightarrow> ValidationLimits \<Rightarrow> PolicyType \<Rightarrow> string \<Rightarrow> 'o \<Rightarrow> ('o, unit) outcome" where
  "inspect_upload S limits policy object_path objects =
     (case read_zip_entries S objects object_path of
        Inl (BadZipFile _) \<Rightarrow> reject S object_path (Some ''Uploaded file is not a valid zip archive'') objects
      | Inl e \<Rightarrow> (Inl e, objects)
      | Inr (entries, entry_names) \<Rightarrow>
          (let structure_result = check_lerobot_structure entry_names;
               bomb_result = check_decompression_bomb entries limits
           in if \<not> vr_ok structure_result then reject S object_path (vr_error structure_result) objects
              else if \<not> vr_ok bomb_result then reject S object_path (vr_error bomb_result) objects
              else inspect_info S policy object_path objects))"

definition confirm_zip_upload ::
    "'j job_repository \<Rightarrow> 'u user_repository \<Rightarrow> 'o object_storage \<Rightarrow> ValidationLimits \<Rightarrow> (nat \<Rightarrow> datetime) \<Rightarrow>
     string \<Rightarrow> 'u \<Rightarrow> string \<Rightarrow> string \<Rightarrow> PolicyType \<Rightarrow> int \<Rightarrow> 'j \<times> 'o \<Rightarrow> ('j \<times> 'o, Job) outcome" where
  "confirm_zip_upload R U S limits now new_id users user_id upload_id policy training_steps s =
     (case s of (jobs, objects) \<Rightarrow>
        (let object_path = object_path_for user_id upload_id
         in if \<not> os_exists S objects object_path then (Inl (UploadNotFoundError object_path), s)
            else
              (case inspect_upload S limits policy object_path objects of
                 (Inl e, objects') \<Rightarrow> (Inl e, (jobs, objects'))
               | (Inr _, objects') \<Rightarrow>
                   (case JobService_create_job R U now new_id users user_id policy ZIP_UPLOAD object_path
                           training_steps jobs of
                      (r, jobs') \<Rightarrow> (r, (jobs', objects'))))))"

text \<open>The checks of \<open>submit_hf_dataset\<close>, lines 141 to 159.\<close>

definition inspect_hf_dataset :: "hf_hub_client \<Rightarrow> PolicyType \<Rightarrow> string \<Rightarrow> exn + unit" where
  "inspect_hf_dataset H policy repo_id =
     and_then (hh_repo_exists H repo_id) (\<lambda>found.
       if \<not> found then Inl (HFDatasetNotFoundError (''Hugging Face dataset repo not found: '' @ repo_id))
       else
         and_then (hh_list_repo_files H repo_id) (\<lambda>entry_names.
           let structure_result = check_lerobot_structure entry_names
           in if \<not> vr_ok structure_result
              then Inl (UploadValidationError (message_text (vr_error structure_result)))
              else
                (case and_then (hh_get_repo_file_bytes H repo_id INFO_JSON_PATH) parse_info_json of
                   Inl (FileNotFoundError _) \<Rightarrow>
                     Inl (UploadValidationError (''Missing required file: '' @ INFO_JSON_PATH))
                 | Inl (InvalidInfoJsonError m) \<Rightarrow> Inl (UploadValidationError m)
                 | Inl e \<Rightarrow> Inl e
                 | Inr info \<Rightarrow>
                     and_then (check_policy_compatibility info policy) (\<lambda>shape_result.
                       if \<not> vr_ok shape_result
                       then Inl (UploadValidationError (message_text (vr_error shape_result)))
                       else Inr ()))))"

definition submit_hf_dataset ::
    "'j job_repository \<Rightarrow> 'u user_repository \<Rightarrow> hf_hub_client \<Rightarrow> (nat \<Rightarrow> datetime) \<Rightarrow>
     string \<Rightarrow> 'u \<Rightarrow> string \<Rightarrow> string \<Rightarrow> PolicyType \<Rightarrow> int \<Rightarrow> 'j \<Rightarrow> ('j, Job) outcome" where
  "submit_hf_dataset R U H now new_id users user_id repo_id policy training_steps jobs =
     (case inspect_hf_dataset H policy repo_id of
        Inl e \<Rightarrow> (Inl e, jobs)
      | Inr _ \<Rightarrow>
          JobService_create_job R U now new_id users user_id policy HF_HUB repo_id training_steps jobs)"

subsection \<open>Which datasets are accepted\<close>

definition policy_accepts :: "PolicyType \<Rightarrow> json \<Rightarrow> bool" where
  "policy_accepts policy info \<longleftrightarrow>
     {''observation.state'', ''action''} \<subseteq> feature_names info \<and>
     (has_camera (feature_names info) \<or> policy = ACT \<and> ENV_STATE_FEATURE \<in> feature_names info)"

definition valid_dataset :: "ValidationLimits \<Rightarrow> PolicyType \<Rightarrow> blob \<Rightarrow> bool" where
  "valid_dataset limits policy b \<longleftrightarrow>
     (\<exists>ms d. b = ZipArchive ms \<and>
        (\<exists>rest. ''data/'' @ rest \<in> zm_name ` set ms) \<and>
        within_limits limits (map entry_meta ms) \<and>
        zip_find ms ''meta/info.json'' = Inr (JsonText (JObj d)) \<and> policy_accepts policy (JObj d))"

text \<open>An archive whose \<open>meta/info.json\<close> is JSON but not an object: \<open>info.get\<close> raises.\<close>

definition crashes_check :: "ValidationLimits \<Rightarrow> blob \<Rightarrow> bool" where
  "crashes_check limits b \<longleftrightarrow>
     (\<exists>ms info. b = ZipArchive ms \<and> (\<exists>rest. ''data/'' @ rest \<in> zm_name ` set ms) \<and>
        within_limits limits (map entry_meta ms) \<and>
        zip_find ms ''meta/info.json'' = Inr (JsonText info) \<and> (\<forall>d. info \<noteq> JObj d))"

definition sizes_unsigned :: "blob \<Rightarrow> bool" where
  "sizes_unsigned b \<longleftrightarrow> (\<forall>ms. b = ZipArchive ms \<longrightarrow> (\<forall>m \<in> set ms. 0 \<le> zm_size m))"

lemma entry_meta_fields [simp]: "ze_name (entry_meta i) = zm_name i" "ze_uncompressed_size (entry_meta i) = zm_size i"
  by (simp_all add: entry_meta_def)

lemma policy_result:
  "check_policy_compatibility (JObj d) policy = Inr res \<Longrightarrow> vr_ok res \<longleftrightarrow> policy_accepts policy (JObj d)"
  by (simp add: compatibility_ok_iff policy_accepts_def)

lemma policy_result_object: "\<exists>res. check_policy_compatibility (JObj d) policy = Inr res"
  using compatibility_raises_iff [of "JObj d" policy]
  by (cases "check_policy_compatibility (JObj d) policy") auto

lemma policy_result_other:
  "(\<And>d. info \<noteq> JObj d) \<Longrightarrow> check_policy_compatibility info policy = Inl (AttributeError ''get'')"
  by (cases info) (auto simp: check_policy_compatibility_def)

lemma parse_info_json_simps [simp]:
  "parse_info_json (JsonText v) = Inr v"
  "parse_info_json (RawBytes x) = Inl (InvalidInfoJsonError (''meta/info.json is not valid JSON: '' @ JSON_ERROR))"
  "parse_info_json (ZipArchive ms) = Inl (InvalidInfoJsonError (''meta/info.json is not valid JSON: '' @ JSON_ERROR))"
  by (simp_all add: parse_info_json_def)

lemma inspect_hf_Inr_iff:
  "inspect_hf_dataset H policy repo = Inr () \<longleftrightarrow>
     hh_repo_exists H repo = Inr True \<and>
     (\<exists>names. hh_list_repo_files H repo = Inr names \<and> ''meta/info.json'' \<in> set names \<and>
        (\<exists>rest. ''data/'' @ rest \<in> set names)) \<and>
     (\<exists>d. hh_get_repo_file_bytes H repo ''meta/info.json'' = Inr (JsonText (JObj d)) \<and> policy_accepts policy (JObj d))"
proof -
  let ?file = "hh_get_repo_file_bytes H repo ''meta/info.json''"
  let ?info = "and_then ?file parse_info_json"
  have info: "?info = Inr v \<longleftrightarrow> ?file = Inr (JsonText v)" for v
  proof (cases ?file)
    case (Inr content)
    then show ?thesis by (cases content) simp_all
  qed simp
  have shape: "and_then (check_policy_compatibility v policy) (\<lambda>shape_result.
        if \<not> vr_ok shape_result then Inl (UploadValidationError (message_text (vr_error shape_result)))
        else Inr ()) = Inr () \<longleftrightarrow> (\<exists>d. v = JObj d \<and> policy_accepts policy (JObj d))" for v
  proof (cases "\<exists>d. v = JObj d")
    case True
    then obtain d where d: "v = JObj d" ..
    obtain res where res: "check_policy_compatibility (JObj d) policy = Inr res" using policy_result_object by blast
    with d policy_result [OF res] show ?thesis by simp
  next
    case False
    with policy_result_other [of v policy] show ?thesis by auto
  qed
  let ?final = "case ?info of
        Inl (FileNotFoundError _) \<Rightarrow> Inl (UploadValidationError (''Missing required file: '' @ INFO_JSON_PATH))
      | Inl (InvalidInfoJsonError m) \<Rightarrow> Inl (UploadValidationError m)
      | Inl e \<Rightarrow> Inl e
      | Inr info \<Rightarrow> and_then (check_policy_compatibility info policy) (\<lambda>shape_result.
          if \<not> vr_ok shape_result then Inl (UploadValidationError (message_text (vr_error shape_result))) else Inr ())"
  have final: "?final = Inr () \<longleftrightarrow> (\<exists>d. ?file = Inr (JsonText (JObj d)) \<and> policy_accepts policy (JObj d))"
  proof (cases ?info)
    case (Inl e)
    with info have "\<not> (\<exists>v. ?file = Inr (JsonText v))" by fastforce
    with Inl show ?thesis by (cases e) auto
  next
    case (Inr v)
    with info [of v] show ?thesis by (auto simp: shape)
  qed
  have eq: "inspect_hf_dataset H policy repo = Inr () \<longleftrightarrow> ?final = Inr ()"
    if "hh_repo_exists H repo = Inr True" "hh_list_repo_files H repo = Inr names" "vr_ok (check_lerobot_structure names)" for names
    using that by (simp add: inspect_hf_dataset_def INFO_JSON_PATH_def)
  show ?thesis
  proof (cases "hh_repo_exists H repo = Inr True \<and>
      (\<exists>names. hh_list_repo_files H repo = Inr names \<and> vr_ok (check_lerobot_structure names))")
    case True
    then obtain names where names: "hh_repo_exists H repo = Inr True" "hh_list_repo_files H repo = Inr names"
      "vr_ok (check_lerobot_structure names)" by blast
    from names(3) names(1,2) show ?thesis unfolding eq [OF names] final structure_ok_iff by simp
  next
    case False
    then have "inspect_hf_dataset H policy repo \<noteq> Inr ()"
      by (cases "hh_repo_exists H repo"; cases "hh_list_repo_files H repo")
        (simp_all add: inspect_hf_dataset_def split: if_splits)
    with False show ?thesis unfolding structure_ok_iff by blast
  qed
qed

context object_store begin

text \<open>A rejection always raises; the object is gone unless the deletion itself raised.\<close>

definition rejected :: "string \<Rightarrow> 'o \<Rightarrow> ('o, unit) outcome \<Rightarrow> bool" where
  "rejected p s out \<longleftrightarrow>
     (case out of (r, s') \<Rightarrow>
        (\<exists>m. r = Inl (UploadValidationError m) \<and> m \<noteq> [] \<and> objects_of s' = (objects_of s)(p := None)) \<or>
        (\<exists>e. r = Inl e \<and> os_delete S p s = (Inl e, s') \<and> objects_of s' = objects_of s))"

lemma reject_rejects [intro]: "rejected p s (reject S p m s)"
proof -
  obtain r s' where d: "os_delete S p s = (r, s')" by fastforce
  show ?thesis
  proof (cases r)
    case (Inl e)
    with d delete_law [OF d] show ?thesis by (simp add: rejected_def reject_def)
  next
    case (Inr u)
    with d delete_law [OF d] show ?thesis by (cases m) (auto simp: rejected_def reject_def)
  qed
qed

lemma inspect_info_spec:
  assumes b: "objects_of s p = Some (ZipArchive ms)" and meta: "''meta/info.json'' \<in> zm_name ` set ms"
  shows "(\<exists>d. zip_find ms ''meta/info.json'' = Inr (JsonText (JObj d)) \<and> policy_accepts policy (JObj d)) \<and>
      inspect_info S policy p s = (Inr (), s) \<or>
    (\<exists>info. zip_find ms ''meta/info.json'' = Inr (JsonText info) \<and> (\<forall>d. info \<noteq> JObj d)) \<and>
      inspect_info S policy p s = (Inl (AttributeError ''get''), s) \<or>
    \<not> (\<exists>d. zip_find ms ''meta/info.json'' = Inr (JsonText (JObj d)) \<and> policy_accepts policy (JObj d)) \<and>
    \<not> (\<exists>info. zip_find ms ''meta/info.json'' = Inr (JsonText info) \<and> (\<forall>d. info \<noteq> JObj d)) \<and>
      rejected p s (inspect_info S policy p s)"
proof -
  have read: "read_zip_member S s p INFO_JSON_PATH = zip_find ms ''meta/info.json''"
    by (simp add: read_zip_member_def read_law [OF b] zip_read_def INFO_JSON_PATH_def)
  obtain content where content: "zip_find ms ''meta/info.json'' = Inr content"
    using zip_find_found [OF meta] by blast
  show ?thesis
  proof (cases "\<exists>info. content = JsonText info")
    case False
    then have "rejected p s (inspect_info S policy p s)"
      using read content by (cases content) (auto simp: inspect_info_def)
    with False content show ?thesis by auto
  next
    case True
    then obtain info where info: "content = JsonText info" ..
    show ?thesis
    proof (cases "\<exists>d. info = JObj d")
      case False
      then have "inspect_info S policy p s = (Inl (AttributeError ''get''), s)"
        using read content info policy_result_other [of info policy] by (simp add: inspect_info_def)
      with False content info show ?thesis by auto
    next
      case True
      then obtain d where d: "info = JObj d" ..
      obtain res where res: "check_policy_compatibility (JObj d) policy = Inr res"
        using policy_result_object by blast
      show ?thesis
      proof (cases "vr_ok res")
        case True
        then have "inspect_info S policy p s = (Inr (), s)"
          using read content info d res by (simp add: inspect_info_def)
        with True content info d policy_result [OF res] show ?thesis by simp
      next
        case False
        then have "rejected p s (inspect_info S policy p s)"
          using read content info d res by (simp add: inspect_info_def reject_rejects)
        with False content info d policy_result [OF res] show ?thesis by simp
      qed
    qed
  qed
qed

lemma inspect_upload_spec:
  assumes b: "objects_of s p = Some b" and sizes: "sizes_unsigned b"
    and limits: "0 \<le> max_total_uncompressed_bytes limits"
  shows "valid_dataset limits policy b \<and> inspect_upload S limits policy p s = (Inr (), s) \<or>
    crashes_check limits b \<and> inspect_upload S limits policy p s = (Inl (AttributeError ''get''), s) \<or>
    \<not> valid_dataset limits policy b \<and> \<not> crashes_check limits b \<and> rejected p s (inspect_upload S limits policy p s)"
proof (cases "\<exists>ms. b = ZipArchive ms")
  case False
  then have "rejected p s (inspect_upload S limits policy p s)"
    by (cases b) (auto simp: inspect_upload_def read_zip_entries_def read_law [OF b])
  with False show ?thesis by (auto simp: valid_dataset_def crashes_check_def)
next
  case True
  then obtain ms where ms: "b = ZipArchive ms" ..
  have read: "read_zip_entries S s p = Inr (map entry_meta ms, map zm_name ms)"
    using ms by (simp add: read_zip_entries_def read_law [OF b])
  have layout: "vr_ok (check_lerobot_structure (map zm_name ms)) \<longleftrightarrow>
      ''meta/info.json'' \<in> zm_name ` set ms \<and> (\<exists>rest. ''data/'' @ rest \<in> zm_name ` set ms)"
    by (simp add: structure_ok_iff)
  have bomb: "vr_ok (check_decompression_bomb (map entry_meta ms) limits) \<longleftrightarrow> within_limits limits (map entry_meta ms)"
    using sizes ms limits by (intro bomb_ok_iff) (auto simp: sizes_unsigned_def)
  have need_meta: "''meta/info.json'' \<in> zm_name ` set ms" if "zip_find ms ''meta/info.json'' = Inr x" for x
    using zip_find_missing [of "''meta/info.json''" ms] that by (cases "''meta/info.json'' \<in> zm_name ` set ms") simp_all
  show ?thesis
  proof (cases "vr_ok (check_lerobot_structure (map zm_name ms)) \<and> within_limits limits (map entry_meta ms)")
    case False
    then have "rejected p s (inspect_upload S limits policy p s)"
      by (auto simp: inspect_upload_def read bomb Let_def)
    moreover have "\<not> valid_dataset limits policy b" "\<not> crashes_check limits b"
      using False ms need_meta by (auto simp: valid_dataset_def crashes_check_def layout)
    ultimately show ?thesis by simp
  next
    case True
    then have "inspect_upload S limits policy p s = inspect_info S policy p s"
      by (simp add: inspect_upload_def read bomb Let_def)
    moreover have "objects_of s p = Some (ZipArchive ms)" "''meta/info.json'' \<in> zm_name ` set ms"
      using b ms True by (auto simp: layout)
    note inspect_info_spec [OF this, of policy]
    ultimately show ?thesis
      using True ms by (simp add: valid_dataset_def crashes_check_def layout)
  qed
qed

text \<open>Whatever the outcome, no object but the uploaded one is affected.\<close>

lemma reject_objects:
  assumes "reject S p m s = (r :: exn + unit, s')"
  shows "objects_of s' = objects_of s \<or> objects_of s' = (objects_of s)(p := None)"
proof -
  have "rejected p s (reject S p m s)" by (rule reject_rejects)
  with assms show ?thesis by (auto simp: rejected_def)
qed

lemma inspect_info_objects:
  assumes "inspect_info S policy p s = (r, s')"
  shows "objects_of s' = objects_of s \<or> objects_of s' = (objects_of s)(p := None)"
proof (cases "and_then (read_zip_member S s p INFO_JSON_PATH) parse_info_json")
  case (Inl e)
  with assms show ?thesis unfolding inspect_info_def by (cases e) (auto dest: reject_objects)
next
  case (Inr info)
  with assms show ?thesis unfolding inspect_info_def
    by (cases "check_policy_compatibility info policy") (auto dest: reject_objects split: if_splits)
qed

lemma inspect_upload_objects:
  assumes "inspect_upload S limits policy p s = (r, s')"
  shows "objects_of s' = objects_of s \<or> objects_of s' = (objects_of s)(p := None)"
proof (cases "read_zip_entries S s p")
  case (Inl e)
  with assms show ?thesis unfolding inspect_upload_def by (cases e) (auto dest: reject_objects)
next
  case (Inr x)
  with assms show ?thesis unfolding inspect_upload_def
    by (cases x) (auto simp: Let_def dest: reject_objects inspect_info_objects split: if_splits)
qed

text \<open>Only an accepted upload is still there after a call that went through the checks.\<close>

lemma inspect_upload_Inr:
  assumes "objects_of s p = Some b" and "sizes_unsigned b" and "0 \<le> max_total_uncompressed_bytes limits"
  shows "fst (inspect_upload S limits policy p s) = Inr () \<longleftrightarrow> valid_dataset limits policy b"
  using inspect_upload_spec [OF assms, of policy]
  by (auto simp: rejected_def valid_dataset_def crashes_check_def split: prod.splits)

end

lemmas create_job_result = job_store.create_job_spec and create_job_stored = job_store.create_job_law

subsection \<open>Properties\<close>

text \<open>
  C9: Confirming an upload, over any adapters that keep their contracts. It creates a job exactly
  when the archive is a valid dataset for the policy, the number of steps is allowed, the user has no
  active job and has quota left. The new job is then stored under its id, next to the untouched
  others, and the object stays for the worker. An error stores no job and touches no other object. If
  the dataset is valid, the object stays; if it is not, the error is an \<open>UploadValidationError\<close> with a
  message and the object is gone, unless the deletion itself raised, whose error is then the answer.
  The one exception is an archive whose \<open>meta/info.json\<close> is JSON but no object: it ends in an
  \<open>AttributeError\<close>, and the object stays.
\<close>

theorem zip_submission:
  assumes S: "object_store S objects_of" and R: "job_store R jobs_of wf_jobs" and wf: "wf_jobs jobs"
    and user: "ur_get U users u = Inr (Some usr)"
    and b: "objects_of objects (object_path_for u i) = Some b"
    and sizes: "\<forall>ms. b = ZipArchive ms \<longrightarrow> (\<forall>m \<in> set ms. 0 \<le> zm_size m)"
    and limits: "0 \<le> max_total_uncompressed_bytes limits"
    and run: "confirm_zip_upload R U S limits now new_id users u i policy n (jobs, objects) = (r, (jobs', objects'))"
  shows "((\<exists>job. r = Inr job) \<longleftrightarrow>
      valid_dataset limits policy b \<and> 1 \<le> n \<and> n \<le> 20000 \<and> \<not> has_active_job (jobs_of jobs) u \<and>
      effective_daily_used usr (date_of (now 0)) < MAX_DAILY_JOBS) \<and>
    (case r of
       Inr job \<Rightarrow>
         job = new_job new_id u policy ZIP_UPLOAD (object_path_for u i) n (now 1) \<and>
         jobs_of jobs' = (jobs_of jobs)(new_id \<mapsto> job) \<and> objects' = objects
     | Inl e \<Rightarrow>
         jobs' = jobs \<and>
         (if valid_dataset limits policy b then objects' = objects
          else if crashes_check limits b then e = AttributeError ''get'' \<and> objects' = objects
          else
            (\<exists>m. e = UploadValidationError m \<and> m \<noteq> [] \<and>
               objects_of objects' = (objects_of objects)(object_path_for u i := None)) \<or>
            os_delete S (object_path_for u i) objects = (Inl e, objects') \<and> objects_of objects' = objects_of objects))"
proof -
  let ?p = "object_path_for u i"
  have unsigned: "sizes_unsigned b" using sizes by (simp add: sizes_unsigned_def)
  note cases = object_store.inspect_upload_spec [OF S b unsigned limits, of policy]
  have present: "os_exists S objects ?p" using b by (simp add: object_store.exists_law [OF S])
  obtain q objects1 where q: "inspect_upload S limits policy ?p objects = (q, objects1)" by fastforce
  show ?thesis
  proof (cases "q = Inr ()")
    case True
    then have valid: "valid_dataset limits policy b" "objects1 = objects"
      using cases q by (auto simp: object_store.rejected_def [OF S])
    have "JobService_create_job R U now new_id users u policy ZIP_UPLOAD ?p n jobs = (r, jobs')" and "objects' = objects"
      using run present q True valid by (auto simp: confirm_zip_upload_def split: prod.splits)
    then show ?thesis
      using valid(1) by (auto simp: create_job_result [OF R wf user] create_job_stored [OF R wf] split: if_splits)
  next
    case False
    then have invalid: "\<not> valid_dataset limits policy b"
      using cases q by (auto simp: crashes_check_def valid_dataset_def)
    obtain e where e: "q = Inl e" using False by (cases q) auto
    have same: "r = Inl e" "jobs' = jobs" "objects' = objects1"
      using run present q e by (auto simp: confirm_zip_upload_def)
    from cases q invalid have "if crashes_check limits b then e = AttributeError ''get'' \<and> objects1 = objects
      else (\<exists>m. e = UploadValidationError m \<and> m \<noteq> [] \<and> objects_of objects1 = (objects_of objects)(?p := None)) \<or>
        os_delete S ?p objects = (Inl e, objects1) \<and> objects_of objects1 = objects_of objects"
      unfolding object_store.rejected_def [OF S] by (auto simp: e)
    with invalid same show ?thesis by simp
  qed
qed

definition demo_archive :: blob where
  "demo_archive = ZipArchive
     [ZipMember ''meta/info.json'' 120
        (JsonText (JObj [(''features'', JObj [(''observation.state'', JNull), (''action'', JNull),
           (''observation.images.top'', JNull)])])),
      ZipMember ''data/chunk-000/file-000.parquet'' 4096 (RawBytes ''...'')]"

lemma demo_archive_valid: "valid_dataset DEFAULT_LIMITS SMOLVLA demo_archive"
proof -
  have camera: "has_camera {''observation.state'', ''action'', ''observation.images.top''}"
    by (simp add: has_camera_def starts_with_iff)
  show ?thesis
    unfolding valid_dataset_def demo_archive_def
    by (intro exI conjI, rule refl)
       (auto simp: within_limits_def DEFAULT_LIMITS_def zip_find_def policy_accepts_def feature_names_def camera)
qed

theorem zip_submission_witness:
  "\<exists>job. fst (confirm_zip_upload memory_job_repository memory_user_repository
       (memory_object_storage ''http://localhost:8000'') DEFAULT_LIMITS (\<lambda>_. 5) ''j1''
       [(''u'', demo_user ''u'')] ''u'' ''d'' SMOLVLA 100 ([], [(''uploads/u/d.zip'', demo_archive)])) = Inr job \<and>
     j_status job = QUEUED"
proof -
  let ?run = "confirm_zip_upload memory_job_repository memory_user_repository
       (memory_object_storage ''http://localhost:8000'') DEFAULT_LIMITS (\<lambda>_. 5) ''j1''
       [(''u'', demo_user ''u'')] ''u'' ''d'' SMOLVLA 100 ([], [(''uploads/u/d.zip'', demo_archive)])"
  obtain r jobs' objects' where run: "?run = (r, (jobs', objects'))" by (cases ?run) auto
  note claim = zip_submission [OF memo.object_store_axioms memj.job_store_axioms _ _ _ _ _ run]
  have "(\<exists>job. r = Inr job) \<and> (case r of Inr job \<Rightarrow> j_status job = QUEUED | Inl _ \<Rightarrow> True)"
    using claim [of "demo_user ''u''" demo_archive] demo_archive_valid
    by (auto simp: port_simps object_path_for_def demo_archive_def DEFAULT_LIMITS_def has_active_job_def
        mem_jobs_ok_def effective_daily_used_def demo_user_def MAX_DAILY_JOBS_def split: sum.splits)
  with run show ?thesis by auto
qed

text \<open>
  C10: Submitting a Hugging Face dataset creates a job exactly when the repository exists, its file
  list has \<open>meta/info.json\<close> and a file under \<open>data/\<close>, that file is a JSON object that meets the
  policy's input contract, and the quota rules allow the job. File sizes play no part: no limit of
  the zip path is applied here. An error leaves the jobs as they were.
\<close>

theorem hf_submission:
  assumes R: "job_store R jobs_of wf_jobs" and wf: "wf_jobs jobs" and user: "ur_get U users u = Inr (Some usr)"
    and run: "submit_hf_dataset R U H now new_id users u repo policy n jobs = (r, jobs')"
  shows "((\<exists>job. r = Inr job) \<longleftrightarrow>
      hh_repo_exists H repo = Inr True \<and>
      (\<exists>names. hh_list_repo_files H repo = Inr names \<and> ''meta/info.json'' \<in> set names \<and>
         (\<exists>rest. ''data/'' @ rest \<in> set names)) \<and>
      (\<exists>d. hh_get_repo_file_bytes H repo ''meta/info.json'' = Inr (JsonText (JObj d)) \<and> policy_accepts policy (JObj d)) \<and>
      1 \<le> n \<and> n \<le> 20000 \<and> \<not> has_active_job (jobs_of jobs) u \<and>
      effective_daily_used usr (date_of (now 0)) < MAX_DAILY_JOBS) \<and>
    (case r of
       Inr job \<Rightarrow> job = new_job new_id u policy HF_HUB repo n (now 1) \<and> jobs_of jobs' = (jobs_of jobs)(new_id \<mapsto> job)
     | Inl e \<Rightarrow> jobs' = jobs)"
proof -
  let ?create = "JobService_create_job R U now new_id users u policy HF_HUB repo n jobs"
  show ?thesis
  proof (cases "inspect_hf_dataset H policy repo")
    case (Inl e)
    then have "r = Inl e" "jobs' = jobs" using run by (simp_all add: submit_hf_dataset_def)
    with Inl inspect_hf_Inr_iff [of H policy repo] show ?thesis by auto
  next
    case (Inr x)
    with run have "?create = (r, jobs')" by (simp add: submit_hf_dataset_def)
    with Inr inspect_hf_Inr_iff [of H policy repo] show ?thesis
      by (auto simp: create_job_result [OF R wf user] create_job_stored [OF R wf] split: if_splits)
  qed
qed

theorem hf_submission_witness:
  "\<exists>job. fst (submit_hf_dataset memory_job_repository memory_user_repository
       (memory_hf_hub_client [(''org/repo'', [(''meta/info.json'', (9,
           JsonText (JObj [(''features'', JObj [(''observation.state'', JNull), (''action'', JNull),
             (''observation.environment_state'', JNull)])]))), (''data/a'', (1, RawBytes ''x''))])])
       (\<lambda>_. 5) ''j1'' [(''u'', demo_user ''u'')] ''u'' ''org/repo'' ACT 100 []) = Inr job"
proof -
  let ?H = "memory_hf_hub_client [(''org/repo'', [(''meta/info.json'', (9,
           JsonText (JObj [(''features'', JObj [(''observation.state'', JNull), (''action'', JNull),
             (''observation.environment_state'', JNull)])]))), (''data/a'', (1, RawBytes ''x''))])]"
  let ?run = "submit_hf_dataset memory_job_repository memory_user_repository ?H
       (\<lambda>_. 5) ''j1'' [(''u'', demo_user ''u'')] ''u'' ''org/repo'' ACT 100 []"
  obtain r jobs' where run: "?run = (r, jobs')" by (cases ?run) auto
  note claim = hf_submission [OF memj.job_store_axioms _ _ run]
  have "\<exists>job. r = Inr job"
    using claim [of "demo_user ''u''"]
    by (auto simp: port_simps memory_hf_hub_client_def mem_list_repo_files_def mem_get_repo_file_bytes_def
        policy_accepts_def feature_names_def ENV_STATE_FEATURE_def has_active_job_def
        mem_jobs_ok_def effective_daily_used_def demo_user_def MAX_DAILY_JOBS_def)
  with run show ?thesis by auto
qed

end
