(* ===== verification/Security.thy ===== *)
theory Security
  imports Models
begin

text \<open>
  \<open>backend/security\<close>: password hashing and access tokens. \<open>bcrypt\<close> and \<open>PyJWT\<close> are third party
  packages, so their calls are the parameters \<open>bcrypt_api\<close> and \<open>jwt_api\<close>, with their documented
  behaviour as the hypotheses \<open>bcrypt_ok\<close> and \<open>jwt_ok\<close>. A character of a string is a code point
  below 256 and \<open>utf8_encode\<close> is its UTF-8 encoding.
\<close>

subsection \<open>Passwords\<close>

definition MAX_PASSWORD_BYTES :: nat where "MAX_PASSWORD_BYTES = 72"

definition utf8_char :: "char \<Rightarrow> string" where
  "utf8_char c =
     (let n = (of_char c :: nat)
      in if n < 128 then [c] else [char_of (192 + n div 64), char_of (128 + n mod 64)])"

definition utf8_encode :: "string \<Rightarrow> string" where
  "utf8_encode s = concat (map utf8_char s)"

text \<open>\<open>encode("ascii")\<close> and \<open>decode("ascii")\<close>; \<open>UnicodeEncodeError\<close> is a \<open>ValueError\<close>.\<close>

definition is_ascii :: "string \<Rightarrow> bool" where
  "is_ascii s \<longleftrightarrow> list_all (\<lambda>c. (of_char c :: nat) < 128) s"

definition encode_ascii :: "string \<Rightarrow> exn + string" where
  "encode_ascii s = (if is_ascii s then Inr s else Inl (ValueError s))"

definition decode_ascii :: "string \<Rightarrow> exn + string" where
  "decode_ascii s = (if is_ascii s then Inr s else Inl (UnicodeDecodeError s))"

record bcrypt_api =
  bc_hashpw :: "string \<Rightarrow> string \<Rightarrow> exn + string"
  bc_checkpw :: "string \<Rightarrow> string \<Rightarrow> exn + bool"

definition password_bytes :: "string \<Rightarrow> string" where
  "password_bytes plain_password = take MAX_PASSWORD_BYTES (utf8_encode plain_password)"

definition hash_password :: "bcrypt_api \<Rightarrow> string \<Rightarrow> string \<Rightarrow> exn + string" where
  "hash_password B salt plain_password =
     and_then (bc_hashpw B (password_bytes plain_password) salt) decode_ascii"

definition verify_password :: "bcrypt_api \<Rightarrow> string \<Rightarrow> string \<Rightarrow> exn + bool" where
  "verify_password B plain_password password_hash =
     and_then (encode_ascii password_hash) (bc_checkpw B (password_bytes plain_password))"

text \<open>
  A salted hash of at most 72 bytes is ASCII text that the check accepts for the hashed bytes and,
  taking the hash to be free of collisions, for no other ones.
\<close>

definition bcrypt_ok :: "bcrypt_api \<Rightarrow> bool" where
  "bcrypt_ok B \<longleftrightarrow>
     (\<forall>p salt h. bc_hashpw B p salt = Inr h \<longrightarrow> length p \<le> 72 \<longrightarrow>
        is_ascii h \<and> (\<forall>q. length q \<le> 72 \<longrightarrow> bc_checkpw B q h = Inr (q = p)))"

lemma password_bytes_length [simp]: "length (password_bytes p) \<le> 72"
  by (simp add: password_bytes_def MAX_PASSWORD_BYTES_def)

lemma verify_hashed:
  assumes "bcrypt_ok B" and "hash_password B salt p = Inr h"
  shows "verify_password B q h = Inr (password_bytes q = password_bytes p)"
proof -
  obtain h' where h': "bc_hashpw B (password_bytes p) salt = Inr h'" "decode_ascii h' = Inr h"
    using assms(2) by (auto simp: hash_password_def and_then_Inr_iff)
  then have "h' = h" by (simp add: decode_ascii_def split: if_splits)
  with assms(1) h' show ?thesis
    by (simp add: bcrypt_ok_def verify_password_def encode_ascii_def)
qed

text \<open>A reference implementation: the hash spells the bytes out in letters.\<close>

definition spell :: "string \<Rightarrow> string" where
  "spell bytes = concat (map (\<lambda>c. [char_of (65 + (of_char c :: nat) div 16), char_of (65 + (of_char c :: nat) mod 16)]) bytes)"

definition reference_bcrypt :: bcrypt_api where
  "reference_bcrypt =
     \<lparr>bc_hashpw = (\<lambda>p salt. Inr (spell p)), bc_checkpw = (\<lambda>q h. Inr (spell q = h))\<rparr>"

lemma of_char_small [simp]: "n < 256 \<Longrightarrow> (of_char (char_of n :: char) :: nat) = n"
  by (simp add: of_char_of)

lemma of_char_bound: "(of_char (c :: char) :: nat) < 256"
  by (rule nat_of_char_less_256)

lemma nat_nibbles_eq: "m div 16 = n div 16 \<Longrightarrow> m mod 16 = n mod 16 \<Longrightarrow> m = (n :: nat)"
  by (metis div_mult_mod_eq)

lemma nibbles_eq:
  assumes "(of_char (c :: char) :: nat) div 16 = of_char (d :: char) div 16"
    and "(of_char c :: nat) mod 16 = of_char d mod 16"
  shows "c = d"
  using nat_nibbles_eq [OF assms] by simp

lemma nibble_bounds: "(of_char (c :: char) :: nat) div 16 < 16" "(of_char (c :: char) :: nat) mod 16 < 16"
  using div_less_iff_less_mult [of 16 "of_char c :: nat" 16] of_char_bound [of c] by simp_all

lemma nibble_char_inject: "m < 16 \<Longrightarrow> n < 16 \<Longrightarrow> (char_of (65 + m) :: char) = char_of (65 + n) \<longleftrightarrow> m = (n :: nat)"
proof -
  assume "m < 16" "n < 16"
  then have "(of_char (char_of (65 + m) :: char) :: nat) = 65 + m" "(of_char (char_of (65 + n) :: char) :: nat) = 65 + n"
    by simp_all
  then show ?thesis by (metis add_left_cancel)
qed

lemma spell_Cons: "spell (c # p) = char_of (65 + (of_char c :: nat) div 16) # char_of (65 + (of_char c :: nat) mod 16) # spell p"
  by (simp add: spell_def)

lemma spell_inject [simp]: "spell p = spell q \<longleftrightarrow> p = q"
proof (induction p arbitrary: q)
  case Nil
  show ?case by (cases q) (simp_all add: spell_def)
next
  case (Cons c p)
  show ?case
  proof (cases q)
    case Nil
    then show ?thesis by (simp add: spell_def)
  next
    case (Cons d q')
    have "spell (c # p) = spell (d # q') \<longleftrightarrow>
        (of_char c :: nat) div 16 = of_char d div 16 \<and> (of_char c :: nat) mod 16 = of_char d mod 16 \<and> spell p = spell q'"
      by (simp only: spell_Cons list.inject nibble_char_inject [OF nibble_bounds(1) nibble_bounds(1)]
          nibble_char_inject [OF nibble_bounds(2) nibble_bounds(2)])
    then show ?thesis using Cons.IH [of q'] Cons nibbles_eq by blast
  qed
qed

lemma spell_ascii: "is_ascii (spell p)"
proof (induction p)
  case (Cons c p)
  have "65 + (of_char c :: nat) div 16 < 128" "65 + (of_char c :: nat) mod 16 < 128"
    using nibble_bounds [of c] by linarith+
  with Cons show ?case by (simp add: is_ascii_def spell_def)
qed (simp add: is_ascii_def spell_def)

lemma reference_bcrypt_ok: "bcrypt_ok reference_bcrypt"
  by (auto simp: bcrypt_ok_def reference_bcrypt_def spell_ascii)

subsection \<open>Access tokens\<close>

definition ALGORITHM :: string where "ALGORITHM = ''HS256''"

text \<open>The claims of a token. \<open>PyJWT\<close> writes times as whole seconds.\<close>

record claims =
  cl_sub :: "string option"
  cl_iat :: datetime
  cl_exp :: datetime

record jwt_api =
  jwt_encode :: "claims \<Rightarrow> string \<Rightarrow> string \<Rightarrow> string"
  jwt_decode :: "datetime \<Rightarrow> string \<Rightarrow> string \<Rightarrow> string list \<Rightarrow> exn + claims"

definition is_PyJWTError :: "exn \<Rightarrow> bool" where
  "is_PyJWTError e \<longleftrightarrow> (\<exists>m. e = ExternalError m)"

definition create_access_token ::
    "jwt_api \<Rightarrow> datetime \<Rightarrow> string \<Rightarrow> string \<Rightarrow> timedelta \<Rightarrow> string" where
  "create_access_token W now user_id secret expires_in =
     jwt_encode W \<lparr>cl_sub = Some user_id, cl_iat = now, cl_exp = now + expires_in\<rparr> secret ALGORITHM"

definition decode_access_token :: "jwt_api \<Rightarrow> datetime \<Rightarrow> string \<Rightarrow> string \<Rightarrow> exn + string" where
  "decode_access_token W now token secret =
     (case jwt_decode W now token secret [ALGORITHM] of
        Inl (ExternalError m) \<Rightarrow> Inl (InvalidTokenError m)
      | Inl e \<Rightarrow> Inl e
      | Inr payload \<Rightarrow> (case cl_sub payload of Some sub \<Rightarrow> Inr sub | None \<Rightarrow> Inl (KeyError ''sub'')))"

definition DEFAULT_EXPIRES_IN :: timedelta where "DEFAULT_EXPIRES_IN = seconds (12 * 60 * 60)"

definition whole_seconds :: "datetime \<Rightarrow> datetime" where
  "whole_seconds t = seconds (t div 1000000)"

text \<open>
  A token is text over the base64url alphabet with dots. It decodes under the secret that signed it
  while it is neither expired nor issued in the future; a token that decodes was signed with that
  secret.
\<close>

definition token_char :: "char \<Rightarrow> bool" where
  "token_char c \<longleftrightarrow>
     (let n = (of_char c :: nat)
      in 48 \<le> n \<and> n \<le> 57 \<or> 65 \<le> n \<and> n \<le> 90 \<or> 97 \<le> n \<and> n \<le> 122 \<or> n = 45 \<or> n = 46 \<or> n = 95)"

definition jwt_ok :: "jwt_api \<Rightarrow> bool" where
  "jwt_ok W \<longleftrightarrow>
     (\<forall>p secret. jwt_encode W p secret ALGORITHM \<noteq> [] \<and> list_all token_char (jwt_encode W p secret ALGORITHM)) \<and>
     (\<forall>now p secret. jwt_decode W now (jwt_encode W p secret ALGORITHM) secret [ALGORITHM] =
        (if whole_seconds (cl_iat p) \<le> now \<and> now < whole_seconds (cl_exp p)
         then Inr (p\<lparr>cl_iat := whole_seconds (cl_iat p), cl_exp := whole_seconds (cl_exp p)\<rparr>)
         else Inl (ExternalError ''Signature has expired''))) \<and>
     (\<forall>now token secret p. jwt_decode W now token secret [ALGORITHM] = Inr p \<longrightarrow>
        (\<exists>q. token = jwt_encode W q secret ALGORITHM)) \<and>
     (\<forall>now token secret e. jwt_decode W now token secret [ALGORITHM] = Inl e \<longrightarrow> is_PyJWTError e)"

lemma whole_seconds_le: "whole_seconds t \<le> t"
  using minus_mod_eq_mult_div [of t 1000000] by (simp add: whole_seconds_def seconds_def)

lemma decode_created:
  assumes "jwt_ok W" and "t \<le> now"
  shows "decode_access_token W now (create_access_token W t u secret d) secret =
    (if now < whole_seconds (t + d) then Inr u else Inl (InvalidTokenError ''Signature has expired''))"
proof -
  have "whole_seconds t \<le> now" using whole_seconds_le [of t] assms(2) by simp
  with assms(1) show ?thesis
    by (simp add: jwt_ok_def decode_access_token_def create_access_token_def)
qed

text \<open>
  A reference implementation: the token spells out its claims, the secret and the algorithm. A field
  is its characters, each behind an \<open>a\<close>, up to a \<open>b\<close>.
\<close>

fun spell_fields :: "string list \<Rightarrow> string" where
  "spell_fields [] = []"
| "spell_fields (f # fs) = concat (map (\<lambda>c. [CHR ''a'', c]) f) @ CHR ''b'' # spell_fields fs"

fun read_field :: "string \<Rightarrow> string \<Rightarrow> (string \<times> string) option" where
  "read_field acc [] = None"
| "read_field acc (a # rest) =
     (if a = CHR ''b'' then Some (rev acc, rest)
      else case rest of [] \<Rightarrow> None | c # rest' \<Rightarrow> read_field (c # acc) rest')"

lemma read_field_spell: "read_field acc (concat (map (\<lambda>c. [CHR ''a'', c]) f) @ CHR ''b'' # rest) = Some (rev acc @ f, rest)"
  by (induction f arbitrary: acc) simp_all

definition unary :: "int \<Rightarrow> string" where
  "unary i = (if i < 0 then CHR ''-'' # replicate (nat (- i)) CHR ''1'' else replicate (nat i) CHR ''1'')"

definition of_unary :: "string \<Rightarrow> int" where
  "of_unary s = (case s of [] \<Rightarrow> 0 | c # cs \<Rightarrow> if c = CHR ''-'' then - int (length cs) else int (length s))"

lemma of_unary_unary [simp]: "of_unary (unary i) = i"
proof (cases "i < 0")
  case False
  then show ?thesis by (cases "nat i") (simp_all add: of_unary_def unary_def)
qed (simp add: of_unary_def unary_def)

definition claim_fields :: "claims \<Rightarrow> string list" where
  "claim_fields p =
     [case cl_sub p of None \<Rightarrow> ''n'' | Some sub \<Rightarrow> ''s'' @ sub, unary (cl_iat p div 1000000), unary (cl_exp p div 1000000)]"

definition reference_encode :: "claims \<Rightarrow> string \<Rightarrow> string \<Rightarrow> string" where
  "reference_encode p secret algorithm = spell (spell_fields (secret # algorithm # claim_fields p))"

fun unspell :: "string \<Rightarrow> string" where
  "unspell (a # b # rest) = char_of (16 * ((of_char a :: nat) - 65) + ((of_char b :: nat) - 65)) # unspell rest"
| "unspell _ = []"

lemma unspell_spell [simp]: "unspell (spell s) = s"
proof (induction s)
  case Nil
  show ?case by (simp add: spell_def)
next
  case (Cons c s)
  have "16 * ((of_char c :: nat) div 16) + of_char c mod 16 = of_char c" by (rule mult_div_mod_eq)
  with Cons nibble_bounds [of c] show ?case by (simp add: spell_Cons)
qed

lemma spell_token: "list_all token_char (spell s)"
proof (induction s)
  case Nil
  show ?case by (simp add: spell_def)
next
  case (Cons c s)
  have "token_char (char_of (65 + n))" if "n < 16" for n :: nat
    using that by (simp add: token_char_def Let_def)
  with Cons nibble_bounds [of c] show ?case by (simp add: spell_Cons)
qed

definition read_fields5 :: "string \<Rightarrow> string list option" where
  "read_fields5 s =
     Option.bind (read_field [] s) (\<lambda>(a, s). Option.bind (read_field [] s) (\<lambda>(b, s).
     Option.bind (read_field [] s) (\<lambda>(c, s). Option.bind (read_field [] s) (\<lambda>(d, s).
     Option.bind (read_field [] s) (\<lambda>(e, s). Some [a, b, c, d, e])))))"

lemma read_fields5_spell: "read_fields5 (spell_fields [a, b, c, d, e]) = Some [a, b, c, d, e]"
  by (simp add: read_fields5_def read_field_spell)

definition fields_claims :: "string list \<Rightarrow> claims" where
  "fields_claims fs =
     \<lparr>cl_sub = (case fs ! 2 of c # sub \<Rightarrow> if c = CHR ''s'' then Some sub else None | [] \<Rightarrow> None),
      cl_iat = seconds (of_unary (fs ! 3)), cl_exp = seconds (of_unary (fs ! 4))\<rparr>"

definition reference_decode :: "datetime \<Rightarrow> string \<Rightarrow> string \<Rightarrow> string list \<Rightarrow> exn + claims" where
  "reference_decode now token secret algorithms =
     (case read_fields5 (unspell token) of
        None \<Rightarrow> Inl (ExternalError ''Not enough segments'')
      | Some fs \<Rightarrow>
          (let p = fields_claims fs
           in if hd algorithms = fs ! 1 \<and> fs ! 0 = secret \<and> reference_encode p secret (fs ! 1) = token
              then (if cl_iat p \<le> now \<and> now < cl_exp p then Inr p
                    else Inl (ExternalError ''Signature has expired''))
              else Inl (ExternalError ''Signature verification failed'')))"

definition reference_jwt :: jwt_api where
  "reference_jwt = \<lparr>jwt_encode = reference_encode, jwt_decode = reference_decode\<rparr>"

definition rounded :: "claims \<Rightarrow> claims" where
  "rounded p = p\<lparr>cl_iat := whole_seconds (cl_iat p), cl_exp := whole_seconds (cl_exp p)\<rparr>"

lemma fields_claims_spell: "fields_claims (secret # algorithm # claim_fields p) = rounded p"
  by (cases p) (auto simp: fields_claims_def claim_fields_def rounded_def whole_seconds_def split: option.splits)

lemma claim_fields_rounded: "claim_fields (rounded p) = claim_fields p"
  by (cases p) (simp add: claim_fields_def rounded_def whole_seconds_def seconds_def)

lemma reference_decode_encode:
  "reference_decode now (reference_encode p secret a) secret [a] =
     (if whole_seconds (cl_iat p) \<le> now \<and> now < whole_seconds (cl_exp p) then Inr (rounded p)
      else Inl (ExternalError ''Signature has expired''))"
proof -
  obtain c d e where cde: "claim_fields p = [c, d, e]" by (simp add: claim_fields_def)
  have read: "read_fields5 (unspell (reference_encode p secret a)) = Some (secret # a # claim_fields p)"
    by (simp only: reference_encode_def cde read_fields5_spell unspell_spell)
  have "reference_encode (rounded p) secret a = reference_encode p secret a"
    by (simp add: reference_encode_def claim_fields_rounded)
  then show ?thesis
    by (simp add: reference_decode_def read fields_claims_spell Let_def) (simp add: rounded_def)
qed

lemma reference_jwt_ok: "jwt_ok reference_jwt"
proof -
  have "\<exists>q. token = reference_encode q secret ALGORITHM"
    if "reference_decode now token secret [ALGORITHM] = Inr p" for now token secret p
    using that by (auto simp: reference_decode_def Let_def split: option.splits if_splits)
  moreover have "is_PyJWTError e" if "reference_decode now token secret [ALGORITHM] = Inl e" for now token secret e
    using that by (auto simp: reference_decode_def Let_def is_PyJWTError_def split: option.splits if_splits)
  moreover have "reference_encode p secret ALGORITHM \<noteq> []" for p secret
    using unspell_spell [of "spell_fields (secret # ALGORITHM # claim_fields p)"]
    by (auto simp: reference_encode_def simp del: unspell_spell)
  moreover have "list_all token_char (reference_encode p secret ALGORITHM)" for p secret
    unfolding reference_encode_def by (rule spell_token)
  ultimately show ?thesis
    by (auto simp: jwt_ok_def reference_jwt_def reference_decode_encode rounded_def)
qed

end
