(* ===== verification/Auth_Service.thy ===== *)
theory Auth_Service
  imports Security Memory_Adapters
begin

text \<open>
  \<open>backend/services/auth_service.py\<close>: accounts by email and password or by Hugging Face login. The
  collaborators are the records of \<^theory_text>\<open>Ports\<close> and the \<open>bcrypt\<close> parameter; \<open>salt\<close>, \<open>new_id\<close> and
  \<open>now\<close> are the salt, the UUID and the clock reading a call draws.
\<close>

definition MIN_CAPTCHA_SCORE :: pyfloat where "MIN_CAPTCHA_SCORE = Fin (1 / 2)"

definition email_user :: "string \<Rightarrow> string \<Rightarrow> string \<Rightarrow> datetime \<Rightarrow> User" where
  "email_user new_id email password_hash now =
     \<lparr>u_id = new_id, u_auth_provider = EMAIL, u_email = Some email, u_password_hash = Some password_hash,
      u_hf_user_id = None, u_daily_quota_used = 0, u_quota_reset_date = None, u_created_at = now\<rparr>"

definition hf_user :: "string \<Rightarrow> HFOAuthUser \<Rightarrow> datetime \<Rightarrow> User" where
  "hf_user new_id profile now =
     \<lparr>u_id = new_id, u_auth_provider = HUGGINGFACE, u_email = hfu_email profile, u_password_hash = None,
      u_hf_user_id = Some (hfu_hf_user_id profile), u_daily_quota_used = 0, u_quota_reset_date = None,
      u_created_at = now\<rparr>"

definition register_with_email ::
    "bcrypt_api \<Rightarrow> 'u user_repository \<Rightarrow> captcha_verifier \<Rightarrow> pyfloat \<Rightarrow> string \<Rightarrow> string \<Rightarrow> datetime \<Rightarrow>
     string \<Rightarrow> string \<Rightarrow> string \<Rightarrow> 'u \<Rightarrow> ('u, User) outcome" where
  "register_with_email B U captcha min_captcha_score salt new_id now email password captcha_token users =
     (case captcha captcha_token of
        Inl e \<Rightarrow> (Inl e, users)
      | Inr captcha_result \<Rightarrow>
          (if \<not> cap_success captcha_result \<or> float_less (cap_score captcha_result) min_captcha_score
           then (Inl (CaptchaFailedError ''reCAPTCHA verification failed''), users)
           else
             (case ur_get_by_email U users email of
                Inl e \<Rightarrow> (Inl e, users)
              | Inr (Some _) \<Rightarrow> (Inl (EmailAlreadyRegisteredError (''Email already registered: '' @ email)), users)
              | Inr None \<Rightarrow>
                  (case hash_password B salt password of
                     Inl e \<Rightarrow> (Inl e, users)
                   | Inr h \<Rightarrow>
                       (let user = email_user new_id email h now in (Inr user, ur_create U user users))))))"

definition login_with_email ::
    "bcrypt_api \<Rightarrow> 'u user_repository \<Rightarrow> 'u \<Rightarrow> string \<Rightarrow> string \<Rightarrow> exn + User" where
  "login_with_email B U users email password =
     and_then (ur_get_by_email U users email) (\<lambda>found.
       case found of
         None \<Rightarrow> Inl (InvalidCredentialsError ''Invalid email or password'')
       | Some user \<Rightarrow>
           (case u_password_hash user of
              None \<Rightarrow> Inl (InvalidCredentialsError ''Invalid email or password'')
            | Some h \<Rightarrow>
                and_then (verify_password B password h) (\<lambda>verified.
                  if verified then Inr user
                  else Inl (InvalidCredentialsError ''Invalid email or password''))))"

definition change_password ::
    "bcrypt_api \<Rightarrow> 'u user_repository \<Rightarrow> string \<Rightarrow> string \<Rightarrow> string \<Rightarrow> string \<Rightarrow> 'u \<Rightarrow> ('u, User) outcome" where
  "change_password B U salt user_id old_password new_password users =
     (case ur_get U users user_id of
        Inl e \<Rightarrow> (Inl e, users)
      | Inr None \<Rightarrow> (Inl (WrongOldPasswordError ''User not found or has no password set''), users)
      | Inr (Some user) \<Rightarrow>
          (case u_password_hash user of
             None \<Rightarrow> (Inl (WrongOldPasswordError ''User not found or has no password set''), users)
           | Some h \<Rightarrow>
               (case verify_password B old_password h of
                  Inl e \<Rightarrow> (Inl e, users)
                | Inr verified \<Rightarrow>
                    (if \<not> verified then (Inl (WrongOldPasswordError ''Old password is incorrect''), users)
                     else
                       (case hash_password B salt new_password of
                          Inl e \<Rightarrow> (Inl e, users)
                        | Inr h' \<Rightarrow>
                            (let updated = user\<lparr>u_password_hash := Some h'\<rparr>
                             in (Inr updated, ur_update U updated users)))))))"

definition login_or_register_with_hf ::
    "'u user_repository \<Rightarrow> hf_oauth_client \<Rightarrow> string \<Rightarrow> datetime \<Rightarrow> string \<Rightarrow> string \<Rightarrow> 'u \<Rightarrow> ('u, User) outcome" where
  "login_or_register_with_hf U oauth new_id now code redirect_uri users =
     (case oauth code redirect_uri of
        Inl e \<Rightarrow> (Inl e, users)
      | Inr profile \<Rightarrow>
          (case ur_get_by_hf_user_id U users (hfu_hf_user_id profile) of
             Inl e \<Rightarrow> (Inl e, users)
           | Inr (Some existing) \<Rightarrow> (Inr existing, users)
           | Inr None \<Rightarrow> (let user = hf_user new_id profile now in (Inr user, ur_create U user users))))"

lemma email_user_fields [simp]:
  "u_id (email_user i e h t) = i" "u_email (email_user i e h t) = Some e"
  "u_password_hash (email_user i e h t) = Some h" "u_hf_user_id (email_user i e h t) = None"
  "u_daily_quota_used (email_user i e h t) = 0" "u_quota_reset_date (email_user i e h t) = None"
  by (simp_all add: email_user_def)

lemma hf_user_fields [simp]:
  "u_id (hf_user i p t) = i" "u_email (hf_user i p t) = hfu_email p" "u_password_hash (hf_user i p t) = None"
  "u_hf_user_id (hf_user i p t) = Some (hfu_hf_user_id p)"
  "u_daily_quota_used (hf_user i p t) = 0" "u_quota_reset_date (hf_user i p t) = None"
  by (simp_all add: hf_user_def)

subsection \<open>The service over any user store\<close>

text \<open>The check of a password against the hash of another one.\<close>

definition same_password :: "string \<Rightarrow> string \<Rightarrow> bool" where
  "same_password p q \<longleftrightarrow> take 72 (utf8_encode p) = take 72 (utf8_encode q)"

lemma verify_same: "bcrypt_ok B \<Longrightarrow> hash_password B salt p = Inr h \<Longrightarrow> verify_password B q h = Inr (same_password q p)"
  by (simp add: verify_hashed same_password_def password_bytes_def MAX_PASSWORD_BYTES_def)

context user_store begin

lemma found_by_email:
  assumes "wf_users s" and "ur_get_by_email U s e = Inr (Some u)"
  shows "users_of s (u_id u) = Some u" and "u_email u = Some e"
  using by_email_law [OF assms(1), of e] assms(2) by auto

lemma none_by_email:
  assumes "wf_users s"
  shows "ur_get_by_email U s e = Inr None \<longleftrightarrow> (\<forall>k u. users_of s k = Some u \<longrightarrow> u_email u \<noteq> Some e)"
proof -
  obtain r where r: "ur_get_by_email U s e = Inr r"
    and law: "case r of Some u \<Rightarrow> users_of s (u_id u) = Some u \<and> u_email u = Some e
         | None \<Rightarrow> \<forall>k u. users_of s k = Some u \<longrightarrow> u_email u \<noteq> Some e"
    using by_email_law [OF assms, of e] by blast
  then show ?thesis by (cases r) auto
qed

lemma only_by_email:
  assumes wf: "wf_users s" and u: "users_of s k = Some u" "u_email u = Some e"
    and only: "\<And>k' v. users_of s k' = Some v \<Longrightarrow> u_email v = Some e \<Longrightarrow> k' = k"
  shows "ur_get_by_email U s e = Inr (Some u)"
proof -
  obtain r where r: "ur_get_by_email U s e = Inr r"
    and law: "case r of Some u \<Rightarrow> users_of s (u_id u) = Some u \<and> u_email u = Some e
         | None \<Rightarrow> \<forall>k u. users_of s k = Some u \<longrightarrow> u_email u \<noteq> Some e"
    using by_email_law [OF wf, of e] by blast
  with u obtain v where v: "r = Some v" by (cases r) auto
  with law have "u_id v = k" using only by auto
  with law v u r show ?thesis by simp
qed

lemma register_spec:
  assumes wf: "wf_users s" and run: "register_with_email B U captcha m salt i t e p tok s = (r, s')"
  shows "wf_users s' \<and>
    (\<forall>x. r = Inl x \<longrightarrow> s' = s) \<and>
    (\<forall>u. r = Inr u \<longrightarrow>
       (\<exists>c. captcha tok = Inr c \<and> cap_success c \<and> \<not> float_less (cap_score c) m) \<and>
       (\<forall>k v. users_of s k = Some v \<longrightarrow> u_email v \<noteq> Some e) \<and>
       (\<exists>h. hash_password B salt p = Inr h \<and> u = email_user i e h t) \<and>
       users_of s' = (users_of s)(i \<mapsto> u))"
proof (cases r)
  case (Inl x)
  then have "s' = s"
    using run by (auto simp: register_with_email_def Let_def split: sum.splits if_splits option.splits)
  with Inl wf show ?thesis by simp
next
  case (Inr u)
  then obtain c h where "captcha tok = Inr c" "cap_success c" "\<not> float_less (cap_score c) m"
    and none: "ur_get_by_email U s e = Inr None" and "hash_password B salt p = Inr h"
    and u: "u = email_user i e h t" "s' = ur_create U u s"
    using run by (auto simp: register_with_email_def Let_def split: sum.splits if_splits option.splits)
  moreover have "\<forall>k v. users_of s k = Some v \<longrightarrow> u_email v \<noteq> Some e"
    using none none_by_email [OF wf] by blast
  moreover have "wf_users s'" "users_of s' = (users_of s)(i \<mapsto> u)"
    using create_user_wf [OF wf] create_user_law [OF wf] u by simp_all
  ultimately show ?thesis using Inr by auto
qed

lemma change_password_spec:
  assumes wf: "wf_users s" and run: "change_password B U salt i old new s = (r, s')"
  shows "wf_users s' \<and>
    (\<forall>x. r = Inl x \<longrightarrow> s' = s) \<and>
    (\<forall>u'. r = Inr u' \<longrightarrow>
       (\<exists>u h h'. users_of s i = Some u \<and> u_password_hash u = Some h \<and> verify_password B old h = Inr True \<and>
          hash_password B salt new = Inr h' \<and> u' = u\<lparr>u_password_hash := Some h'\<rparr> \<and>
          users_of s' = (users_of s)(i \<mapsto> u')))"
proof (cases r)
  case (Inl x)
  then have "s' = s"
    using run by (auto simp: change_password_def Let_def split: sum.splits if_splits option.splits)
  with Inl wf show ?thesis by simp
next
  case (Inr u')
  then obtain u h h' where u: "users_of s i = Some u" "u_password_hash u = Some h" "verify_password B old h = Inr True"
      "hash_password B salt new = Inr h'" "u' = u\<lparr>u_password_hash := Some h'\<rparr>" "s' = ur_update U u' s"
    using run by (auto simp: change_password_def get_user_law [OF wf] Let_def split: sum.splits if_splits option.splits)
  moreover have "u_id u = i" using keyedD [OF users_keyed [OF wf] u(1)] .
  moreover have "wf_users s'" "users_of s' = (users_of s)(u_id u \<mapsto> u')"
    using update_user_wf [OF wf] update_user_law [OF wf] u by simp_all
  ultimately show ?thesis using Inr by auto
qed

lemma hf_login_spec:
  assumes wf: "wf_users s" and run: "login_or_register_with_hf U oauth i t code uri s = (r, s')"
  shows "wf_users s' \<and>
    (\<forall>u. r = Inr u \<longrightarrow>
       (\<exists>p. oauth code uri = Inr p \<and> u_hf_user_id u = Some (hfu_hf_user_id p) \<and>
          (users_of s (u_id u) = Some u \<and> s' = s \<or>
           (\<forall>k v. users_of s k = Some v \<longrightarrow> u_hf_user_id v \<noteq> Some (hfu_hf_user_id p)) \<and>
           u = hf_user i p t \<and> users_of s' = (users_of s)(i \<mapsto> u))))"
proof (cases "oauth code uri")
  case (Inl e)
  with run wf show ?thesis by (auto simp: login_or_register_with_hf_def)
next
  case (Inr p)
  obtain f where f: "ur_get_by_hf_user_id U s (hfu_hf_user_id p) = Inr f"
    and law: "case f of Some u \<Rightarrow> users_of s (u_id u) = Some u \<and> u_hf_user_id u = Some (hfu_hf_user_id p)
         | None \<Rightarrow> \<forall>k u. users_of s k = Some u \<longrightarrow> u_hf_user_id u \<noteq> Some (hfu_hf_user_id p)"
    using by_hf_user_id_law [OF wf, of "hfu_hf_user_id p"] by blast
  show ?thesis
  proof (cases f)
    case None
    with run Inr f have "r = Inr (hf_user i p t)" "s' = ur_create U (hf_user i p t) s"
      by (simp_all add: login_or_register_with_hf_def Let_def)
    with law None Inr create_user_wf [OF wf] create_user_law [OF wf] show ?thesis by simp
  next
    case (Some u)
    with run Inr f law wf show ?thesis by (auto simp: login_or_register_with_hf_def)
  qed
qed

end

subsection \<open>Properties\<close>

text \<open>
  C13: A registration that succeeds passed the captcha with the required score and took an email no
  account had; it stores one new account with an unused quota. From then on exactly the passwords
  that agree with the chosen one in the first 72 bytes of their UTF-8 encoding log in, as this
  account. A registration that fails stores nothing.
\<close>

theorem registration:
  assumes U: "user_store U users_of wf_users" and wf: "wf_users users" and bc: "bcrypt_ok B"
    and run: "register_with_email B U captcha m salt i t e p tok users = (r, users')"
  shows "(\<forall>x. r = Inl x \<longrightarrow> users' = users) \<and>
    (\<forall>u. r = Inr u \<longrightarrow>
       (\<exists>c. captcha tok = Inr c \<and> cap_success c \<and> \<not> float_less (cap_score c) m) \<and>
       (\<forall>k v. users_of users k = Some v \<longrightarrow> u_email v \<noteq> Some e) \<and>
       u_id u = i \<and> u_daily_quota_used u = 0 \<and> users_of users' = (users_of users)(i \<mapsto> u) \<and>
       (\<forall>q. login_with_email B U users' e q =
          (if take 72 (utf8_encode q) = take 72 (utf8_encode p) then Inr u
           else Inl (InvalidCredentialsError ''Invalid email or password''))))"
proof -
  note spec = user_store.register_spec [OF U wf run]
  have "login_with_email B U users' e q = (if same_password q p then Inr u
           else Inl (InvalidCredentialsError ''Invalid email or password''))" if ok: "r = Inr u" for u q
  proof -
    from spec ok obtain h where h: "hash_password B salt p = Inr h" "u = email_user i e h t"
      and new: "users_of users' = (users_of users)(i \<mapsto> u)" "\<forall>k v. users_of users k = Some v \<longrightarrow> u_email v \<noteq> Some e"
      and wf': "wf_users users'" by blast
    have "ur_get_by_email U users' e = Inr (Some u)"
      by (rule user_store.only_by_email [OF U wf', of i]) (use h new in \<open>auto split: if_splits\<close>)
    then show ?thesis using h verify_same [OF bc h(1), of q] by (simp add: login_with_email_def)
  qed
  moreover have "u_id u = i \<and> u_daily_quota_used u = 0" if "r = Inr u" for u using spec that by auto
  ultimately show ?thesis using spec unfolding same_password_def by blast
qed

theorem registration_witness:
  "\<exists>u. fst (register_with_email reference_bcrypt memory_user_repository memory_captcha_verifier MIN_CAPTCHA_SCORE
       ''salt'' ''u1'' 5 ''a@b.c'' ''secret'' ''token'' []) = Inr u \<and>
     login_with_email reference_bcrypt memory_user_repository
       (snd (register_with_email reference_bcrypt memory_user_repository memory_captcha_verifier MIN_CAPTCHA_SCORE
         ''salt'' ''u1'' 5 ''a@b.c'' ''secret'' ''token'' [])) ''a@b.c'' ''secret'' = Inr u"
proof -
  let ?run = "register_with_email reference_bcrypt memory_user_repository memory_captcha_verifier MIN_CAPTCHA_SCORE
       ''salt'' ''u1'' 5 ''a@b.c'' ''secret'' ''token'' []"
  obtain r users' where run: "?run = (r, users')" by (cases ?run) auto
  have wf: "mem_users_ok []" by (simp add: mem_users_ok_def)
  have "\<exists>u. r = Inr u"
    using run by (auto simp: register_with_email_def memory_captcha_verifier_def MIN_CAPTCHA_SCORE_def port_simps
        mem_get_by_email_def hash_password_def reference_bcrypt_def decode_ascii_def spell_ascii Let_def)
  with registration [OF memu.user_store_axioms wf reference_bcrypt_ok run] run show ?thesis by auto
qed

text \<open>
  C14: A password change that succeeds was made with a password the stored hash accepts; it replaces
  the hash and nothing else of that account, and no other account. Afterwards the account accepts
  exactly the new password, up to the 72 bytes bcrypt reads. A change that fails changes nothing.
\<close>

theorem password_change:
  assumes U: "user_store U users_of wf_users" and wf: "wf_users users" and bc: "bcrypt_ok B"
    and run: "change_password B U salt i old new users = (r, users')"
  shows "(\<forall>x. r = Inl x \<longrightarrow> users' = users) \<and>
    (\<forall>u'. r = Inr u' \<longrightarrow>
       (\<exists>u h. users_of users i = Some u \<and> u_password_hash u = Some h \<and> verify_password B old h = Inr True \<and>
          (\<exists>h'. u' = u\<lparr>u_password_hash := Some h'\<rparr> \<and> users_of users' = (users_of users)(i \<mapsto> u') \<and>
             (\<forall>q. verify_password B q h' = Inr (take 72 (utf8_encode q) = take 72 (utf8_encode new))))))"
  using user_store.change_password_spec [OF U wf run] verify_same [OF bc]
  unfolding same_password_def by metis

theorem password_change_witness:
  "\<exists>u'. fst (change_password reference_bcrypt memory_user_repository ''salt'' ''u1'' ''old'' ''new''
       [(''u1'', email_user ''u1'' ''a@b.c'' (spell ''old'') 5)]) = Inr u' \<and> u_email u' = Some ''a@b.c''"
proof -
  let ?run = "change_password reference_bcrypt memory_user_repository ''salt'' ''u1'' ''old'' ''new''
       [(''u1'', email_user ''u1'' ''a@b.c'' (spell ''old'') 5)]"
  obtain r users' where run: "?run = (r, users')" by (cases ?run) auto
  have wf: "mem_users_ok [(''u1'', email_user ''u1'' ''a@b.c'' (spell ''old'') 5)]"
    by (simp add: mem_users_ok_def dict_ok_def)
  have "\<exists>u'. r = Inr u'"
    using run by (auto simp: change_password_def port_simps verify_password_def hash_password_def encode_ascii_def
        decode_ascii_def spell_ascii reference_bcrypt_def password_bytes_def MAX_PASSWORD_BYTES_def utf8_encode_def
        utf8_char_def Let_def)
  with password_change [OF memu.user_store_axioms wf reference_bcrypt_ok run] run show ?thesis by auto
qed

text \<open>
  C15: A Hugging Face login that succeeds returns an account with the profile's user id: the stored
  one, or a new one when there was none. A second login with the same profile returns the same
  account and stores nothing, so that one Hugging Face user has one account and one quota.
\<close>

theorem hf_login_idempotent:
  assumes U: "user_store U users_of wf_users" and wf: "wf_users users"
    and one: "\<forall>k k' v v'. users_of users k = Some v \<longrightarrow> users_of users k' = Some v' \<longrightarrow> u_hf_user_id v \<noteq> None \<longrightarrow>
       u_hf_user_id v = u_hf_user_id v' \<longrightarrow> k = k'"
    and profile: "oauth code uri = Inr p" "oauth code' uri' = Inr p'" "hfu_hf_user_id p' = hfu_hf_user_id p"
    and run: "login_or_register_with_hf U oauth i t code uri users = (r, users')"
  shows "\<exists>u. r = Inr u \<and> users_of users' (u_id u) = Some u \<and> u_hf_user_id u = Some (hfu_hf_user_id p) \<and>
    login_or_register_with_hf U oauth i' t' code' uri' users' = (Inr u, users')"
proof -
  note spec = user_store.hf_login_spec [OF U wf run]
  obtain f where f: "ur_get_by_hf_user_id U users (hfu_hf_user_id p) = Inr f"
    using user_store.by_hf_user_id_law [OF U wf] by blast
  then obtain u where u: "r = Inr u" using run profile(1)
    by (cases f) (auto simp: login_or_register_with_hf_def Let_def)
  with spec profile(1) have hf: "u_hf_user_id u = Some (hfu_hf_user_id p)" and wf': "wf_users users'"
    and stored: "users_of users (u_id u) = Some u \<and> users' = users \<or>
        (\<forall>k v. users_of users k = Some v \<longrightarrow> u_hf_user_id v \<noteq> Some (hfu_hf_user_id p)) \<and>
        u = hf_user i p t \<and> users_of users' = (users_of users)(i \<mapsto> u)" by auto
  from stored have in': "users_of users' (u_id u) = Some u" by auto
  have only: "k = u_id u" if "users_of users' k = Some v" "u_hf_user_id v = Some (hfu_hf_user_id p)" for k v
    using stored
  proof
    assume "users_of users (u_id u) = Some u \<and> users' = users"
    then have "users_of users (u_id u) = Some u" "users_of users k = Some v" using that by simp_all
    with one have key: "u_hf_user_id v \<noteq> None \<Longrightarrow> u_hf_user_id v = u_hf_user_id u \<Longrightarrow> k = u_id u" by blast
    show ?thesis using that(2) hf by (intro key) simp_all
  next
    assume a: "(\<forall>k v. users_of users k = Some v \<longrightarrow> u_hf_user_id v \<noteq> Some (hfu_hf_user_id p)) \<and>
        u = hf_user i p t \<and> users_of users' = (users_of users)(i \<mapsto> u)"
    then show ?thesis using that by (cases "k = i") auto
  qed
  obtain f' where f': "ur_get_by_hf_user_id U users' (hfu_hf_user_id p) = Inr f'"
    and law: "case f' of Some u \<Rightarrow> users_of users' (u_id u) = Some u \<and> u_hf_user_id u = Some (hfu_hf_user_id p)
         | None \<Rightarrow> \<forall>k u. users_of users' k = Some u \<longrightarrow> u_hf_user_id u \<noteq> Some (hfu_hf_user_id p)"
    using user_store.by_hf_user_id_law [OF U wf', of "hfu_hf_user_id p"] by blast
  with in' hf obtain v where v: "f' = Some v" by (cases f') auto
  with law have found: "users_of users' (u_id v) = Some v" "u_hf_user_id v = Some (hfu_hf_user_id p)" by simp_all
  then have "u_id v = u_id u" by (rule only)
  with found(1) in' have "v = u" by (metis option.inject)
  with f' v profile have "login_or_register_with_hf U oauth i' t' code' uri' users' = (Inr u, users')"
    by (simp add: login_or_register_with_hf_def)
  with u hf in' show ?thesis by blast
qed

definition demo_oauth :: hf_oauth_client where
  "demo_oauth code redirect_uri = Inr \<lparr>hfu_hf_user_id = ''42'', hfu_username = ''ada'', hfu_email = None\<rparr>"

theorem hf_login_idempotent_witness:
  "\<exists>u. login_or_register_with_hf memory_user_repository demo_oauth ''u2'' 9 ''c2'' ''uri''
         (snd (login_or_register_with_hf memory_user_repository demo_oauth ''u1'' 5 ''c1'' ''uri'' [])) =
       (Inr u, snd (login_or_register_with_hf memory_user_repository demo_oauth ''u1'' 5 ''c1'' ''uri'' [])) \<and>
     u_hf_user_id u = Some ''42''"
proof -
  let ?run = "login_or_register_with_hf memory_user_repository demo_oauth ''u1'' 5 ''c1'' ''uri'' []"
  obtain r users' where run: "?run = (r, users')" by (cases ?run) auto
  have wf: "mem_users_ok []" by (simp add: mem_users_ok_def)
  have "\<exists>u. r = Inr u \<and> map_of users' (u_id u) = Some u \<and> u_hf_user_id u = Some ''42'' \<and>
      login_or_register_with_hf memory_user_repository demo_oauth ''u2'' 9 ''c2'' ''uri'' users' = (Inr u, users')"
    using hf_login_idempotent [OF memu.user_store_axioms wf _ _ _ _ run, of _ "''c2''" "''uri''" _ "''u2''" 9]
    by (simp add: demo_oauth_def)
  with run show ?thesis by auto
qed

end
