(* ===== verification/Heartbeat.thy ===== *)
theory Heartbeat
  imports Models
begin

text \<open>
  \<open>common/domain/heartbeat.py\<close>: the timeouts of the two monitored statuses, the timeout test and
  the test for a real change of \<open>progress.json\<close>.
\<close>

definition INITIALIZING_TIMEOUT :: timedelta where
  "INITIALIZING_TIMEOUT = minutes 5"

definition TRAINING_TIMEOUT :: timedelta where
  "TRAINING_TIMEOUT = minutes 2"

definition timeout_for_status :: "JobStatus \<Rightarrow> timedelta option" where
  "timeout_for_status s =
     map_of [(INITIALIZING, INITIALIZING_TIMEOUT), (TRAINING, TRAINING_TIMEOUT)] s"

definition is_timed_out :: "JobStatus \<Rightarrow> datetime option \<Rightarrow> datetime \<Rightarrow> bool" where
  "is_timed_out s heartbeat_at now =
     (case (timeout_for_status s, heartbeat_at) of
        (Some threshold, Some hb) \<Rightarrow> now - hb > threshold
      | _ \<Rightarrow> False)"

definition progress_changed :: "Progress option \<Rightarrow> Progress \<Rightarrow> bool" where
  "progress_changed previous current =
     (case previous of
        None \<Rightarrow> True
      | Some p \<Rightarrow> \<not> (p_step p = p_step current \<and> float_eq (p_loss p) (p_loss current)))"

lemma timeout_for_status_simps [simp]:
  "timeout_for_status QUEUED = None"
  "timeout_for_status INITIALIZING = Some INITIALIZING_TIMEOUT"
  "timeout_for_status TRAINING = Some TRAINING_TIMEOUT"
  "timeout_for_status COMPLETED = None"
  "timeout_for_status FAILED = None"
  "timeout_for_status CANCELLED = None"
  by (simp_all add: timeout_for_status_def)

lemma is_timed_out_monitored:
  "is_timed_out s hb now \<Longrightarrow> s = INITIALIZING \<or> s = TRAINING"
  by (cases s) (auto simp: is_timed_out_def split: option.splits)

lemma is_timed_out_iff:
  "is_timed_out s (Some hb) now \<longleftrightarrow>
     s = INITIALIZING \<and> 300000000 < now - hb \<or> s = TRAINING \<and> 120000000 < now - hb"
  by (cases s)
     (auto simp: is_timed_out_def INITIALIZING_TIMEOUT_def TRAINING_TIMEOUT_def minutes_def seconds_def)

lemma is_timed_out_None [simp]: "\<not> is_timed_out s None now"
  by (simp add: is_timed_out_def split: option.splits)

lemma fresh_heartbeat_not_timed_out: "now - hb \<le> TRAINING_TIMEOUT \<Longrightarrow> \<not> is_timed_out s (Some hb) now"
  by (cases s)
     (auto simp: is_timed_out_def INITIALIZING_TIMEOUT_def TRAINING_TIMEOUT_def minutes_def seconds_def)

text \<open>
  A job counts as timed out exactly when it has a heartbeat and is \<open>initializing\<close> with more
  than five minutes, or \<open>training\<close> with more than two minutes, since then; the test is stable (it
  stays true as time passes) and no queued or finished job is ever timed out.
\<close>

theorem timed_out_exactly:
  "is_timed_out s hb now \<longleftrightarrow>
     (\<exists>t. hb = Some t \<and>
        (s = INITIALIZING \<and> now - t > 5 * 60 * 1000000 \<or> s = TRAINING \<and> now - t > 2 * 60 * 1000000))"
  by (cases hb) (simp_all add: is_timed_out_iff)

end
