(* ===== verification/Timeout_Service.thy ===== *)
theory Timeout_Service
  imports Memory_Adapters Heartbeat
begin

text \<open>
  \<open>backend/services/timeout_service.py\<close>: the sweep Cloud Scheduler triggers. The loop over the
  candidates listed at the start writes each failed job before it looks at the next one.
\<close>

definition TIMEOUT_ERROR_MESSAGE :: string where
  "TIMEOUT_ERROR_MESSAGE = ''Job timed out: no heartbeat update within the allowed window''"

definition MONITORED_STATUSES :: "JobStatus list" where
  "MONITORED_STATUSES = [INITIALIZING, TRAINING]"

fun fail_timed_out :: "'j job_repository \<Rightarrow> datetime \<Rightarrow> Job list \<Rightarrow> 'j \<Rightarrow> ('j, Job list) outcome" where
  "fail_timed_out R now [] jobs = (Inr [], jobs)"
| "fail_timed_out R now (job # candidates) jobs =
     (if is_timed_out (j_status job) (j_heartbeat_at job) now
      then
        (case transition job FAILED now of
           Inl e \<Rightarrow> (Inl e, jobs)
         | Inr moved \<Rightarrow>
             (let failed_job = moved\<lparr>j_error_message := Some TIMEOUT_ERROR_MESSAGE\<rparr>;
                  (r, jobs') = fail_timed_out R now candidates (jr_update R failed_job jobs)
              in (and_then r (\<lambda>failed_jobs. Inr (failed_job # failed_jobs)), jobs')))
      else fail_timed_out R now candidates jobs)"

definition check_and_fail_timed_out_jobs ::
    "'j job_repository \<Rightarrow> datetime \<Rightarrow> 'j \<Rightarrow> ('j, Job list) outcome" where
  "check_and_fail_timed_out_jobs R now jobs =
     (case jr_list_by_statuses R jobs MONITORED_STATUSES of
        Inl e \<Rightarrow> (Inl e, jobs)
      | Inr candidates \<Rightarrow> fail_timed_out R now candidates jobs)"

lemma mem_monitored [status_simps]: "s \<in> set MONITORED_STATUSES \<longleftrightarrow> s = INITIALIZING \<or> s = TRAINING"
  by (simp add: MONITORED_STATUSES_def)

definition timed_out_job :: "datetime \<Rightarrow> Job \<Rightarrow> bool" where
  "timed_out_job now j \<longleftrightarrow> is_timed_out (j_status j) (j_heartbeat_at j) now"

definition timeout_version :: "datetime \<Rightarrow> Job \<Rightarrow> Job" where
  "timeout_version now j =
     j\<lparr>j_status := FAILED, j_updated_at := now, j_error_message := Some TIMEOUT_ERROR_MESSAGE\<rparr>"

lemma timed_out_can_fail: "timed_out_job now j \<Longrightarrow> can_transition (j_status j) FAILED"
  by (auto simp: timed_out_job_def status_simps dest: is_timed_out_monitored)

lemma timeout_version_id [simp]: "j_id (timeout_version now j) = j_id j"
  by (simp add: timeout_version_def)

lemma timeout_version_evolves: "timed_out_job now j \<Longrightarrow> evolves_to j (timeout_version now j)"
proof -
  assume "timed_out_job now j"
  then have "can_transition (j_status j) FAILED" by (rule timed_out_can_fail)
  then show ?thesis
    by (intro evolves_to_writeI)
       (cases "j_status j"; auto simp: timeout_version_def status_simps same_submission_def
          intro: status_reaches_one)+
qed

context job_store begin

text \<open>The sweep replaces exactly the timed-out jobs, and never raises.\<close>

lemma fail_timed_out_spec:
  assumes "wf_jobs s"
  shows "\<exists>s'. fail_timed_out R now js s = (Inr (map (timeout_version now) (filter (timed_out_job now) js)), s') \<and>
    wf_jobs s' \<and>
    jobs_of s' = store_all j_id (map (timeout_version now) (filter (timed_out_job now) js)) (jobs_of s)"
  using assms
proof (induction js arbitrary: s)
  case (Cons j js)
  show ?case
  proof (cases "timed_out_job now j")
    case False
    with Cons show ?thesis by (simp add: timed_out_job_def)
  next
    case True
    have wf: "wf_jobs (jr_update R (timeout_version now j) s)"
      using Cons.prems by (rule update_job_wf)
    have "transition j FAILED now = Inr (j\<lparr>j_status := FAILED, j_updated_at := now\<rparr>)"
      using True by (simp add: timed_out_can_fail)
    then have "fail_timed_out R now (j # js) s =
        (let (r, s') = fail_timed_out R now js (jr_update R (timeout_version now j) s)
         in (and_then r (\<lambda>l. Inr (timeout_version now j # l)), s'))"
      using True by (simp add: timed_out_job_def timeout_version_def Let_def)
    moreover have "jobs_of (jr_update R (timeout_version now j) s) =
        (jobs_of s)(j_id j \<mapsto> timeout_version now j)"
      using update_job_law [OF Cons.prems] by simp
    moreover obtain s' where "fail_timed_out R now js (jr_update R (timeout_version now j) s) =
        (Inr (map (timeout_version now) (filter (timed_out_job now) js)), s')" and "wf_jobs s'"
      and "jobs_of s' = store_all j_id (map (timeout_version now) (filter (timed_out_job now) js))
        (jobs_of (jr_update R (timeout_version now j) s))"
      using Cons.IH [OF wf] by blast
    ultimately show ?thesis using True by (simp del: fail_timed_out.simps)
  qed
qed simp

lemma sweep_spec:
  assumes wf: "wf_jobs s"
  shows "\<exists>failed s'. check_and_fail_timed_out_jobs R now s = (Inr failed, s') \<and> wf_jobs s' \<and>
    jobs_of s' = (\<lambda>k. case jobs_of s k of
        None \<Rightarrow> None
      | Some j \<Rightarrow> Some (if timed_out_job now j then timeout_version now j else j)) \<and>
    (\<forall>j'. j' \<in> set failed \<longleftrightarrow>
       (\<exists>k j. jobs_of s k = Some j \<and> timed_out_job now j \<and> j' = timeout_version now j))"
proof -
  obtain js where js: "jr_list_by_statuses R s MONITORED_STATUSES = Inr js"
    and en: "enumerates j_id (jobs_of s) (\<lambda>j. j_status j \<in> set MONITORED_STATUSES) js"
    using wf by (rule listed_by_statuses)
  let ?failed = "map (timeout_version now) (filter (timed_out_job now) js)"
  obtain s' where s': "fail_timed_out R now js s = (Inr ?failed, s')" "wf_jobs s'"
    "jobs_of s' = store_all j_id ?failed (jobs_of s)"
    using fail_timed_out_spec [OF wf] by blast
  have key: "j_id j = k" if "jobs_of s k = Some j" for k j
    using keyedD [OF jobs_keyed [OF wf] that] .
  have mem: "j \<in> set js" if "jobs_of s k = Some j" "timed_out_job now j" for k j
    using enumeratesI_mem [OF en jobs_keyed [OF wf] that(1)] that(2)
    by (auto simp: status_simps timed_out_job_def dest: is_timed_out_monitored)
  have dist: "distinct (map j_id ?failed)"
    using enumeratesD(1) [OF en] by (simp add: comp_def distinct_map_filterI)
  have ids: "k \<in> j_id ` set ?failed \<longleftrightarrow> (\<exists>j. jobs_of s k = Some j \<and> timed_out_job now j)" for k
    using mem key enumeratesD(2) [OF en] by (fastforce simp: image_iff)
  have "jobs_of s' k = (case jobs_of s k of None \<Rightarrow> None
      | Some j \<Rightarrow> Some (if timed_out_job now j then timeout_version now j else j))" for k
  proof (cases "\<exists>j. jobs_of s k = Some j \<and> timed_out_job now j")
    case True
    then obtain j where j: "jobs_of s k = Some j" "timed_out_job now j" by blast
    then have "timeout_version now j \<in> set ?failed" using mem by simp
    with dist have "store_all j_id ?failed (jobs_of s) (j_id (timeout_version now j)) =
        Some (timeout_version now j)"
      by (rule store_all_mem)
    with j key [OF j(1)] s'(3) show ?thesis by simp
  next
    case False
    then have "k \<notin> j_id ` set ?failed" using ids by blast
    then have "jobs_of s' k = jobs_of s k" using s'(3) by (simp add: store_all_other)
    with False show ?thesis by (auto split: option.splits)
  qed
  moreover have "\<forall>j'. j' \<in> set ?failed \<longleftrightarrow>
      (\<exists>k j. jobs_of s k = Some j \<and> timed_out_job now j \<and> j' = timeout_version now j)"
    using mem enumeratesD(2) [OF en] by (auto simp: image_iff) blast
  ultimately show ?thesis
    using s' js by (auto simp: check_and_fail_timed_out_jobs_def)
qed

lemma sweep_advances:
  assumes wf: "wf_jobs s"
  shows "jobs_advance (jobs_of s) (jobs_of (snd (check_and_fail_timed_out_jobs R now s)))"
  using sweep_spec [OF wf, of now]
  by (auto simp: jobs_advance_def dom_def timeout_version_evolves split: option.splits if_splits)

lemma sweep_wf: "wf_jobs s \<Longrightarrow> wf_jobs (snd (check_and_fail_timed_out_jobs R now s))"
  using sweep_spec [of s now] by auto

end

end
