(* ===== verification/Web_Adapters.thy ===== *)
theory Web_Adapters
  imports Memory_Adapters
begin

text \<open>
  The adapters over web APIs: \<open>backend/adapters/recaptcha/verifier.py\<close>,
  \<open>backend/adapters/hf/hf_oauth_client.py\<close> and \<open>backend/adapters/hf/hf_hub_client.py\<close>. The HTTP client
  and the \<open>huggingface_hub\<close> package are not code of the repository: the calls the adapters make are
  the parameters \<open>http_client\<close> and \<open>hub_api\<close>.
\<close>

subsection \<open>HTTP\<close>

text \<open>A response with what \<open>json()\<close> returns or raises; a call that fails to connect raises.\<close>

record http_response =
  rs_status_code :: int
  rs_text :: string
  rs_json :: "exn + json"

record http_client =
  hc_post :: "string \<Rightarrow> (string \<times> string) list \<Rightarrow> exn + http_response"
  hc_get :: "string \<Rightarrow> (string \<times> string) list \<Rightarrow> exn + http_response"

text \<open>\<open>body.get(key)\<close> with a default, \<open>bool(value)\<close> and \<open>float(value)\<close>.\<close>

fun json_get :: "json \<Rightarrow> string \<Rightarrow> json \<Rightarrow> exn + json" where
  "json_get (JObj d) key fallback = Inr (case map_of d key of Some v \<Rightarrow> v | None \<Rightarrow> fallback)"
| "json_get _ key fallback = Inl (AttributeError ''get'')"

fun json_bool :: "json \<Rightarrow> bool" where
  "json_bool JNull = False"
| "json_bool (JBool b) = b"
| "json_bool (JInt n) = (n \<noteq> 0)"
| "json_bool (JFloat x) = (x \<noteq> Fin 0)"
| "json_bool (JStr s) = (s \<noteq> [])"
| "json_bool (JArr vs) = (vs \<noteq> [])"
| "json_bool (JObj d) = (d \<noteq> [])"

text \<open>\<open>float(text)\<close> of a string is a parameter: the service never answers with one.\<close>

fun to_float :: "(string \<Rightarrow> exn + pyfloat) \<Rightarrow> json \<Rightarrow> exn + pyfloat" where
  "to_float float_of_text (JFloat x) = Inr x"
| "to_float float_of_text (JInt n) = Inr (Fin (of_int n))"
| "to_float float_of_text (JBool b) = Inr (Fin (if b then 1 else 0))"
| "to_float float_of_text (JStr s) = float_of_text s"
| "to_float float_of_text _ = Inl (TypeError ''float'')"

subsection \<open>reCAPTCHA\<close>

definition SITEVERIFY_URL :: string where
  "SITEVERIFY_URL = ''https://www.google.com/recaptcha/api/siteverify''"

definition recaptcha_verify ::
    "http_client \<Rightarrow> (string \<Rightarrow> exn + pyfloat) \<Rightarrow> string \<Rightarrow> captcha_verifier" where
  "recaptcha_verify http float_of_text secret_key token =
     and_then (hc_post http SITEVERIFY_URL [(''secret'', secret_key), (''response'', token)]) (\<lambda>response.
     and_then (rs_json response) (\<lambda>body.
     and_then (json_get body ''success'' JNull) (\<lambda>success.
     and_then (and_then (json_get body ''score'' (JFloat (Fin 0))) (to_float float_of_text)) (\<lambda>score.
       Inr \<lparr>cap_success = json_bool success, cap_score = score\<rparr>))))"

subsection \<open>Hugging Face login\<close>

definition TOKEN_URL :: string where "TOKEN_URL = ''https://huggingface.co/oauth/token''"
definition USERINFO_URL :: string where "USERINFO_URL = ''https://huggingface.co/oauth/userinfo''"

text \<open>
  \<open>str(value)\<close>; the text of a float or a container is a parameter. The profile's fields are typed
  here: a name or an email that is not text is a \<open>TypeError\<close>, where Python would carry it on.
\<close>

fun json_str :: "(json \<Rightarrow> string) \<Rightarrow> json \<Rightarrow> string" where
  "json_str repr (JStr s) = s"
| "json_str repr (JInt n) = str_int n"
| "json_str repr (JBool b) = (if b then ''True'' else ''False'')"
| "json_str repr JNull = ''None''"
| "json_str repr v = repr v"

fun json_text :: "json \<Rightarrow> exn + string" where
  "json_text (JStr s) = Inr s"
| "json_text _ = Inl (TypeError ''str'')"

fun json_optional_text :: "json \<Rightarrow> exn + string option" where
  "json_optional_text JNull = Inr None"
| "json_optional_text v = and_then (json_text v) (\<lambda>s. Inr (Some s))"

definition exchange_code_for_user ::
    "http_client \<Rightarrow> (json \<Rightarrow> string) \<Rightarrow> string \<Rightarrow> string \<Rightarrow> hf_oauth_client" where
  "exchange_code_for_user http repr client_id client_secret code redirect_uri =
     and_then (hc_post http TOKEN_URL
        [(''grant_type'', ''authorization_code''), (''code'', code), (''redirect_uri'', redirect_uri),
         (''client_id'', client_id), (''client_secret'', client_secret)]) (\<lambda>token_response.
     if rs_status_code token_response \<noteq> 200
     then Inl (OAuthExchangeError (''HF OAuth token exchange failed: '' @ rs_text token_response))
     else
       and_then (and_then (rs_json token_response) (\<lambda>v. json_item v ''access_token'')) (\<lambda>access_token.
       and_then (hc_get http USERINFO_URL [(''Authorization'', ''Bearer '' @ json_str repr access_token)])
         (\<lambda>userinfo_response.
       if rs_status_code userinfo_response \<noteq> 200
       then Inl (OAuthExchangeError (''HF OAuth userinfo request failed: '' @ rs_text userinfo_response))
       else
         and_then (rs_json userinfo_response) (\<lambda>userinfo.
         and_then (json_item userinfo ''sub'') (\<lambda>sub.
         and_then (and_then (json_get userinfo ''name'' (JStr [])) (json_get userinfo ''preferred_username'')) (\<lambda>name.
         and_then (json_text name) (\<lambda>username.
         and_then (and_then (json_get userinfo ''email'' JNull) json_optional_text) (\<lambda>email.
           Inr \<lparr>hfu_hf_user_id = json_str repr sub, hfu_username = username, hfu_email = email\<rparr>))))))))"

text \<open>What an accepted login tells: the provider answered both requests with 200, and the account id is its \<open>sub\<close>.\<close>

lemma exchange_Inr:
  assumes "exchange_code_for_user http repr client_id client_secret code uri = Inr p"
  obtains t v a u info sub where
    "hc_post http TOKEN_URL [(''grant_type'', ''authorization_code''), (''code'', code), (''redirect_uri'', uri),
         (''client_id'', client_id), (''client_secret'', client_secret)] = Inr t" "rs_status_code t = 200"
    "rs_json t = Inr v" "json_item v ''access_token'' = Inr a"
    "hc_get http USERINFO_URL [(''Authorization'', ''Bearer '' @ json_str repr a)] = Inr u" "rs_status_code u = 200"
    "rs_json u = Inr info" "json_item info ''sub'' = Inr sub" "hfu_hf_user_id p = json_str repr sub"
  using assms by (auto simp: exchange_code_for_user_def and_then_Inr_iff split: if_splits)

subsection \<open>Hugging Face Hub\<close>

text \<open>
  The calls of \<open>huggingface_hub\<close> and the two exceptions the adapter translates.
  \<open>ha_file_bytes\<close> is \<open>hf_hub_download\<close> and the reading of the file it names.
\<close>

datatype hub_error = RepositoryNotFoundError | EntryNotFoundError | OtherHubError exn

record hub_api =
  ha_repo_exists :: "string \<Rightarrow> hub_error + bool"
  ha_list_repo_files :: "string \<Rightarrow> hub_error + string list"
  ha_file_bytes :: "string \<Rightarrow> string \<Rightarrow> hub_error + blob"
  ha_snapshot_download :: "string \<Rightarrow> path \<Rightarrow> fsys \<Rightarrow> (hub_error + unit) \<times> fsys"

text \<open>An exception the adapter does not catch reaches its caller as it is.\<close>

fun hub_exn :: "hub_error \<Rightarrow> exn" where
  "hub_exn RepositoryNotFoundError = ExternalError ''RepositoryNotFoundError''"
| "hub_exn EntryNotFoundError = ExternalError ''EntryNotFoundError''"
| "hub_exn (OtherHubError e) = e"

definition real_repo_exists :: "hub_api \<Rightarrow> string \<Rightarrow> exn + bool" where
  "real_repo_exists A repo_id = (case ha_repo_exists A repo_id of Inl e \<Rightarrow> Inl (hub_exn e) | Inr b \<Rightarrow> Inr b)"

definition real_list_repo_files :: "hub_api \<Rightarrow> string \<Rightarrow> exn + string list" where
  "real_list_repo_files A repo_id =
     (case ha_list_repo_files A repo_id of
        Inl RepositoryNotFoundError \<Rightarrow> Inl (FileNotFoundError repo_id)
      | Inl e \<Rightarrow> Inl (hub_exn e)
      | Inr files \<Rightarrow> Inr files)"

definition real_get_repo_file_bytes :: "hub_api \<Rightarrow> string \<Rightarrow> string \<Rightarrow> exn + blob" where
  "real_get_repo_file_bytes A repo_id path_in_repo =
     (case ha_file_bytes A repo_id path_in_repo of
        Inl RepositoryNotFoundError \<Rightarrow> Inl (FileNotFoundError (repo_id @ '':'' @ path_in_repo))
      | Inl EntryNotFoundError \<Rightarrow> Inl (FileNotFoundError (repo_id @ '':'' @ path_in_repo))
      | Inl e \<Rightarrow> Inl (hub_exn e)
      | Inr content \<Rightarrow> Inr content)"

definition real_download_dataset :: "hub_api \<Rightarrow> string \<Rightarrow> path \<Rightarrow> fsys \<Rightarrow> (fsys, unit) outcome" where
  "real_download_dataset A repo_id target_dir fs =
     (case ha_snapshot_download A repo_id target_dir fs of
        (Inl RepositoryNotFoundError, fs') \<Rightarrow> (Inl (FileNotFoundError repo_id), fs')
      | (Inl e, fs') \<Rightarrow> (Inl (hub_exn e), fs')
      | (Inr u, fs') \<Rightarrow> (Inr u, fs'))"

definition real_hf_hub_client :: "hub_api \<Rightarrow> hf_hub_client" where
  "real_hf_hub_client A =
     \<lparr>hh_repo_exists = real_repo_exists A,
      hh_list_repo_files = real_list_repo_files A,
      hh_get_repo_file_bytes = real_get_repo_file_bytes A,
      hh_download_dataset = real_download_dataset A\<rparr>"

lemma real_hf_hub_client_simps [port_simps]:
  "hh_repo_exists (real_hf_hub_client A) = real_repo_exists A"
  "hh_list_repo_files (real_hf_hub_client A) = real_list_repo_files A"
  "hh_get_repo_file_bytes (real_hf_hub_client A) = real_get_repo_file_bytes A"
  "hh_download_dataset (real_hf_hub_client A) = real_download_dataset A"
  by (simp_all add: real_hf_hub_client_def)

end
