(* ===== verification/Firestore_Adapters.thy ===== *)
theory Firestore_Adapters
  imports Ports
begin

text \<open>
  \<open>backend/adapters/firestore\<close>: the translation of jobs and users to Firestore documents and the
  repositories over a collection. The Firestore client is a third party package: it is the
  record \<open>firestore_collection\<close> of the calls the adapters make on one collection, and
  \<open>firestore_ok\<close> states the documented behaviour they rely on (a document read returns what was
  last set, an equality or membership query streams exactly the matching documents, in the order
  asked for). \<open>firestore_job_store\<close> and \<open>firestore_user_store\<close> show that under this hypothesis
  the adapters satisfy the contracts \<open>job_store\<close> and \<open>user_store\<close>, like the in-memory ones.

  A document field holds one of Firestore's value types. A Python dataclass would accept a value
  of the wrong type; the model's records are typed, so reading one is a \<open>TypeError\<close> here.
\<close>

datatype fsval =
    FNull
  | FBool bool
  | FInt int
  | FFloat pyfloat
  | FStr string
  | FTime datetime
  | FIsoDate date
  | FMap "(string \<times> fsval) list"

type_synonym doc = "(string \<times> fsval) list"

definition fs_optional :: "('a \<Rightarrow> fsval) \<Rightarrow> 'a option \<Rightarrow> fsval" where
  "fs_optional f x = (case x of None \<Rightarrow> FNull | Some v \<Rightarrow> f v)"

definition progress_to_doc :: "Progress \<Rightarrow> doc" where
  "progress_to_doc p =
     [(''step'', FInt (p_step p)),
      (''total_steps'', FInt (p_total_steps p)),
      (''loss'', FFloat (p_loss p)),
      (''updated_at'', FTime (p_updated_at p))]"

definition job_to_doc :: "Job \<Rightarrow> doc" where
  "job_to_doc job =
     [(''user_id'', FStr (j_user_id job)),
      (''policy'', FStr (policy_value (j_policy job))),
      (''source_type'', FStr (source_type_value (j_source_type job))),
      (''source_ref'', FStr (j_source_ref job)),
      (''training_steps'', FInt (j_training_steps job)),
      (''status'', FStr (status_value (j_status job))),
      (''container_id'', fs_optional FStr (j_container_id job)),
      (''heartbeat_at'', fs_optional FTime (j_heartbeat_at job)),
      (''progress'', fs_optional (\<lambda>p. FMap (progress_to_doc p)) (j_progress job)),
      (''cancel_requested'', FBool (j_cancel_requested job)),
      (''checkpoint_gcs_path'', fs_optional FStr (j_checkpoint_gcs_path job)),
      (''error_message'', fs_optional FStr (j_error_message job)),
      (''created_at'', FTime (j_created_at job)),
      (''updated_at'', FTime (j_updated_at job))]"

text \<open>\<open>doc[key]\<close> and \<open>doc.get(key)\<close>, with the type the model's record wants.\<close>

definition need :: "(fsval \<Rightarrow> 'a option) \<Rightarrow> doc \<Rightarrow> string \<Rightarrow> exn + 'a" where
  "need f d key =
     (case map_of d key of
        None \<Rightarrow> Inl (KeyError key)
      | Some v \<Rightarrow> (case f v of Some x \<Rightarrow> Inr x | None \<Rightarrow> Inl (TypeError key)))"

definition maybe :: "(fsval \<Rightarrow> 'a option) \<Rightarrow> doc \<Rightarrow> string \<Rightarrow> exn + 'a option" where
  "maybe f d key =
     (case map_of d key of
        None \<Rightarrow> Inr None
      | Some v \<Rightarrow>
          (if v = FNull then Inr None
           else (case f v of Some x \<Rightarrow> Inr (Some x) | None \<Rightarrow> Inl (TypeError key))))"

fun as_str :: "fsval \<Rightarrow> string option" where
  "as_str (FStr s) = Some s" | "as_str _ = None"

fun as_int :: "fsval \<Rightarrow> int option" where
  "as_int (FInt i) = Some i" | "as_int _ = None"

fun as_float :: "fsval \<Rightarrow> pyfloat option" where
  "as_float (FFloat x) = Some x" | "as_float (FInt i) = Some (Fin (of_int i))" | "as_float _ = None"

fun as_bool :: "fsval \<Rightarrow> bool option" where
  "as_bool (FBool b) = Some b" | "as_bool _ = None"

fun as_time :: "fsval \<Rightarrow> datetime option" where
  "as_time (FTime t) = Some t" | "as_time _ = None"

fun as_iso_date :: "fsval \<Rightarrow> date option" where
  "as_iso_date (FIsoDate d) = Some d" | "as_iso_date _ = None"

fun as_map :: "fsval \<Rightarrow> doc option" where
  "as_map (FMap d) = Some d" | "as_map _ = None"

definition doc_to_progress :: "doc \<Rightarrow> exn + Progress" where
  "doc_to_progress d =
     and_then (need as_int d ''step'') (\<lambda>step.
     and_then (need as_int d ''total_steps'') (\<lambda>total_steps.
     and_then (need as_float d ''loss'') (\<lambda>loss.
     and_then (need as_time d ''updated_at'') (\<lambda>updated_at.
       Inr \<lparr>p_step = step, p_total_steps = total_steps, p_loss = loss, p_updated_at = updated_at\<rparr>))))"

definition doc_progress :: "doc \<Rightarrow> exn + Progress option" where
  "doc_progress d =
     and_then (maybe as_map d ''progress'') (\<lambda>p.
       case p of
         None \<Rightarrow> Inr None
       | Some pd \<Rightarrow> (if pd = [] then Inr None else and_then (doc_to_progress pd) (\<lambda>x. Inr (Some x))))"

definition doc_to_job :: "string \<Rightarrow> doc \<Rightarrow> exn + Job" where
  "doc_to_job job_id d =
     and_then (doc_progress d) (\<lambda>progress.
     and_then (need as_str d ''user_id'') (\<lambda>user_id.
     and_then (and_then (need as_str d ''policy'') policy_of_value) (\<lambda>policy.
     and_then (and_then (need as_str d ''source_type'') source_type_of_value) (\<lambda>source_type.
     and_then (need as_str d ''source_ref'') (\<lambda>source_ref.
     and_then (need as_int d ''training_steps'') (\<lambda>training_steps.
     and_then (and_then (need as_str d ''status'') status_of_value) (\<lambda>status.
     and_then (maybe as_str d ''container_id'') (\<lambda>container_id.
     and_then (maybe as_time d ''heartbeat_at'') (\<lambda>heartbeat_at.
     and_then (if map_of d ''cancel_requested'' = None then Inr False
               else need as_bool d ''cancel_requested'') (\<lambda>cancel_requested.
     and_then (maybe as_str d ''checkpoint_gcs_path'') (\<lambda>checkpoint_gcs_path.
     and_then (maybe as_str d ''error_message'') (\<lambda>error_message.
     and_then (need as_time d ''created_at'') (\<lambda>created_at.
     and_then (need as_time d ''updated_at'') (\<lambda>updated_at.
       Inr \<lparr>j_id = job_id, j_user_id = user_id, j_policy = policy, j_source_type = source_type,
            j_source_ref = source_ref, j_training_steps = training_steps, j_status = status,
            j_container_id = container_id, j_heartbeat_at = heartbeat_at, j_progress = progress,
            j_cancel_requested = cancel_requested, j_checkpoint_gcs_path = checkpoint_gcs_path,
            j_error_message = error_message, j_created_at = created_at,
            j_updated_at = updated_at\<rparr>))))))))))))))"

definition user_to_doc :: "User \<Rightarrow> doc" where
  "user_to_doc user =
     [(''auth_provider'', FStr (provider_value (u_auth_provider user))),
      (''email'', fs_optional FStr (u_email user)),
      (''password_hash'', fs_optional FStr (u_password_hash user)),
      (''hf_user_id'', fs_optional FStr (u_hf_user_id user)),
      (''daily_quota_used'', FInt (u_daily_quota_used user)),
      (''quota_reset_date'', fs_optional FIsoDate (u_quota_reset_date user)),
      (''created_at'', FTime (u_created_at user))]"

definition doc_to_user :: "string \<Rightarrow> doc \<Rightarrow> exn + User" where
  "doc_to_user user_id d =
     and_then (and_then (need as_str d ''auth_provider'') provider_of_value) (\<lambda>auth_provider.
     and_then (maybe as_str d ''email'') (\<lambda>email.
     and_then (maybe as_str d ''password_hash'') (\<lambda>password_hash.
     and_then (maybe as_str d ''hf_user_id'') (\<lambda>hf_user_id.
     and_then (if map_of d ''daily_quota_used'' = None then Inr 0
               else need as_int d ''daily_quota_used'') (\<lambda>daily_quota_used.
     and_then (maybe as_iso_date d ''quota_reset_date'') (\<lambda>quota_reset_date.
     and_then (need as_time d ''created_at'') (\<lambda>created_at.
       Inr \<lparr>u_id = user_id, u_auth_provider = auth_provider, u_email = email,
            u_password_hash = password_hash, u_hf_user_id = hf_user_id,
            u_daily_quota_used = daily_quota_used, u_quota_reset_date = quota_reset_date,
            u_created_at = created_at\<rparr>)))))))"

subsection \<open>Round trips\<close>

lemma maybe_optional [simp]:
  "map_of d key = Some (fs_optional c x) \<Longrightarrow> (\<And>v. f (c v) = Some v) \<Longrightarrow> (\<And>v. c v \<noteq> FNull) \<Longrightarrow>
     maybe f d key = Inr x"
  by (cases x) (auto simp: maybe_def fs_optional_def)

lemma need_found [simp]: "map_of d key = Some v \<Longrightarrow> f v = Some x \<Longrightarrow> need f d key = Inr x"
  by (simp add: need_def)

lemma progress_roundtrip: "doc_to_progress (progress_to_doc p) = Inr p"
  by (simp add: doc_to_progress_def progress_to_doc_def)

lemma doc_progress_roundtrip:
  "map_of d ''progress'' = Some (fs_optional (\<lambda>p. FMap (progress_to_doc p)) x) \<Longrightarrow>
     doc_progress d = Inr x"
proof -
  assume *: "map_of d ''progress'' = Some (fs_optional (\<lambda>p. FMap (progress_to_doc p)) x)"
  show ?thesis
  proof (cases x)
    case None
    with * show ?thesis by (simp add: doc_progress_def maybe_def fs_optional_def)
  next
    case (Some p)
    have "progress_to_doc p \<noteq> []" by (simp add: progress_to_doc_def)
    with * Some show ?thesis
      by (simp add: doc_progress_def maybe_def fs_optional_def progress_roundtrip)
  qed
qed

lemma job_doc_lookups:
  "map_of (job_to_doc j) ''user_id'' = Some (FStr (j_user_id j))"
  "map_of (job_to_doc j) ''policy'' = Some (FStr (policy_value (j_policy j)))"
  "map_of (job_to_doc j) ''source_type'' = Some (FStr (source_type_value (j_source_type j)))"
  "map_of (job_to_doc j) ''source_ref'' = Some (FStr (j_source_ref j))"
  "map_of (job_to_doc j) ''training_steps'' = Some (FInt (j_training_steps j))"
  "map_of (job_to_doc j) ''status'' = Some (FStr (status_value (j_status j)))"
  "map_of (job_to_doc j) ''container_id'' = Some (fs_optional FStr (j_container_id j))"
  "map_of (job_to_doc j) ''heartbeat_at'' = Some (fs_optional FTime (j_heartbeat_at j))"
  "map_of (job_to_doc j) ''progress'' = Some (fs_optional (\<lambda>p. FMap (progress_to_doc p)) (j_progress j))"
  "map_of (job_to_doc j) ''cancel_requested'' = Some (FBool (j_cancel_requested j))"
  "map_of (job_to_doc j) ''checkpoint_gcs_path'' = Some (fs_optional FStr (j_checkpoint_gcs_path j))"
  "map_of (job_to_doc j) ''error_message'' = Some (fs_optional FStr (j_error_message j))"
  "map_of (job_to_doc j) ''created_at'' = Some (FTime (j_created_at j))"
  "map_of (job_to_doc j) ''updated_at'' = Some (FTime (j_updated_at j))"
  by (simp_all add: job_to_doc_def)

lemma job_doc_roundtrip: "doc_to_job (j_id j) (job_to_doc j) = Inr j"
  by (simp add: doc_to_job_def job_doc_lookups doc_progress_roundtrip [OF job_doc_lookups(9)])

lemma user_doc_roundtrip: "doc_to_user (u_id u) (user_to_doc u) = Inr u"
  by (simp add: doc_to_user_def user_to_doc_def)

subsection \<open>The repositories over a collection\<close>

text \<open>
  The calls on a collection: \<open>document(id).get()\<close>, \<open>document(id).set(doc)\<close>,
  \<open>where(field, op, value).order_by(field).stream()\<close> for equality and membership, and
  \<open>where(field, "==", value).limit(1).stream()\<close>.
\<close>

record 'c firestore_collection =
  fc_get :: "'c \<Rightarrow> string \<Rightarrow> doc option"
  fc_set :: "string \<Rightarrow> doc \<Rightarrow> 'c \<Rightarrow> 'c"
  fc_where_eq_ordered :: "'c \<Rightarrow> string \<Rightarrow> fsval \<Rightarrow> string \<Rightarrow> (string \<times> doc) list"
  fc_where_in_ordered :: "'c \<Rightarrow> string \<Rightarrow> fsval list \<Rightarrow> string \<Rightarrow> (string \<times> doc) list"
  fc_where_eq_limit1 :: "'c \<Rightarrow> string \<Rightarrow> fsval \<Rightarrow> (string \<times> doc) list"

definition snapshots_to_jobs :: "(string \<times> doc) list \<Rightarrow> exn + Job list" where
  "snapshots_to_jobs snaps = collect (map (\<lambda>(snap_id, d). doc_to_job snap_id d) snaps)"

definition firestore_get_job :: "'c firestore_collection \<Rightarrow> 'c \<Rightarrow> string \<Rightarrow> exn + Job option" where
  "firestore_get_job C c job_id =
     (case fc_get C c job_id of
        None \<Rightarrow> Inr None
      | Some d \<Rightarrow> and_then (doc_to_job job_id d) (\<lambda>j. Inr (Some j)))"

definition firestore_set_job :: "'c firestore_collection \<Rightarrow> Job \<Rightarrow> 'c \<Rightarrow> 'c" where
  "firestore_set_job C job c = fc_set C (j_id job) (job_to_doc job) c"

definition firestore_list_for_user :: "'c firestore_collection \<Rightarrow> 'c \<Rightarrow> string \<Rightarrow> exn + Job list" where
  "firestore_list_for_user C c user_id =
     snapshots_to_jobs (fc_where_eq_ordered C c ''user_id'' (FStr user_id) ''created_at'')"

definition firestore_list_by_statuses ::
    "'c firestore_collection \<Rightarrow> 'c \<Rightarrow> JobStatus list \<Rightarrow> exn + Job list" where
  "firestore_list_by_statuses C c statuses =
     snapshots_to_jobs
       (fc_where_in_ordered C c ''status'' (map (\<lambda>s. FStr (status_value s)) statuses) ''created_at'')"

definition firestore_job_repository :: "'c firestore_collection \<Rightarrow> 'c job_repository" where
  "firestore_job_repository C =
     \<lparr>jr_get = firestore_get_job C,
      jr_create = firestore_set_job C,
      jr_update = firestore_set_job C,
      jr_list_for_user = firestore_list_for_user C,
      jr_list_by_statuses = firestore_list_by_statuses C\<rparr>"

definition first_snapshot :: "(string \<times> doc) list \<Rightarrow> exn + User option" where
  "first_snapshot snaps =
     (case snaps of
        [] \<Rightarrow> Inr None
      | (snap_id, d) # _ \<Rightarrow> and_then (doc_to_user snap_id d) (\<lambda>u. Inr (Some u)))"

definition firestore_get_user :: "'c firestore_collection \<Rightarrow> 'c \<Rightarrow> string \<Rightarrow> exn + User option" where
  "firestore_get_user C c user_id =
     (case fc_get C c user_id of
        None \<Rightarrow> Inr None
      | Some d \<Rightarrow> and_then (doc_to_user user_id d) (\<lambda>u. Inr (Some u)))"

definition firestore_get_by_email :: "'c firestore_collection \<Rightarrow> 'c \<Rightarrow> string \<Rightarrow> exn + User option" where
  "firestore_get_by_email C c email =
     first_snapshot (fc_where_eq_limit1 C c ''email'' (FStr email))"

definition firestore_get_by_hf_user_id ::
    "'c firestore_collection \<Rightarrow> 'c \<Rightarrow> string \<Rightarrow> exn + User option" where
  "firestore_get_by_hf_user_id C c hf_user_id =
     first_snapshot (fc_where_eq_limit1 C c ''hf_user_id'' (FStr hf_user_id))"

definition firestore_set_user :: "'c firestore_collection \<Rightarrow> User \<Rightarrow> 'c \<Rightarrow> 'c" where
  "firestore_set_user C user c = fc_set C (u_id user) (user_to_doc user) c"

definition firestore_user_repository :: "'c firestore_collection \<Rightarrow> 'c user_repository" where
  "firestore_user_repository C =
     \<lparr>ur_get = firestore_get_user C,
      ur_get_by_email = firestore_get_by_email C,
      ur_get_by_hf_user_id = firestore_get_by_hf_user_id C,
      ur_create = firestore_set_user C,
      ur_update = firestore_set_user C\<rparr>"

subsection \<open>The documented behaviour of a collection\<close>

definition ordered_by :: "string \<Rightarrow> (string \<times> doc) list \<Rightarrow> bool" where
  "ordered_by field snaps \<longleftrightarrow>
     sorted (map (\<lambda>(_, d). case map_of d field of Some (FTime t) \<Rightarrow> t | _ \<Rightarrow> 0) snaps)"

definition streams ::
    "(string \<rightharpoonup> doc) \<Rightarrow> (doc \<Rightarrow> bool) \<Rightarrow> (string \<times> doc) list \<Rightarrow> bool" where
  "streams m P snaps \<longleftrightarrow>
     distinct (map fst snaps) \<and> (\<forall>k d. (k, d) \<in> set snaps \<longleftrightarrow> m k = Some d \<and> P d)"

definition firestore_ok :: "'c firestore_collection \<Rightarrow> ('c \<Rightarrow> string \<rightharpoonup> doc) \<Rightarrow> bool" where
  "firestore_ok C docs_of \<longleftrightarrow>
     (\<forall>c k. fc_get C c k = docs_of c k) \<and>
     (\<forall>c k d. docs_of (fc_set C k d c) = (docs_of c)(k \<mapsto> d)) \<and>
     (\<forall>c. finite (dom (docs_of c))) \<and>
     (\<forall>c f v ord. let r = fc_where_eq_ordered C c f v ord in
        streams (docs_of c) (\<lambda>d. map_of d f = Some v \<and> map_of d ord \<noteq> None) r \<and> ordered_by ord r) \<and>
     (\<forall>c f vs ord. let r = fc_where_in_ordered C c f vs ord in
        streams (docs_of c) (\<lambda>d. map_of d f \<in> Some ` set vs \<and> map_of d ord \<noteq> None) r \<and> ordered_by ord r) \<and>
     (\<forall>c f v. case fc_where_eq_limit1 C c f v of
        [] \<Rightarrow> \<forall>k d. docs_of c k = Some d \<longrightarrow> map_of d f \<noteq> Some v
      | (k, d) # rest \<Rightarrow> rest = [] \<and> docs_of c k = Some d \<and> map_of d f = Some v)"

subsection \<open>The adapters keep the contracts\<close>

text \<open>The view: the jobs that the documents stand for; the invariant: every document is one.\<close>

definition holds_jobs :: "('c \<Rightarrow> string \<rightharpoonup> doc) \<Rightarrow> 'c \<Rightarrow> bool" where
  "holds_jobs docs_of c \<longleftrightarrow> (\<forall>k d. docs_of c k = Some d \<longrightarrow> (\<exists>j. d = job_to_doc j \<and> j_id j = k))"

definition stored_job :: "('c \<Rightarrow> string \<rightharpoonup> doc) \<Rightarrow> 'c \<Rightarrow> string \<rightharpoonup> Job" where
  "stored_job docs_of c k =
     (case docs_of c k of
        None \<Rightarrow> None
      | Some d \<Rightarrow> (case doc_to_job k d of Inr j \<Rightarrow> Some j | Inl _ \<Rightarrow> None))"

lemma stored_job_iff:
  assumes "holds_jobs docs_of c"
  shows "stored_job docs_of c k = Some j \<longleftrightarrow> docs_of c k = Some (job_to_doc j) \<and> j_id j = k"
proof (cases "docs_of c k")
  case (Some d)
  with assms obtain i where "d = job_to_doc i" and i: "j_id i = k"
    unfolding holds_jobs_def by blast
  with Some have "stored_job docs_of c k = Some i" and "docs_of c k = Some (job_to_doc i)"
    using job_doc_roundtrip [of i] by (simp_all add: stored_job_def)
  moreover have "job_to_doc i = job_to_doc j \<Longrightarrow> j_id j = k \<Longrightarrow> i = j"
    using job_doc_roundtrip [of i] job_doc_roundtrip [of j] i by simp
  ultimately show ?thesis using i by auto
qed (simp add: stored_job_def)

text \<open>A stream of documents that stand for jobs decodes to an enumeration of these jobs.\<close>

lemma snapshots_decode:
  assumes "\<And>k d. (k, d) \<in> set snaps \<Longrightarrow> \<exists>j. d = job_to_doc j \<and> j_id j = k"
  obtains js where "snapshots_to_jobs snaps = Inr js" and "snaps = map (\<lambda>j. (j_id j, job_to_doc j)) js"
proof -
  have "\<exists>js. snaps = map (\<lambda>j. (j_id j, job_to_doc j)) js"
    using assms
  proof (induction snaps)
    case (Cons s snaps)
    obtain js where "snaps = map (\<lambda>j. (j_id j, job_to_doc j)) js"
      using Cons.IH Cons.prems by (metis list.set_intros(2))
    moreover obtain j where "s = (j_id j, job_to_doc j)"
      using Cons.prems [of "fst s" "snd s"] by (cases s) auto
    ultimately have "s # snaps = map (\<lambda>j. (j_id j, job_to_doc j)) (j # js)" by simp
    then show ?case ..
  qed simp
  then obtain js where js: "snaps = map (\<lambda>j. (j_id j, job_to_doc j)) js" ..
  have "snapshots_to_jobs snaps = Inr js"
    unfolding snapshots_to_jobs_def js
    using collect_map_Inr [of js "\<lambda>j. doc_to_job (j_id j) (job_to_doc j)" "\<lambda>j. j"]
    by (simp add: job_doc_roundtrip comp_def)
  then show ?thesis using js by (rule that)
qed

lemma ordered_by_jobs:
  "ordered_by ''created_at'' (map (\<lambda>j. (j_id j, job_to_doc j)) js) \<longleftrightarrow> sorted (map j_created_at js)"
  by (simp add: ordered_by_def comp_def job_doc_lookups)

lemma snapshots_enumerate:
  assumes holds: "holds_jobs docs_of c" and st: "streams (docs_of c) Q snaps"
    and Q: "\<And>j. Q (job_to_doc j) \<longleftrightarrow> P j" and ord: "ordered_by ''created_at'' snaps"
  shows "\<exists>js. snapshots_to_jobs snaps = Inr js \<and> enumerates j_id (stored_job docs_of c) P js \<and>
    sorted (map j_created_at js)"
proof -
  have "\<exists>j. d = job_to_doc j \<and> j_id j = k" if "(k, d) \<in> set snaps" for k d
    using that holds st unfolding holds_jobs_def streams_def by blast
  then obtain js where js: "snapshots_to_jobs snaps = Inr js"
    and eq: "snaps = map (\<lambda>j. (j_id j, job_to_doc j)) js"
    by (rule snapshots_decode)
  have mem: "j \<in> set js \<longleftrightarrow> (j_id j, job_to_doc j) \<in> set snaps" for j
    using job_doc_roundtrip by (auto simp: eq) (metis sum.inject(2))
  have "distinct (map j_id js)"
    using st by (simp add: streams_def eq comp_def)
  moreover have "j \<in> set js \<longleftrightarrow> stored_job docs_of c (j_id j) = Some j \<and> P j" for j
    using st by (simp add: mem streams_def stored_job_iff [OF holds] Q)
  ultimately show ?thesis
    using js ord by (simp add: enumerates_def eq ordered_by_jobs)
qed

lemma firestore_okD:
  assumes "firestore_ok C docs_of"
  shows "fc_get C c k = docs_of c k" and "docs_of (fc_set C k d c) = (docs_of c)(k \<mapsto> d)"
    and "finite (dom (docs_of c))"
    and "streams (docs_of c) (\<lambda>d. map_of d f = Some v \<and> map_of d ord \<noteq> None)
      (fc_where_eq_ordered C c f v ord)"
    and "ordered_by ord (fc_where_eq_ordered C c f v ord)"
    and "streams (docs_of c) (\<lambda>d. map_of d f \<in> Some ` set vs \<and> map_of d ord \<noteq> None)
      (fc_where_in_ordered C c f vs ord)"
    and "ordered_by ord (fc_where_in_ordered C c f vs ord)"
  using assms unfolding firestore_ok_def Let_def by auto

lemma job_doc_status_in:
  "map_of (job_to_doc j) ''status'' \<in> Some ` set (map (\<lambda>s. FStr (status_value s)) sts) \<longleftrightarrow>
     j_status j \<in> set sts"
  by (auto simp: job_doc_lookups)

theorem firestore_job_store:
  assumes ok: "firestore_ok C docs_of"
  shows "job_store (firestore_job_repository C) (stored_job docs_of) (holds_jobs docs_of)"
proof unfold_locales
  fix s k
  assume holds: "holds_jobs docs_of s"
  show "jr_get (firestore_job_repository C) s k = Inr (stored_job docs_of s k)"
  proof (cases "docs_of s k")
    case None
    then show ?thesis
      by (simp add: firestore_job_repository_def firestore_get_job_def stored_job_def firestore_okD [OF ok])
  next
    case (Some d)
    with holds obtain j where "d = job_to_doc j" "j_id j = k"
      unfolding holds_jobs_def by blast
    with Some job_doc_roundtrip [of j] show ?thesis
      by (simp add: firestore_job_repository_def firestore_get_job_def stored_job_def firestore_okD [OF ok])
  qed
next
  fix s u
  assume holds: "holds_jobs docs_of s"
  show "\<exists>js. jr_list_for_user (firestore_job_repository C) s u = Inr js \<and>
      enumerates j_id (stored_job docs_of s) (\<lambda>j. j_user_id j = u) js"
    using snapshots_enumerate [OF holds firestore_okD(4) [OF ok] _ firestore_okD(5) [OF ok],
        of "''user_id''" "FStr u" "\<lambda>j. j_user_id j = u"]
    by (auto simp: firestore_job_repository_def firestore_list_for_user_def job_doc_lookups)
next
  fix s sts
  assume holds: "holds_jobs docs_of s"
  show "\<exists>js. jr_list_by_statuses (firestore_job_repository C) s sts = Inr js \<and>
      enumerates j_id (stored_job docs_of s) (\<lambda>j. j_status j \<in> set sts) js \<and>
      sorted (map j_created_at js)"
    using snapshots_enumerate [OF holds firestore_okD(6) [OF ok] _ firestore_okD(7) [OF ok],
        of "''status''" "map (\<lambda>s. FStr (status_value s)) sts" "\<lambda>j. j_status j \<in> set sts"]
    by (simp add: firestore_job_repository_def firestore_list_by_statuses_def job_doc_status_in
        job_doc_lookups(13) del: set_map)
next
  fix s :: 'a and j
  assume holds: "holds_jobs docs_of s"
  then have holds': "holds_jobs docs_of (firestore_set_job C j s)"
    by (auto simp: holds_jobs_def firestore_set_job_def firestore_okD [OF ok])
  moreover have "stored_job docs_of (firestore_set_job C j s) = (stored_job docs_of s)(j_id j \<mapsto> j)"
    by (auto simp: stored_job_def firestore_set_job_def firestore_okD [OF ok] job_doc_roundtrip)
  ultimately show "stored_job docs_of (jr_create (firestore_job_repository C) j s) =
      (stored_job docs_of s)(j_id j \<mapsto> j)"
    and "holds_jobs docs_of (jr_create (firestore_job_repository C) j s)"
    and "stored_job docs_of (jr_update (firestore_job_repository C) j s) =
      (stored_job docs_of s)(j_id j \<mapsto> j)"
    and "holds_jobs docs_of (jr_update (firestore_job_repository C) j s)"
    by (simp_all add: firestore_job_repository_def)
next
  fix s
  assume holds: "holds_jobs docs_of s"
  then show "keyed j_id (stored_job docs_of s)"
    by (simp add: keyed_def stored_job_iff)
  have "dom (stored_job docs_of s) \<subseteq> dom (docs_of s)"
    by (auto simp: stored_job_def split: option.splits)
  then show "finite (dom (stored_job docs_of s))"
    using firestore_okD(3) [OF ok] by (rule finite_subset)
qed

subsection \<open>The same for users\<close>

definition holds_users :: "('c \<Rightarrow> string \<rightharpoonup> doc) \<Rightarrow> 'c \<Rightarrow> bool" where
  "holds_users docs_of c \<longleftrightarrow> (\<forall>k d. docs_of c k = Some d \<longrightarrow> (\<exists>u. d = user_to_doc u \<and> u_id u = k))"

definition stored_user :: "('c \<Rightarrow> string \<rightharpoonup> doc) \<Rightarrow> 'c \<Rightarrow> string \<rightharpoonup> User" where
  "stored_user docs_of c k =
     (case docs_of c k of
        None \<Rightarrow> None
      | Some d \<Rightarrow> (case doc_to_user k d of Inr u \<Rightarrow> Some u | Inl _ \<Rightarrow> None))"

lemma stored_user_iff:
  assumes "holds_users docs_of c"
  shows "stored_user docs_of c k = Some u \<longleftrightarrow> docs_of c k = Some (user_to_doc u) \<and> u_id u = k"
proof (cases "docs_of c k")
  case (Some d)
  with assms obtain i where "d = user_to_doc i" and i: "u_id i = k"
    unfolding holds_users_def by blast
  with Some have "stored_user docs_of c k = Some i" and "docs_of c k = Some (user_to_doc i)"
    using user_doc_roundtrip [of i] by (simp_all add: stored_user_def)
  moreover have "user_to_doc i = user_to_doc u \<Longrightarrow> u_id u = k \<Longrightarrow> i = u"
    using user_doc_roundtrip [of i] user_doc_roundtrip [of u] i by simp
  ultimately show ?thesis using i by auto
qed (simp add: stored_user_def)

lemma user_doc_lookups:
  "map_of (user_to_doc u) ''email'' = Some (FStr e) \<longleftrightarrow> u_email u = Some e"
  "map_of (user_to_doc u) ''hf_user_id'' = Some (FStr h) \<longleftrightarrow> u_hf_user_id u = Some h"
  by (auto simp: user_to_doc_def fs_optional_def split: option.splits)

lemma limit1_spec:
  assumes ok: "firestore_ok C docs_of" and holds: "holds_users docs_of c"
    and key: "\<And>u. map_of (user_to_doc u) f = Some v \<longleftrightarrow> P u"
  shows "\<exists>r. first_snapshot (fc_where_eq_limit1 C c f v) = Inr r \<and>
    (case r of Some u \<Rightarrow> stored_user docs_of c (u_id u) = Some u \<and> P u
     | None \<Rightarrow> \<forall>k u. stored_user docs_of c k = Some u \<longrightarrow> \<not> P u)"
proof (cases "fc_where_eq_limit1 C c f v")
  case Nil
  have "case fc_where_eq_limit1 C c f v of
        [] \<Rightarrow> \<forall>k d. docs_of c k = Some d \<longrightarrow> map_of d f \<noteq> Some v
      | (k, d) # rest \<Rightarrow> rest = [] \<and> docs_of c k = Some d \<and> map_of d f = Some v"
    using ok unfolding firestore_ok_def by blast
  with Nil have "\<forall>k d. docs_of c k = Some d \<longrightarrow> map_of d f \<noteq> Some v" by simp
  then have "\<forall>k u. stored_user docs_of c k = Some u \<longrightarrow> \<not> P u"
    using key by (auto simp: stored_user_iff [OF holds])
  with Nil show ?thesis by (simp add: first_snapshot_def)
next
  case (Cons s rest)
  obtain k d where s: "s = (k, d)" by (cases s)
  have "case fc_where_eq_limit1 C c f v of
        [] \<Rightarrow> \<forall>k d. docs_of c k = Some d \<longrightarrow> map_of d f \<noteq> Some v
      | (k, d) # rest \<Rightarrow> rest = [] \<and> docs_of c k = Some d \<and> map_of d f = Some v"
    using ok unfolding firestore_ok_def by blast
  with Cons s have doc: "docs_of c k = Some d" and v: "map_of d f = Some v" by simp_all
  with holds obtain u where u: "d = user_to_doc u" "u_id u = k"
    unfolding holds_users_def by blast
  have "first_snapshot (fc_where_eq_limit1 C c f v) = Inr (Some u)"
    using Cons s u user_doc_roundtrip [of u] by (simp add: first_snapshot_def)
  moreover have "P u" and "stored_user docs_of c (u_id u) = Some u"
    using doc v u key by (simp_all add: stored_user_iff [OF holds])
  ultimately show ?thesis by simp
qed

theorem firestore_user_store:
  assumes ok: "firestore_ok C docs_of"
  shows "user_store (firestore_user_repository C) (stored_user docs_of) (holds_users docs_of)"
proof unfold_locales
  fix s k
  assume holds: "holds_users docs_of s"
  show "ur_get (firestore_user_repository C) s k = Inr (stored_user docs_of s k)"
  proof (cases "docs_of s k")
    case None
    then show ?thesis
      by (simp add: firestore_user_repository_def firestore_get_user_def stored_user_def firestore_okD [OF ok])
  next
    case (Some d)
    with holds obtain u where "d = user_to_doc u" "u_id u = k"
      unfolding holds_users_def by blast
    with Some user_doc_roundtrip [of u] show ?thesis
      by (simp add: firestore_user_repository_def firestore_get_user_def stored_user_def firestore_okD [OF ok])
  qed
next
  fix s e
  assume holds: "holds_users docs_of s"
  show "\<exists>r. ur_get_by_email (firestore_user_repository C) s e = Inr r \<and>
      (case r of Some u \<Rightarrow> stored_user docs_of s (u_id u) = Some u \<and> u_email u = Some e
       | None \<Rightarrow> \<forall>k u. stored_user docs_of s k = Some u \<longrightarrow> u_email u \<noteq> Some e)"
    using limit1_spec [OF ok holds user_doc_lookups(1)]
    by (simp add: firestore_user_repository_def firestore_get_by_email_def)
next
  fix s h
  assume holds: "holds_users docs_of s"
  show "\<exists>r. ur_get_by_hf_user_id (firestore_user_repository C) s h = Inr r \<and>
      (case r of Some u \<Rightarrow> stored_user docs_of s (u_id u) = Some u \<and> u_hf_user_id u = Some h
       | None \<Rightarrow> \<forall>k u. stored_user docs_of s k = Some u \<longrightarrow> u_hf_user_id u \<noteq> Some h)"
    using limit1_spec [OF ok holds user_doc_lookups(2)]
    by (simp add: firestore_user_repository_def firestore_get_by_hf_user_id_def)
next
  fix s :: 'a and u
  assume holds: "holds_users docs_of s"
  then have "holds_users docs_of (firestore_set_user C u s)"
    by (auto simp: holds_users_def firestore_set_user_def firestore_okD [OF ok])
  moreover have "stored_user docs_of (firestore_set_user C u s) = (stored_user docs_of s)(u_id u \<mapsto> u)"
    by (auto simp: stored_user_def firestore_set_user_def firestore_okD [OF ok] user_doc_roundtrip)
  ultimately show "stored_user docs_of (ur_create (firestore_user_repository C) u s) =
      (stored_user docs_of s)(u_id u \<mapsto> u)"
    and "holds_users docs_of (ur_create (firestore_user_repository C) u s)"
    and "stored_user docs_of (ur_update (firestore_user_repository C) u s) =
      (stored_user docs_of s)(u_id u \<mapsto> u)"
    and "holds_users docs_of (ur_update (firestore_user_repository C) u s)"
    by (simp_all add: firestore_user_repository_def)
next
  fix s
  assume "holds_users docs_of s"
  then show "keyed u_id (stored_user docs_of s)"
    by (simp add: keyed_def stored_user_iff)
qed

end
