(* ===== verification/Gcs_Adapter.thy ===== *)
theory Gcs_Adapter
  imports Ports
begin

text \<open>
  \<open>backend/adapters/gcs/object_storage.py\<close> over the Google Cloud Storage client, which is not code
  of the repository: the operations the adapter uses are the record \<open>gcs_bucket\<close>, a parameter, and
  their documented behaviour is the hypothesis \<open>gcs_ok\<close>. Opening a stream stands for the ranged
  reads that follow it; on a missing object they raise the library's own \<open>NotFound\<close>.
\<close>

record 'o gcs_bucket =
  gb_generate_signed_url :: "string \<Rightarrow> string option \<Rightarrow> string \<Rightarrow> int \<Rightarrow> string"
  gb_open_rb :: "'o \<Rightarrow> string \<Rightarrow> exn + blob"
  gb_exists :: "'o \<Rightarrow> string \<Rightarrow> bool"
  gb_delete :: "string \<Rightarrow> 'o \<Rightarrow> (exn + unit) \<times> 'o"
  gb_upload_from_filename :: "string \<Rightarrow> path \<Rightarrow> fsys \<Rightarrow> 'o \<Rightarrow> (exn + unit) \<times> 'o"

definition gcs_delete :: "'o gcs_bucket \<Rightarrow> string \<Rightarrow> 'o \<Rightarrow> (exn + unit) \<times> 'o" where
  "gcs_delete B object_path objects =
     (if gb_exists B objects object_path then gb_delete B object_path objects else (Inr (), objects))"

definition gcs_object_storage :: "'o gcs_bucket \<Rightarrow> 'o object_storage" where
  "gcs_object_storage B =
     \<lparr>os_generate_upload_url = (\<lambda>object_path content_type expires_in_seconds.
        gb_generate_signed_url B ''PUT'' (Some content_type) object_path expires_in_seconds),
      os_generate_download_url = (\<lambda>object_path expires_in_seconds.
        gb_generate_signed_url B ''GET'' None object_path expires_in_seconds),
      os_open_read_stream = gb_open_rb B,
      os_exists = gb_exists B,
      os_delete = gcs_delete B,
      os_upload_file = gb_upload_from_filename B\<rparr>"

lemma gcs_object_storage_simps [port_simps]:
  "os_generate_upload_url (gcs_object_storage B) =
     (\<lambda>p c e. gb_generate_signed_url B ''PUT'' (Some c) p e)"
  "os_generate_download_url (gcs_object_storage B) = (\<lambda>p e. gb_generate_signed_url B ''GET'' None p e)"
  "os_open_read_stream (gcs_object_storage B) = gb_open_rb B"
  "os_exists (gcs_object_storage B) = gb_exists B"
  "os_delete (gcs_object_storage B) = gcs_delete B"
  "os_upload_file (gcs_object_storage B) = gb_upload_from_filename B"
  by (simp_all add: gcs_object_storage_def)

definition gcs_ok :: "'o gcs_bucket \<Rightarrow> ('o \<Rightarrow> string \<rightharpoonup> blob) \<Rightarrow> bool" where
  "gcs_ok B objects_of \<longleftrightarrow>
     (\<forall>s p. gb_exists B s p \<longleftrightarrow> objects_of s p \<noteq> None) \<and>
     (\<forall>s p b. objects_of s p = Some b \<longrightarrow> gb_open_rb B s p = Inr b) \<and>
     (\<forall>s p. objects_of s p = None \<longrightarrow> gb_open_rb B s p = Inl (ExternalError (''404 '' @ p))) \<and>
     (\<forall>s p u s'. gb_delete B p s = (Inr u, s') \<longrightarrow> objects_of s' = (objects_of s)(p := None)) \<and>
     (\<forall>s p e s'. gb_delete B p s = (Inl e, s') \<longrightarrow> objects_of s' = objects_of s) \<and>
     (\<forall>p lp fs s u s'. gb_upload_from_filename B p lp fs s = (Inr u, s') \<longrightarrow>
        (\<exists>b. fs_read fs lp = Inr b \<and> objects_of s' = (objects_of s)(p \<mapsto> b))) \<and>
     (\<forall>p lp fs s e s'. gb_upload_from_filename B p lp fs s = (Inl e, s') \<longrightarrow> objects_of s' = objects_of s)"

theorem gcs_object_store:
  assumes ok: "gcs_ok B objects_of"
  shows "object_store (gcs_object_storage B) objects_of"
proof unfold_locales
  fix s p
  show "os_exists (gcs_object_storage B) s p \<longleftrightarrow> objects_of s p \<noteq> None"
    using ok by (simp add: port_simps gcs_ok_def)
  show "os_open_read_stream (gcs_object_storage B) s p = Inr b" if "objects_of s p = Some b" for b
    using ok that by (simp add: port_simps gcs_ok_def)
  show "\<exists>e. os_open_read_stream (gcs_object_storage B) s p = Inl e" if "objects_of s p = None"
    using ok that by (simp add: port_simps gcs_ok_def)
  show "case r of Inr _ \<Rightarrow> objects_of s' = (objects_of s)(p := None) | Inl _ \<Rightarrow> objects_of s' = objects_of s"
    if run: "os_delete (gcs_object_storage B) p s = (r, s')" for r s'
  proof (cases "objects_of s p = None")
    case True
    then have "\<not> gb_exists B s p" using ok by (simp add: gcs_ok_def)
    with run True show ?thesis by (auto simp: port_simps gcs_delete_def fun_eq_iff)
  next
    case False
    then have "gb_exists B s p" using ok by (simp add: gcs_ok_def)
    with run have "gb_delete B p s = (r, s')" by (simp add: port_simps gcs_delete_def)
    then show ?thesis using ok by (cases r) (simp_all add: gcs_ok_def)
  qed
  show "case r of Inr _ \<Rightarrow> \<exists>b. fs_read fs lp = Inr b \<and> objects_of s' = (objects_of s)(p \<mapsto> b)
      | Inl _ \<Rightarrow> objects_of s' = objects_of s"
    if run: "os_upload_file (gcs_object_storage B) p lp fs s = (r, s')" for lp fs r s'
  proof (cases r)
    case (Inl e)
    with run have "gb_upload_from_filename B p lp fs s = (Inl e, s')" by (simp add: port_simps)
    with ok have "objects_of s' = objects_of s" unfolding gcs_ok_def by blast
    with Inl show ?thesis by simp
  next
    case (Inr u)
    with run have "gb_upload_from_filename B p lp fs s = (Inr u, s')" by (simp add: port_simps)
    with ok have "\<exists>b. fs_read fs lp = Inr b \<and> objects_of s' = (objects_of s)(p \<mapsto> b)"
      unfolding gcs_ok_def by blast
    with Inr show ?thesis by simp
  qed
qed

text \<open>A bucket that behaves as documented: a dictionary of objects.\<close>

definition reference_bucket :: "(string \<times> blob) list gcs_bucket" where
  "reference_bucket =
     \<lparr>gb_generate_signed_url = (\<lambda>verb content_type p expires. verb @ '' '' @ p),
      gb_open_rb = (\<lambda>s p. case map_of s p of Some b \<Rightarrow> Inr b | None \<Rightarrow> Inl (ExternalError (''404 '' @ p))),
      gb_exists = (\<lambda>s p. p \<in> fst ` set s),
      gb_delete = (\<lambda>p s. (Inr (), AList.delete p s)),
      gb_upload_from_filename = (\<lambda>p lp fs s.
        case fs_read fs lp of Inl e \<Rightarrow> (Inl e, s) | Inr b \<Rightarrow> (Inr (), AList.update p b s))\<rparr>"

lemma reference_bucket_simps:
  "gb_open_rb reference_bucket s p =
     (case map_of s p of Some b \<Rightarrow> Inr b | None \<Rightarrow> Inl (ExternalError (''404 '' @ p)))"
  "gb_exists reference_bucket s p \<longleftrightarrow> p \<in> fst ` set s"
  "gb_delete reference_bucket p s = (Inr (), AList.delete p s)"
  "gb_upload_from_filename reference_bucket p lp fs s =
     (case fs_read fs lp of Inl e \<Rightarrow> (Inl e, s) | Inr b \<Rightarrow> (Inr (), AList.update p b s))"
  by (simp_all add: reference_bucket_def)

lemma present_map_of: "p \<in> fst ` set s \<longleftrightarrow> map_of s p \<noteq> None"
  by (simp add: map_of_eq_None_iff)

lemma reference_bucket_ok: "gcs_ok reference_bucket map_of"
  unfolding gcs_ok_def reference_bucket_simps present_map_of
proof (intro conjI allI impI)
  fix p lp fs s u and s' :: "(string \<times> blob) list"
  assume "(case fs_read fs lp of Inl e \<Rightarrow> (Inl e, s) | Inr b \<Rightarrow> (Inr (), AList.update p b s)) = (Inr u, s')"
  then show "\<exists>b. fs_read fs lp = Inr b \<and> map_of s' = (map_of s)(p \<mapsto> b)"
    by (cases "fs_read fs lp") (auto simp: update_conv')
next
  fix p lp fs s e and s' :: "(string \<times> blob) list"
  assume "(case fs_read fs lp of Inl e \<Rightarrow> (Inl e, s) | Inr b \<Rightarrow> (Inr (), AList.update p b s)) = (Inl e, s')"
  then show "map_of s' = map_of s"
    by (cases "fs_read fs lp") simp_all
qed (simp_all add: delete_conv')

interpretation refb: object_store "gcs_object_storage reference_bucket" map_of
  by (rule gcs_object_store [OF reference_bucket_ok])

end
