(* ===== verification/Backend_Api.thy ===== *)
theory Backend_Api
  imports Upload_Service Auth_Service Timeout_Service Web_Adapters Firestore_Adapters Gcs_Adapter
begin

text \<open>
  The HTTP layer of the backend: \<open>backend/config.py\<close>, the wiring and the request dependencies of
  \<open>backend/deps.py\<close>, the exception table and the application of \<open>backend/main.py\<close>, and the routes of
  \<open>backend/api\<close>. A route takes the parsed request and the backend's persistent state and returns the
  reply and the new state. FastAPI resolves the dependencies of a route, which raise 401, before it
  reports an invalid body with 422; an exception without a handler becomes a 500.
\<close>

subsection \<open>Settings and wiring\<close>

record Settings =
  st_jwt_secret :: string
  st_scheduler_shared_secret :: string
  st_gcs_bucket :: string
  st_firestore_database_id :: string
  st_gcp_project_id :: "string option"
  st_recaptcha_secret_key :: string
  st_min_captcha_score :: pyfloat
  st_hf_oauth_client_id :: string
  st_hf_oauth_client_secret :: string
  st_use_fake_adapters :: bool
  st_dev_storage_base_url :: string
  st_cors_allowed_origins :: string

definition default_settings :: Settings where
  "default_settings =
     \<lparr>st_jwt_secret = ''dev-secret-change-me'',
      st_scheduler_shared_secret = ''dev-scheduler-secret-change-me'',
      st_gcs_bucket = ''lerobot-training-service-dev'',
      st_firestore_database_id = ''(default)'',
      st_gcp_project_id = None,
      st_recaptcha_secret_key = [],
      st_min_captcha_score = Fin (1 / 2),
      st_hf_oauth_client_id = [],
      st_hf_oauth_client_secret = [],
      st_use_fake_adapters = True,
      st_dev_storage_base_url = ''http://localhost:8000'',
      st_cors_allowed_origins = ''http://localhost:5173''\<rparr>"

text \<open>The services are their adapters; the packages for hashing and tokens come along.\<close>

record ('j, 'u, 'o) Dependencies =
  dp_settings :: Settings
  dp_user_repository :: "'u user_repository"
  dp_job_repository :: "'j job_repository"
  dp_storage :: "'o object_storage"
  dp_hf_hub_client :: hf_hub_client
  dp_captcha_verifier :: captcha_verifier
  dp_hf_oauth_client :: hf_oauth_client
  dp_limits :: ValidationLimits
  dp_bcrypt :: bcrypt_api
  dp_jwt :: jwt_api

definition build_dependencies ::
    "bcrypt_api \<Rightarrow> jwt_api \<Rightarrow> Settings \<Rightarrow> 'u user_repository \<Rightarrow> 'j job_repository \<Rightarrow> 'o object_storage \<Rightarrow>
     hf_hub_client \<Rightarrow> captcha_verifier \<Rightarrow> hf_oauth_client \<Rightarrow> ('j, 'u, 'o) Dependencies" where
  "build_dependencies B W settings user_repository job_repository storage hf_hub_client captcha_verifier
       hf_oauth_client =
     \<lparr>dp_settings = settings, dp_user_repository = user_repository, dp_job_repository = job_repository,
      dp_storage = storage, dp_hf_hub_client = hf_hub_client, dp_captcha_verifier = captcha_verifier,
      dp_hf_oauth_client = hf_oauth_client, dp_limits = DEFAULT_LIMITS, dp_bcrypt = B, dp_jwt = W\<rparr>"

definition fake_dependencies ::
    "bcrypt_api \<Rightarrow> jwt_api \<Rightarrow> Settings \<Rightarrow> (mem_jobs, mem_users, mem_objects) Dependencies" where
  "fake_dependencies B W settings =
     build_dependencies B W settings memory_user_repository memory_job_repository
       (memory_object_storage (st_dev_storage_base_url settings)) (memory_hf_hub_client [])
       memory_captcha_verifier memory_hf_oauth_client"

definition real_dependencies ::
    "bcrypt_api \<Rightarrow> jwt_api \<Rightarrow> 'u firestore_collection \<Rightarrow> 'j firestore_collection \<Rightarrow> 'o gcs_bucket \<Rightarrow> hub_api \<Rightarrow>
     http_client \<Rightarrow> (string \<Rightarrow> exn + pyfloat) \<Rightarrow> (json \<Rightarrow> string) \<Rightarrow> Settings \<Rightarrow> ('j, 'u, 'o) Dependencies" where
  "real_dependencies B W UC JC G A http float_of_text repr settings =
     build_dependencies B W settings (firestore_user_repository UC) (firestore_job_repository JC)
       (gcs_object_storage G) (real_hf_hub_client A)
       (recaptcha_verify http float_of_text (st_recaptcha_secret_key settings))
       (exchange_code_for_user http repr (st_hf_oauth_client_id settings) (st_hf_oauth_client_secret settings))"

text \<open>The state behind the adapters.\<close>

record ('j, 'u, 'o) backend =
  b_jobs :: 'j
  b_users :: 'u
  b_objects :: 'o

subsection \<open>Replies\<close>

datatype 'a reply = Reply int 'a | ErrorReply int string

fun exception_status :: "exn \<Rightarrow> int option" where
  "exception_status (CaptchaFailedError _) = Some 400"
| "exception_status (EmailAlreadyRegisteredError _) = Some 409"
| "exception_status (InvalidCredentialsError _) = Some 401"
| "exception_status (InvalidTokenError _) = Some 401"
| "exception_status (WrongOldPasswordError _) = Some 400"
| "exception_status (UserNotFoundError _) = Some 404"
| "exception_status (JobNotFoundError _) = Some 404"
| "exception_status (NotJobOwnerError _) = Some 403"
| "exception_status (QuotaExceededError _) = Some 429"
| "exception_status (InvalidTrainingStepsError _) = Some 400"
| "exception_status (DownloadNotAvailableError _) = Some 409"
| "exception_status (UploadValidationError _) = Some 400"
| "exception_status (UploadNotFoundError _) = Some 404"
| "exception_status (HFDatasetNotFoundError _) = Some 404"
| "exception_status (CancelNotAllowedError _) = Some 409"
| "exception_status _ = None"

definition error_reply :: "exn \<Rightarrow> 'a reply" where
  "error_reply e =
     (case e of
        HTTPException status_code detail \<Rightarrow> ErrorReply status_code detail
      | _ \<Rightarrow>
          (case exception_status e of
             Some status_code \<Rightarrow> ErrorReply status_code (exn_text e)
           | None \<Rightarrow> ErrorReply 500 ''Internal Server Error''))"

definition respond :: "int \<Rightarrow> exn + 'a \<Rightarrow> 'a reply" where
  "respond status_code r = (case r of Inr x \<Rightarrow> Reply status_code x | Inl e \<Rightarrow> error_reply e)"

text \<open>The 422 reply to a body that does not fit its model.\<close>

definition unprocessable :: "'a reply" where
  "unprocessable = ErrorReply 422 ''Unprocessable Entity''"

subsection \<open>The caller's identity\<close>

text \<open>\<open>s.strip()\<close> for code points below 256.\<close>

definition is_space :: "char \<Rightarrow> bool" where
  "is_space c \<longleftrightarrow> (of_char c :: nat) \<in> {9, 10, 11, 12, 13, 28, 29, 30, 31, 32, 133, 160}"

definition strip :: "string \<Rightarrow> string" where
  "strip s = rev (dropWhile is_space (rev (dropWhile is_space s)))"

definition removeprefix :: "string \<Rightarrow> string \<Rightarrow> string" where
  "removeprefix p s = (if starts_with p s then drop (length p) s else s)"

definition get_current_user_id :: "jwt_api \<Rightarrow> Settings \<Rightarrow> datetime \<Rightarrow> string option \<Rightarrow> exn + string" where
  "get_current_user_id W settings now authorization =
     (if \<not> truthy authorization \<or> \<not> starts_with ''Bearer '' (the authorization)
      then Inl (HTTPException 401 ''Missing bearer token'')
      else
        (case decode_access_token W now (strip (removeprefix ''Bearer '' (the authorization)))
                (st_jwt_secret settings) of
           Inl (InvalidTokenError _) \<Rightarrow> Inl (HTTPException 401 ''Invalid or expired token'')
         | Inl e \<Rightarrow> Inl e
         | Inr user_id \<Rightarrow> Inr user_id))"

definition verify_scheduler_secret :: "Settings \<Rightarrow> string option \<Rightarrow> exn + unit" where
  "verify_scheduler_secret settings x_scheduler_secret =
     (if x_scheduler_secret \<noteq> Some (st_scheduler_shared_secret settings)
      then Inl (HTTPException 401 ''Invalid scheduler secret'') else Inr ())"

definition as_user ::
    "('j, 'u, 'o) Dependencies \<Rightarrow> datetime \<Rightarrow> string option \<Rightarrow>
     (string \<Rightarrow> ('j, 'u, 'o) backend \<Rightarrow> 'a reply \<times> ('j, 'u, 'o) backend) \<Rightarrow>
     ('j, 'u, 'o) backend \<Rightarrow> 'a reply \<times> ('j, 'u, 'o) backend" where
  "as_user P now authorization route b =
     (case get_current_user_id (dp_jwt P) (dp_settings P) now authorization of
        Inl e \<Rightarrow> (error_reply e, b)
      | Inr user_id \<Rightarrow> route user_id b)"

subsection \<open>\<open>api/auth.py\<close>\<close>

record TokenOut =
  to_access_token :: string
  to_token_type :: string

definition token_for :: "('j, 'u, 'o) Dependencies \<Rightarrow> datetime \<Rightarrow> string \<Rightarrow> TokenOut" where
  "token_for P now user_id =
     \<lparr>to_access_token =
        create_access_token (dp_jwt P) now user_id (st_jwt_secret (dp_settings P)) DEFAULT_EXPIRES_IN,
      to_token_type = ''bearer''\<rparr>"

definition api_register ::
    "('j, 'u, 'o) Dependencies \<Rightarrow> datetime \<Rightarrow> string \<Rightarrow> string \<Rightarrow> string \<Rightarrow> string \<Rightarrow> string \<Rightarrow>
     ('j, 'u, 'o) backend \<Rightarrow> TokenOut reply \<times> ('j, 'u, 'o) backend" where
  "api_register P now salt new_id email password captcha_token b =
     (case register_with_email (dp_bcrypt P) (dp_user_repository P) (dp_captcha_verifier P)
             (st_min_captcha_score (dp_settings P)) salt new_id now email password captcha_token (b_users b) of
        (r, users) \<Rightarrow>
          (respond 200 (and_then r (\<lambda>user. Inr (token_for P now (u_id user)))), b\<lparr>b_users := users\<rparr>))"

definition api_login ::
    "('j, 'u, 'o) Dependencies \<Rightarrow> datetime \<Rightarrow> string \<Rightarrow> string \<Rightarrow> ('j, 'u, 'o) backend \<Rightarrow>
     TokenOut reply \<times> ('j, 'u, 'o) backend" where
  "api_login P now email password b =
     (respond 200
        (and_then (login_with_email (dp_bcrypt P) (dp_user_repository P) (b_users b) email password)
           (\<lambda>user. Inr (token_for P now (u_id user)))), b)"

definition api_change_password ::
    "('j, 'u, 'o) Dependencies \<Rightarrow> datetime \<Rightarrow> string option \<Rightarrow> string \<Rightarrow> string \<Rightarrow> string \<Rightarrow>
     ('j, 'u, 'o) backend \<Rightarrow> unit reply \<times> ('j, 'u, 'o) backend" where
  "api_change_password P now authorization salt old_password new_password =
     as_user P now authorization (\<lambda>user_id b.
       case change_password (dp_bcrypt P) (dp_user_repository P) salt user_id old_password new_password (b_users b) of
         (r, users) \<Rightarrow> (respond 204 (and_then r (\<lambda>_. Inr ())), b\<lparr>b_users := users\<rparr>))"

definition api_hf_callback ::
    "('j, 'u, 'o) Dependencies \<Rightarrow> datetime \<Rightarrow> string \<Rightarrow> string \<Rightarrow> string \<Rightarrow>
     ('j, 'u, 'o) backend \<Rightarrow> TokenOut reply \<times> ('j, 'u, 'o) backend" where
  "api_hf_callback P now new_id code redirect_uri b =
     (case login_or_register_with_hf (dp_user_repository P) (dp_hf_oauth_client P) new_id now code redirect_uri
             (b_users b) of
        (r, users) \<Rightarrow>
          (respond 200 (and_then r (\<lambda>user. Inr (token_for P now (u_id user)))), b\<lparr>b_users := users\<rparr>))"

subsection \<open>\<open>api/jobs.py\<close>\<close>

record ProgressOut =
  po_step :: int
  po_total_steps :: int
  po_loss :: pyfloat

record JobOut =
  jo_id :: string
  jo_policy :: PolicyType
  jo_source_type :: SourceType
  jo_training_steps :: int
  jo_status :: string
  jo_queue_position :: "int option"
  jo_progress :: "ProgressOut option"
  jo_error_message :: "string option"
  jo_created_at :: datetime

definition from_view :: "JobView \<Rightarrow> JobOut" where
  "from_view view =
     (let job = jv_job view
      in \<lparr>jo_id = j_id job, jo_policy = j_policy job, jo_source_type = j_source_type job,
          jo_training_steps = j_training_steps job, jo_status = jv_display_status view,
          jo_queue_position = jv_queue_position view,
          jo_progress = map_option (\<lambda>p. \<lparr>po_step = p_step p, po_total_steps = p_total_steps p, po_loss = p_loss p\<rparr>)
            (j_progress job),
          jo_error_message = j_error_message job, jo_created_at = j_created_at job\<rparr>)"

text \<open>\<open>next(v for v in views if v.job.id == job_id)\<close> raises \<open>StopIteration\<close> when there is none.\<close>

definition job_out_for :: "'j job_repository \<Rightarrow> 'j \<Rightarrow> string \<Rightarrow> string \<Rightarrow> exn + JobOut" where
  "job_out_for R jobs user_id job_id =
     and_then (JobService_list_jobs_for_user R jobs user_id) (\<lambda>views.
       case find (\<lambda>v. j_id (jv_job v) = job_id) views of
         None \<Rightarrow> Inl StopIteration
       | Some view \<Rightarrow> Inr (from_view view))"

definition api_list_my_jobs ::
    "('j, 'u, 'o) Dependencies \<Rightarrow> datetime \<Rightarrow> string option \<Rightarrow> ('j, 'u, 'o) backend \<Rightarrow>
     JobOut list reply \<times> ('j, 'u, 'o) backend" where
  "api_list_my_jobs P now authorization =
     as_user P now authorization (\<lambda>user_id b.
       (respond 200
          (and_then (JobService_list_jobs_for_user (dp_job_repository P) (b_jobs b) user_id)
             (\<lambda>views. Inr (map from_view views))), b))"

definition api_cancel_job ::
    "('j, 'u, 'o) Dependencies \<Rightarrow> datetime \<Rightarrow> string option \<Rightarrow> string \<Rightarrow> ('j, 'u, 'o) backend \<Rightarrow>
     JobOut reply \<times> ('j, 'u, 'o) backend" where
  "api_cancel_job P now authorization job_id =
     as_user P now authorization (\<lambda>user_id b.
       case JobService_request_cancel (dp_job_repository P) now user_id job_id (b_jobs b) of
         (r, jobs) \<Rightarrow>
           (respond 200 (and_then r (\<lambda>job. job_out_for (dp_job_repository P) jobs user_id (j_id job))),
            b\<lparr>b_jobs := jobs\<rparr>))"

definition api_get_download_url ::
    "('j, 'u, 'o) Dependencies \<Rightarrow> datetime \<Rightarrow> string option \<Rightarrow> string \<Rightarrow> ('j, 'u, 'o) backend \<Rightarrow>
     string reply \<times> ('j, 'u, 'o) backend" where
  "api_get_download_url P now authorization job_id =
     as_user P now authorization (\<lambda>user_id b.
       (respond 200 (JobService_get_download_url (dp_job_repository P) (dp_storage P) (b_jobs b) user_id job_id), b))"

subsection \<open>\<open>api/uploads.py\<close>\<close>

definition api_create_zip_upload_target ::
    "('j, 'u, 'o) Dependencies \<Rightarrow> datetime \<Rightarrow> string option \<Rightarrow> string \<Rightarrow> ('j, 'u, 'o) backend \<Rightarrow>
     (string \<times> string) reply \<times> ('j, 'u, 'o) backend" where
  "api_create_zip_upload_target P now authorization new_id =
     as_user P now authorization (\<lambda>user_id b.
       (Reply 200 (create_upload_target (dp_storage P) new_id user_id None), b))"

text \<open>\<open>Field(gt=0, le=MAX_TRAINING_STEPS)\<close>\<close>

definition steps_field_ok :: "int \<Rightarrow> bool" where
  "steps_field_ok n \<longleftrightarrow> 0 < n \<and> n \<le> MAX_TRAINING_STEPS"

definition api_confirm_zip_upload ::
    "('j, 'u, 'o) Dependencies \<Rightarrow> (nat \<Rightarrow> datetime) \<Rightarrow> string option \<Rightarrow> string \<Rightarrow> string \<Rightarrow> PolicyType \<Rightarrow> int \<Rightarrow>
     ('j, 'u, 'o) backend \<Rightarrow> JobOut reply \<times> ('j, 'u, 'o) backend" where
  "api_confirm_zip_upload P now authorization new_id upload_id policy training_steps =
     as_user P (now 0) authorization (\<lambda>user_id b.
       if \<not> steps_field_ok training_steps then (unprocessable, b)
       else
         (case confirm_zip_upload (dp_job_repository P) (dp_user_repository P) (dp_storage P) (dp_limits P) now
                 new_id (b_users b) user_id upload_id policy training_steps (b_jobs b, b_objects b) of
            (r, (jobs, objects)) \<Rightarrow>
              (respond 200 (and_then r (\<lambda>job. job_out_for (dp_job_repository P) jobs user_id (j_id job))),
               b\<lparr>b_jobs := jobs, b_objects := objects\<rparr>)))"

definition api_submit_hf_dataset ::
    "('j, 'u, 'o) Dependencies \<Rightarrow> (nat \<Rightarrow> datetime) \<Rightarrow> string option \<Rightarrow> string \<Rightarrow> string \<Rightarrow> PolicyType \<Rightarrow> int \<Rightarrow>
     ('j, 'u, 'o) backend \<Rightarrow> JobOut reply \<times> ('j, 'u, 'o) backend" where
  "api_submit_hf_dataset P now authorization new_id repo_id policy training_steps =
     as_user P (now 0) authorization (\<lambda>user_id b.
       if \<not> steps_field_ok training_steps then (unprocessable, b)
       else
         (case submit_hf_dataset (dp_job_repository P) (dp_user_repository P) (dp_hf_hub_client P) now
                 new_id (b_users b) user_id repo_id policy training_steps (b_jobs b) of
            (r, jobs) \<Rightarrow>
              (respond 200 (and_then r (\<lambda>job. job_out_for (dp_job_repository P) jobs user_id (j_id job))),
               b\<lparr>b_jobs := jobs\<rparr>)))"

subsection \<open>\<open>api/internal.py\<close> and \<open>api/dev_storage.py\<close>\<close>

definition api_check_timeouts ::
    "('j, 'u, 'o) Dependencies \<Rightarrow> datetime \<Rightarrow> string option \<Rightarrow> ('j, 'u, 'o) backend \<Rightarrow>
     string list reply \<times> ('j, 'u, 'o) backend" where
  "api_check_timeouts P now x_scheduler_secret b =
     (case verify_scheduler_secret (dp_settings P) x_scheduler_secret of
        Inl e \<Rightarrow> (error_reply e, b)
      | Inr _ \<Rightarrow>
          (case check_and_fail_timed_out_jobs (dp_job_repository P) now (b_jobs b) of
             (r, jobs) \<Rightarrow> (respond 200 (and_then r (\<lambda>failed. Inr (map j_id failed))), b\<lparr>b_jobs := jobs\<rparr>)))"

text \<open>The development stand-in for the bucket exists over the in-memory storage only.\<close>

definition api_put_object ::
    "string \<Rightarrow> blob \<Rightarrow> ('j, 'u, mem_objects) backend \<Rightarrow> unit reply \<times> ('j, 'u, mem_objects) backend" where
  "api_put_object object_path body b = (Reply 204 (), b\<lparr>b_objects := put_bytes object_path body (b_objects b)\<rparr>)"

definition api_get_object ::
    "string \<Rightarrow> ('j, 'u, mem_objects) backend \<Rightarrow> blob reply \<times> ('j, 'u, mem_objects) backend" where
  "api_get_object object_path b =
     (respond 200
        (case mem_open_read_stream (b_objects b) object_path of
           Inl (FileNotFoundError _) \<Rightarrow> Inl (HTTPException 404 ''Object not found'')
         | Inl e \<Rightarrow> Inl e
         | Inr data \<Rightarrow> Inr data), b)"

subsection \<open>\<open>build_app\<close>\<close>

fun split_on :: "char \<Rightarrow> string \<Rightarrow> string \<Rightarrow> string list" where
  "split_on sep acc [] = [rev acc]"
| "split_on sep acc (c # cs) = (if c = sep then rev acc # split_on sep [] cs else split_on sep (c # acc) cs)"

definition cors_origins :: "Settings \<Rightarrow> string list" where
  "cors_origins settings =
     map strip (filter (\<lambda>origin. strip origin \<noteq> []) (split_on (CHR '','') [] (st_cors_allowed_origins settings)))"

text \<open>The development storage is mounted if the storage is an \<open>InMemoryObjectStorage\<close>.\<close>

definition mounted_routers :: "bool \<Rightarrow> string list" where
  "mounted_routers in_memory_storage =
     [''/auth'', ''/uploads'', ''/jobs'', ''/internal''] @ (if in_memory_storage then [''/dev-storage''] else [])"

subsection \<open>Tokens in headers\<close>

lemma strip_same:
  assumes "s \<noteq> []" and "\<not> is_space (hd s)" and "\<not> is_space (last s)"
  shows "strip s = s"
proof -
  have "dropWhile is_space s = s" using assms(1,2) by (cases s) simp_all
  moreover have "dropWhile is_space (rev s) = rev s" using assms(1,3) by (cases "rev s") (simp_all add: last_rev [symmetric] rev_swap)
  ultimately show ?thesis by (simp add: strip_def)
qed

lemma token_not_space: "token_char c \<Longrightarrow> \<not> is_space c"
  by (auto simp: token_char_def is_space_def Let_def)

lemma strip_token: "s \<noteq> [] \<Longrightarrow> list_all token_char s \<Longrightarrow> strip s = s"
  by (rule strip_same) (simp_all add: list_all_iff token_not_space)

lemma jwt_okD:
  assumes "jwt_ok W"
  shows "strip (jwt_encode W p secret ALGORITHM) = jwt_encode W p secret ALGORITHM"
    and "jwt_decode W now token secret [ALGORITHM] = Inr p \<Longrightarrow> \<exists>q. token = jwt_encode W q secret ALGORITHM"
    and "jwt_decode W now token secret [ALGORITHM] = Inl e \<Longrightarrow> is_PyJWTError e"
    and "jwt_decode W now (jwt_encode W p secret ALGORITHM) secret [ALGORITHM] =
        (if whole_seconds (cl_iat p) \<le> now \<and> now < whole_seconds (cl_exp p)
         then Inr (p\<lparr>cl_iat := whole_seconds (cl_iat p), cl_exp := whole_seconds (cl_exp p)\<rparr>)
         else Inl (ExternalError ''Signature has expired''))"
  using assms strip_token unfolding jwt_ok_def by blast+

lemma bearer_header: "strip (removeprefix ''Bearer '' (''Bearer '' @ token)) = strip token"
  by (simp add: removeprefix_def starts_with_def)

lemma bearer_accepted:
  assumes "jwt_ok W" and "t \<le> now"
  shows "get_current_user_id W st now (Some (''Bearer '' @ create_access_token W t u (st_jwt_secret st) d)) =
    (if now < whole_seconds (t + d) then Inr u else Inl (HTTPException 401 ''Invalid or expired token''))"
proof -
  have "starts_with ''Bearer '' (''Bearer '' @ x)" for x by (rule starts_with_append)
  then show ?thesis
    using decode_created [OF assms, of u "st_jwt_secret st" d]
    unfolding get_current_user_id_def by (simp only: option.sel bearer_header) (simp add: create_access_token_def jwt_okD(1) [OF assms(1)])
qed

lemma bearer_decoded:
  assumes W: "jwt_ok W" and run: "decode_access_token W now token secret = r"
  shows "case r of
      Inr v \<Rightarrow> \<exists>q. token = jwt_encode W q secret ALGORITHM \<and> cl_sub q = Some v \<and> now < whole_seconds (cl_exp q)
    | Inl e \<Rightarrow> (\<exists>m. e = InvalidTokenError m) \<or> e = KeyError ''sub''"
proof (cases "jwt_decode W now token secret [ALGORITHM]")
  case (Inl e)
  then obtain m where "e = ExternalError m" using jwt_okD(3) [OF W Inl] by (auto simp: is_PyJWTError_def)
  with Inl run show ?thesis by (auto simp: decode_access_token_def)
next
  case (Inr p)
  then obtain q where q: "token = jwt_encode W q secret ALGORITHM" using jwt_okD(2) [OF W Inr] by blast
  with Inr jwt_okD(4) [OF W, of now q secret] have "cl_sub p = cl_sub q" "now < whole_seconds (cl_exp q)"
    by (auto split: if_splits)
  with Inr run q show ?thesis by (cases "cl_sub q") (auto simp: decode_access_token_def)
qed

subsection \<open>The reply to a submission\<close>

context job_store begin

lemma job_out_for_found:
  assumes wf: "wf_jobs s" and j: "jobs_of s k = Some j" and u: "j_user_id j = u"
  shows "\<exists>pos. job_out_for R s u k =
      Inr (from_view \<lparr>jv_job = j, jv_display_status = DISPLAY_STATUS (j_status j), jv_queue_position = pos\<rparr>) \<and>
    (if j_status j = QUEUED
     then \<exists>queued i. jr_list_by_statuses R s [QUEUED] = Inr queued \<and> i < length queued \<and> queued ! i = j \<and> pos = Some (int i + 1)
     else pos = None)"
proof -
  obtain mine queued views where
    mine: "enumerates j_id (jobs_of s) (\<lambda>j. j_user_id j = u) mine" and
    queued: "jr_list_by_statuses R s [QUEUED] = Inr queued" and
    views: "JobService_list_jobs_for_user R s u = Inr views" and
    def: "views = map (\<lambda>j. \<lparr>jv_job = j, jv_display_status = DISPLAY_STATUS (j_status j),
        jv_queue_position = (if j_status j = QUEUED
          then map_option (\<lambda>i. int i + 1) (index_of j queued) else None)\<rparr>) mine" and
    some: "\<forall>j \<in> set mine. j_status j = QUEUED \<longrightarrow> index_of j queued \<noteq> None"
    using wf by (rule list_jobs_spec)
  let ?view = "\<lambda>j. \<lparr>jv_job = j, jv_display_status = DISPLAY_STATUS (j_status j),
        jv_queue_position = (if j_status j = QUEUED
          then map_option (\<lambda>i. int i + 1) (index_of j queued) else None)\<rparr>"
  have id: "j_id j = k" using keyedD [OF jobs_keyed [OF wf] j] .
  have mem: "j \<in> set mine" using enumeratesI_mem [OF mine jobs_keyed [OF wf] j] u by simp
  have unique: "i = j" if "i \<in> set mine" "j_id i = k" for i
    using enumeratesD(2) [OF mine that(1)] that(2) j by simp
  have found: "find (\<lambda>v. j_id (jv_job v) = k) (map ?view js) = Some (?view j)"
    if "j \<in> set js" "set js \<subseteq> set mine" for js
    using that
  proof (induction js)
    case (Cons i js)
    show ?case
    proof (cases "j_id i = k")
      case True
      with Cons.prems unique [of i] show ?thesis by simp
    next
      case False
      with Cons.prems id have "j \<in> set js" by auto
      with False Cons show ?thesis by simp
    qed
  qed simp
  have out: "job_out_for R s u k = Inr (from_view (?view j))"
    using found [OF mem order.refl] views def by (simp add: job_out_for_def)
  show ?thesis
  proof (cases "j_status j = QUEUED")
    case True
    then obtain i where i: "index_of j queued = Some i" using some mem by auto
    with True out queued index_of_SomeD [OF i] show ?thesis by auto
  next
    case False
    with out show ?thesis by auto
  qed
qed

end

subsection \<open>Properties\<close>

text \<open>
  C11: The backend takes exactly the bearer tokens it issued. A header with a token issued to a user
  identifies that user until the token expires, and from then on is answered with 401. Whatever the
  header, an accepted one carries a token signed with the backend's secret, unexpired and issued to
  the user it is accepted for; and a route that needs a user leaves the state untouched, and replies
  401 or 500, when the header is not accepted.
\<close>

theorem bearer_authentication:
  assumes W: "jwt_ok (dp_jwt P)" and time: "t \<le> now"
  shows "get_current_user_id (dp_jwt P) (dp_settings P) now
      (Some (''Bearer '' @ create_access_token (dp_jwt P) t u (st_jwt_secret (dp_settings P)) d)) =
      (if now < whole_seconds (t + d) then Inr u else Inl (HTTPException 401 ''Invalid or expired token'')) \<and>
    (case get_current_user_id (dp_jwt P) (dp_settings P) now header of
       Inr v \<Rightarrow>
         (\<exists>h q. header = Some h \<and> starts_with ''Bearer '' h \<and>
            strip (drop 7 h) = jwt_encode (dp_jwt P) q (st_jwt_secret (dp_settings P)) ''HS256'' \<and>
            cl_sub q = Some v \<and> now < whole_seconds (cl_exp q))
     | Inl e \<Rightarrow> \<forall>b. \<exists>n m. as_user P now header route b = (ErrorReply n m, b) \<and> n \<in> {401, 500})"
proof -
  let ?r = "get_current_user_id (dp_jwt P) (dp_settings P) now header"
  have "case ?r of
       Inr v \<Rightarrow>
         (\<exists>h q. header = Some h \<and> starts_with ''Bearer '' h \<and>
            strip (drop 7 h) = jwt_encode (dp_jwt P) q (st_jwt_secret (dp_settings P)) ALGORITHM \<and>
            cl_sub q = Some v \<and> now < whole_seconds (cl_exp q))
     | Inl e \<Rightarrow> (\<exists>m. e = HTTPException 401 m) \<or> e = KeyError ''sub''"
  proof (cases "truthy header \<and> starts_with ''Bearer '' (the header)")
    case False
    then have "?r = Inl (HTTPException 401 ''Missing bearer token'')" by (auto simp: get_current_user_id_def)
    then show ?thesis by simp
  next
    case True
    then obtain h where h: "header = Some h" "starts_with ''Bearer '' h" by (cases header) auto
    have token: "removeprefix ''Bearer '' h = drop 7 h" using h(2) by (simp add: removeprefix_def eval_nat_numeral)
    note d = bearer_decoded [OF W refl, where now = now and token = "strip (drop 7 h)" and secret = "st_jwt_secret (dp_settings P)"]
    show ?thesis
    proof (cases "decode_access_token (dp_jwt P) now (strip (drop 7 h)) (st_jwt_secret (dp_settings P))")
      case (Inl e)
      with d have "(\<exists>m. e = InvalidTokenError m) \<or> e = KeyError ''sub''" by simp
      with Inl True h token show ?thesis by (auto simp: get_current_user_id_def)
    next
      case (Inr v)
      with True h token have "?r = Inr v" by (simp add: get_current_user_id_def)
      with d Inr h show ?thesis by auto
    qed
  qed
  then show ?thesis
    using bearer_accepted [OF W time, of "dp_settings P" u d]
    by (auto simp: as_user_def error_reply_def ALGORITHM_def split: sum.splits)
qed

theorem bearer_authentication_witness:
  "get_current_user_id reference_jwt default_settings 5
     (Some (''Bearer '' @ create_access_token reference_jwt 0 ''u1'' ''dev-secret-change-me'' DEFAULT_EXPIRES_IN)) = Inr ''u1''"
proof -
  let ?P = "fake_dependencies reference_bcrypt reference_jwt default_settings"
  have dep: "dp_jwt ?P = reference_jwt" "dp_settings ?P = default_settings"
    by (simp_all add: fake_dependencies_def build_dependencies_def)
  have secret: "st_jwt_secret default_settings = ''dev-secret-change-me''"
    by (simp add: default_settings_def)
  have valid: "5 < whole_seconds (0 + DEFAULT_EXPIRES_IN)"
    by (simp add: DEFAULT_EXPIRES_IN_def whole_seconds_def seconds_def)
  show ?thesis
    using conjunct1 [OF bearer_authentication [of ?P 0 5 "''u1''" DEFAULT_EXPIRES_IN None "\<lambda>_ b. (Reply 200 (), b)"]]
      reference_jwt_ok valid
    unfolding dep secret by simp
qed

text \<open>
  C12: The reply to a submission that created a job is never an error: the job is found among the
  user's jobs, shown as queued, with a queue position between 1 and the number of queued jobs that
  is its place in the queue, oldest first.
\<close>

theorem submission_reply:
  assumes R: "job_store R jobs_of wf_jobs" and wf: "wf_jobs jobs" and usr: "ur_get U users u = Inr (Some usr)"
    and run: "JobService_create_job R U now new_id users u p st ref n jobs = (Inr job, jobs')"
  shows "\<exists>out queued i. job_out_for R jobs' u (j_id job) = Inr out \<and>
    jo_id out = new_id \<and> jo_status out = ''queued'' \<and> jo_training_steps out = n \<and>
    jr_list_by_statuses R jobs' [QUEUED] = Inr queued \<and> sorted (map j_created_at queued) \<and>
    i < length queued \<and> queued ! i = job \<and> jo_queue_position out = Some (int i + 1)"
proof -
  note spec = job_store.create_job_spec [OF R wf usr, of now new_id p st ref n]
  from spec run have job: "job = new_job new_id u p st ref n (now 1)" and jobs': "jobs' = jr_create R job jobs"
    by (auto split: if_splits)
  have wf': "wf_jobs jobs'" unfolding jobs' by (rule job_store.create_job_wf [OF R wf])
  have stored: "jobs_of jobs' (j_id job) = Some job" unfolding jobs' by (simp add: job_store.create_job_law [OF R wf])
  have facts: "j_user_id job = u" "j_status job = QUEUED" "j_id job = new_id" "j_training_steps job = n"
    by (simp_all add: job new_job_def)
  from job_store.job_out_for_found [OF R wf' stored facts(1)] facts(2) obtain pos queued i where
    "job_out_for R jobs' u (j_id job) =
      Inr (from_view \<lparr>jv_job = job, jv_display_status = DISPLAY_STATUS (j_status job), jv_queue_position = pos\<rparr>)"
    and q: "jr_list_by_statuses R jobs' [QUEUED] = Inr queued" "i < length queued" "queued ! i = job" "pos = Some (int i + 1)"
    by auto
  moreover obtain queued' where "jr_list_by_statuses R jobs' [QUEUED] = Inr queued'" "sorted (map j_created_at queued')"
    using job_store.listed_by_statuses [OF R wf'] by metis
  ultimately show ?thesis using facts
    by (intro exI [of _ "from_view \<lparr>jv_job = job, jv_display_status = DISPLAY_STATUS (j_status job), jv_queue_position = pos\<rparr>"]
        exI [of _ queued] exI [of _ i]) (simp add: from_view_def Let_def)
qed

theorem submission_reply_witness:
  "\<exists>out. job_out_for memory_job_repository
     (snd (JobService_create_job memory_job_repository memory_user_repository (\<lambda>_. 5) ''j1'' [(''u'', demo_user ''u'')]
       ''u'' ACT HF_HUB ''org/repo'' 100 [])) ''u'' ''j1'' = Inr out \<and> jo_queue_position out = Some 1"
proof -
  let ?run = "JobService_create_job memory_job_repository memory_user_repository (\<lambda>_. 5) ''j1'' [(''u'', demo_user ''u'')]
       ''u'' ACT HF_HUB ''org/repo'' 100 []"
  have wf: "mem_jobs_ok []" by (simp add: mem_jobs_ok_def)
  have usr: "ur_get memory_user_repository [(''u'', demo_user ''u'')] ''u'' = Inr (Some (demo_user ''u''))"
    by (simp add: port_simps)
  let ?job = "new_job ''j1'' ''u'' ACT HF_HUB ''org/repo'' 100 5"
  have run: "?run = (Inr ?job, [(''j1'', ?job)])"
    using memj.create_job_spec [OF wf usr, of "\<lambda>_. 5" "''j1''" ACT HF_HUB "''org/repo''" 100]
    by (simp add: has_active_job_def effective_daily_used_def demo_user_def MAX_DAILY_JOBS_def port_simps mem_put_job_def)
  from submission_reply [OF memj.job_store_axioms wf usr run] obtain out queued i where
    o: "job_out_for memory_job_repository [(''j1'', ?job)] ''u'' ''j1'' = Inr out" "jo_queue_position out = Some (int i + 1)"
    and q: "jr_list_by_statuses memory_job_repository [(''j1'', ?job)] [QUEUED] = Inr queued" "i < length queued" by auto
  from q have "i = 0" by (auto simp: port_simps mem_list_by_statuses_def)
  with o run show ?thesis by simp
qed

end
