(* ===== verification/Worker_World.thy ===== *)
theory Worker_World
  imports Ports
begin

text \<open>
  What the worker's components share: the settings of \<open>worker/config.py\<close>, the adapters and settings
  a worker is wired with (\<open>worker/deps.py\<close>) and the state those adapters act on. \<open>world\<close> is the whole
  persistent state of the system: both repositories, the object storage, the Docker daemon and the
  worker host's file system.
\<close>

record WorkerSettings =
  ws_lock_file_path :: string
  ws_hf_cache_dir :: string
  ws_hf_cache_max_bytes :: int
  ws_workdir :: string
  ws_tmp_stale_after_seconds :: int
  ws_poll_interval_seconds :: pyfloat
  ws_act_image :: string
  ws_smolvla_image :: string
  ws_gcs_bucket :: string
  ws_firestore_database_id :: string
  ws_gcp_project_id :: "string option"
  ws_use_fake_adapters :: bool
  ws_use_gpu :: bool

definition default_worker_settings :: WorkerSettings where
  "default_worker_settings =
     \<lparr>ws_lock_file_path = ''/run/lerobot-worker/lerobot-worker.lock'',
      ws_hf_cache_dir = ''/var/lib/lerobot-worker/hf-cache'',
      ws_hf_cache_max_bytes = 20 * 1024 ^ 3,
      ws_workdir = ''/var/lib/lerobot-worker/jobs'',
      ws_tmp_stale_after_seconds = 60 * 60,
      ws_poll_interval_seconds = Fin 5,
      ws_act_image = ''lerobot-train-act:latest'',
      ws_smolvla_image = ''lerobot-train-smolvla:latest'',
      ws_gcs_bucket = ''lerobot-training-service-dev'',
      ws_firestore_database_id = ''(default)'',
      ws_gcp_project_id = None,
      ws_use_fake_adapters = False,
      ws_use_gpu = True\<rparr>"

record ('j, 'u, 'o, 'd) WorkerDependencies =
  wd_settings :: WorkerSettings
  wd_job_repository :: "'j job_repository"
  wd_user_repository :: "'u user_repository"
  wd_docker_client :: "'d docker_client"
  wd_object_storage :: "'o object_storage"
  wd_hf_hub_client :: hf_hub_client
  wd_upload_retries :: nat
  wd_deflated_size :: "zip_member list \<Rightarrow> int"

record ('j, 'u, 'o, 'd) world =
  w_jobs :: 'j
  w_users :: 'u
  w_objects :: 'o
  w_docker :: 'd
  w_fs :: fsys

text \<open>\<open>Path(workdir) / job.id\<close>\<close>

definition job_path :: "string \<Rightarrow> Job \<Rightarrow> path" where
  "job_path workdir job = path_of_string workdir @ path_of_string (j_id job)"

definition write_job :: "'j job_repository \<Rightarrow> Job \<Rightarrow> ('j, 'u, 'o, 'd) world \<Rightarrow> ('j, 'u, 'o, 'd) world" where
  "write_job R job w = w\<lparr>w_jobs := jr_update R job (w_jobs w)\<rparr>"

lemma write_job_fields [simp]:
  "w_jobs (write_job R j w) = jr_update R j (w_jobs w)" "w_users (write_job R j w) = w_users w"
  "w_objects (write_job R j w) = w_objects w" "w_docker (write_job R j w) = w_docker w"
  "w_fs (write_job R j w) = w_fs w"
  by (simp_all add: write_job_def)

text \<open>The job's active container, as the contract of the Docker client shows it.\<close>

definition labelled :: "(string \<times> string) list \<Rightarrow> bool" where
  "labelled ls \<longleftrightarrow> LEROBOT_JOB_ID_LABEL \<in> fst ` set ls"

end
