(* ===== verification/Heartbeat_Updater.thy ===== *)
theory Heartbeat_Updater
  imports Ports Heartbeat
begin

text \<open>
  \<open>worker/heartbeat_updater.py\<close>: the two ways the heartbeat of the monitored job is renewed. Both
  write the job they are given, with every other field as the caller last saw it.
\<close>

definition mark_container_alive :: "'j job_repository \<Rightarrow> datetime \<Rightarrow> Job \<Rightarrow> 'j \<Rightarrow> Job \<times> 'j" where
  "mark_container_alive R now job jobs =
     (let updated = job\<lparr>j_heartbeat_at := Some now\<rparr> in (updated, jr_update R updated jobs))"

definition record_progress :: "'j job_repository \<Rightarrow> datetime \<Rightarrow> Job \<Rightarrow> Progress \<Rightarrow> 'j \<Rightarrow> Job \<times> 'j" where
  "record_progress R now job latest_progress jobs =
     (if \<not> progress_changed (j_progress job) latest_progress then (job, jobs)
      else
        (let updated = job\<lparr>j_progress := Some latest_progress, j_heartbeat_at := Some now\<rparr>
         in (updated, jr_update R updated jobs)))"

lemma heartbeat_evolves:
  assumes "j_status j \<notin> set TERMINAL_STATUSES"
  shows "evolves_to j (j\<lparr>j_heartbeat_at := h\<rparr>)"
    and "evolves_to j (j\<lparr>j_progress := p, j_heartbeat_at := h\<rparr>)"
  using assms by (auto intro!: evolves_to_writeI reaches_refl simp: same_submission_def)

end
