(* ===== verification/Iso_Time.thy ===== *)
theory Iso_Time
  imports Prelude
begin

text \<open>
  The ISO 8601 texts of Python's \<open>date\<close> and \<open>datetime\<close> (UTC only): \<open>isoformat\<close> and the part of
  \<open>fromisoformat\<close> that reads such texts back; every other text is rejected, so the further
  spellings Python's parser accepts are not modelled. Dates follow the proleptic Gregorian calendar.
\<close>

subsection \<open>Digits\<close>

fun pad :: "nat \<Rightarrow> int \<Rightarrow> string" where
  "pad 0 n = []"
| "pad (Suc w) n = pad w (n div 10) @ [char_of (48 + nat (n mod 10))]"

fun digits_value :: "int \<Rightarrow> string \<Rightarrow> int option" where
  "digits_value acc [] = Some acc"
| "digits_value acc (c # cs) =
     (if 48 \<le> (of_char c :: nat) \<and> (of_char c :: nat) \<le> 57
      then digits_value (10 * acc + int (of_char c) - 48) cs else None)"

lemma length_pad [simp]: "length (pad w n) = w"
  by (induction w arbitrary: n) simp_all

lemma digits_value_append:
  "digits_value acc (xs @ ys) = (case digits_value acc xs of Some a \<Rightarrow> digits_value a ys | None \<Rightarrow> None)"
  by (induction acc xs rule: digits_value.induct) auto

lemma digits_pad: "0 \<le> n \<Longrightarrow> n < 10 ^ w \<Longrightarrow> digits_value 0 (pad w n) = Some n"
proof (induction w arbitrary: n)
  case (Suc w)
  then have "digits_value 0 (pad w (n div 10)) = Some (n div 10)" by (intro Suc.IH) auto
  moreover have "(of_char (char_of (48 + nat (n mod 10)) :: char) :: nat) = 48 + nat (n mod 10)"
    by (simp add: of_char_of take_bit_eq_mod)
  ultimately show ?case
    by (simp add: digits_value_append del: of_char_of)
qed simp

subsection \<open>The calendar\<close>

definition is_leap :: "int \<Rightarrow> bool" where
  "is_leap y \<longleftrightarrow> y mod 4 = 0 \<and> (y mod 100 \<noteq> 0 \<or> y mod 400 = 0)"

definition days_before_year :: "int \<Rightarrow> int" where
  "days_before_year y = (let p = y - 1 in p * 365 + p div 4 - p div 100 + p div 400)"

fun days_in_month :: "int \<Rightarrow> nat \<Rightarrow> int" where
  "days_in_month y m = (if m = 2 then (if is_leap y then 29 else 28) else if m \<in> {4, 6, 9, 11} then 30 else 31)"

fun year_from :: "nat \<Rightarrow> int \<Rightarrow> int \<Rightarrow> int" where
  "year_from 0 y n = y"
| "year_from (Suc k) y n = (if days_before_year (y + 1) \<le> n then year_from k (y + 1) n else y)"

text \<open>The month a day of the year falls into, and the day of that month, both from 1.\<close>

fun month_from :: "int \<Rightarrow> nat list \<Rightarrow> int \<Rightarrow> nat \<times> int" where
  "month_from y [] n = (12, n + 1)"
| "month_from y (m # ms) n =
     (if n < days_in_month y m then (m, n + 1) else month_from y ms (n - days_in_month y m))"

definition EPOCH_ORDINAL :: int where "EPOCH_ORDINAL = 719162"

text \<open>
  The year is searched upwards from a lower bound that falls short by fewer than 26 years for the
  dates Python has (\<open>year_from\<close> counts down from 30).
\<close>

definition civil :: "date \<Rightarrow> int \<times> nat \<times> int" where
  "civil d =
     (let n = d + EPOCH_ORDINAL;
          y = year_from 30 (n div 366 + 1) n;
          (m, day) = month_from y [1 ..< 12] (n - days_before_year y)
      in (y, m, day))"

definition date_from :: "int \<Rightarrow> nat \<Rightarrow> int \<Rightarrow> date" where
  "date_from y m day =
     days_before_year y + sum_list (map (days_in_month y) [1 ..< m]) + day - 1 - EPOCH_ORDINAL"

lemma month_from_sum:
  "month_from y [m ..< 12] n = (k, day) \<Longrightarrow> 1 \<le> m \<Longrightarrow> m \<le> 12 \<Longrightarrow>
     m \<le> k \<and> k \<le> 12 \<and> n + 1 = sum_list (map (days_in_month y) [m ..< k]) + day"
proof (induction "12 - m" arbitrary: m n)
  case (Suc x)
  then have lt: "m < 12" and up: "[m ..< 12] = m # [Suc m ..< 12]" by (simp_all add: upt_conv_Cons)
  show ?case
  proof (cases "n < days_in_month y m")
    case False
    with Suc.prems(1) have rest: "month_from y [Suc m ..< 12] (n - days_in_month y m) = (k, day)"
      by (simp add: up del: days_in_month.simps)
    with Suc lt have "Suc m \<le> k \<and> k \<le> 12 \<and>
        n - days_in_month y m + 1 = sum_list (map (days_in_month y) [Suc m ..< k]) + day"
      by (intro Suc.hyps(1)) auto
    then show ?thesis by (auto simp: upt_conv_Cons simp del: days_in_month.simps)
  qed (use Suc.prems lt up in \<open>auto simp del: days_in_month.simps\<close>)
qed auto

lemma civil_roundtrip: "civil d = (y, m, day) \<Longrightarrow> date_from y m day = d"
  using month_from_sum [of y 1 "d + EPOCH_ORDINAL - days_before_year y" m day]
  by (auto simp: civil_def date_from_def Let_def split: prod.splits)

subsection \<open>Bounds\<close>

lemma div_step:
  fixes y k :: int
  assumes "0 < k"
  shows "y div k = (y - 1) div k + (if y mod k = 0 then 1 else 0)"
proof -
  let ?q = "(y - 1) div k" and ?r = "(y - 1) mod k"
  have y: "y = k * ?q + (?r + 1)" by (simp add: algebra_simps)
  have r: "0 \<le> ?r" "?r < k" using assms by simp_all
  show ?thesis
  proof (cases "?r + 1 = k")
    case True
    then have "y = k * (?q + 1)" using y by (simp add: algebra_simps)
    then have "y div k = ?q + 1" and "y mod k = 0"
      using assms by (metis nonzero_mult_div_cancel_left less_irrefl, metis mod_mult_self1_is_0)
    then show ?thesis by simp
  next
    case False
    then have "y div k = ?q" and "y mod k = ?r + 1"
      using y r by (auto intro!: int_div_pos_eq [of y k ?q "?r + 1"] int_mod_pos_eq [of y k ?q "?r + 1"])
    then show ?thesis using r by simp
  qed
qed

lemma leap_divisors:
  fixes y :: int
  shows "y mod 400 = 0 \<Longrightarrow> y mod 100 = 0" and "y mod 100 = 0 \<Longrightarrow> y mod 4 = 0"
  by (auto simp: mod_eq_0_iff_dvd intro: dvd_trans [of 100 400] dvd_trans [of 4 100])

lemma days_before_year_step: "days_before_year (y + 1) = days_before_year y + (if is_leap y then 366 else 365)"
proof -
  have next_year: "days_before_year (y + 1) = y * 365 + y div 4 - y div 100 + y div 400"
    by (simp only: days_before_year_def Let_def add_diff_cancel_right')
  have this_year: "days_before_year y =
      y * 365 - 365 + (y - 1) div 4 - (y - 1) div 100 + (y - 1) div 400"
    by (simp only: days_before_year_def Let_def left_diff_distrib mult_1)
  have leap: "(if is_leap y then 366 else 365) =
      365 + (if y mod 4 = 0 then 1 else 0) - (if y mod 100 = 0 then 1 else 0) + (if y mod 400 = 0 then 1 else (0::int))"
  proof -
    have pure: "(if a \<and> (\<not> b \<or> c) then 366 else 365) =
        365 + (if a then 1 else 0) - (if b then 1 else 0) + (if c then 1 else (0::int))"
      if "c \<longrightarrow> b" "b \<longrightarrow> a" for a b c using that by (cases a; cases b; cases c) simp_all
    show ?thesis unfolding is_leap_def using leap_divisors [of y] by (intro pure impI)
  qed
  have sum: "n = t + l" if "n = p + a - b + c" "t = p - 365 + a' - b' + c'" "a = a' + i" "b = b' + j"
    "c = c' + k" "l = 365 + i - j + k" for n t l p a b c a' b' c' i j k :: int
    using that by simp
  show ?thesis
    by (rule sum [OF next_year this_year div_step [of 4 y] div_step [of 100 y] div_step [of 400 y] leap]) simp_all
qed

lemma year_from_lower: "days_before_year y \<le> n \<Longrightarrow> days_before_year (year_from k y n) \<le> n"
  by (induction k y n rule: year_from.induct) auto

lemma year_from_ge: "y \<le> year_from k y n"
proof (induction k y n rule: year_from.induct)
  case (2 k y n)
  then show ?case by auto
qed simp

lemma year_from_upper:
  "n < days_before_year (y + int k + 1) \<Longrightarrow> n < days_before_year (year_from k y n + 1)"
proof (induction k y n rule: year_from.induct)
  case (2 k y n)
  then show ?case by (auto simp: algebra_simps)
qed simp

lemma civil_year:
  assumes "0 \<le> n" and "n < 3652059"
  defines "y \<equiv> year_from 30 (n div 366 + 1) n"
  shows "days_before_year y \<le> n" and "n < days_before_year (y + 1)" and "1 \<le> y" and "y \<le> 9999"
proof -
  have low: "days_before_year (n div 366 + 1) \<le> n"
    using assms(1) by (simp add: days_before_year_def Let_def)
  then show lo: "days_before_year y \<le> n" unfolding y_def by (rule year_from_lower)
  have "n < days_before_year (n div 366 + 1 + int 30 + 1)"
    using assms(1,2) by (simp add: days_before_year_def Let_def)
  then show "n < days_before_year (y + 1)" unfolding y_def by (rule year_from_upper)
  show "1 \<le> y" using year_from_ge [of "n div 366 + 1" 30 n] assms(1) unfolding y_def by simp
  show "y \<le> 9999"
  proof (rule ccontr)
    assume "\<not> y \<le> 9999"
    then have "3652059 \<le> days_before_year y" by (simp add: days_before_year_def Let_def)
    with lo assms(2) show False by simp
  qed
qed

lemma month_from_day:
  "month_from y [m ..< 12] n = (k, day) \<Longrightarrow> 1 \<le> m \<Longrightarrow> m \<le> 12 \<Longrightarrow> 0 \<le> n \<Longrightarrow>
     n < sum_list (map (days_in_month y) [m ..< 13]) \<Longrightarrow> 1 \<le> day \<and> day \<le> days_in_month y k"
proof (induction "12 - m" arbitrary: m n)
  case 0
  then have "m = 12" by simp
  moreover have "[12 ..< 13] = [12 :: nat]" by (simp add: upt_conv_Cons)
  ultimately show ?case using 0 by (auto simp del: days_in_month.simps)
next
  case (Suc x)
  then have lt: "m < 12" and up: "[m ..< 12] = m # [Suc m ..< 12]" "[m ..< 13] = m # [Suc m ..< 13]"
    by (simp_all add: upt_conv_Cons)
  show ?case
  proof (cases "n < days_in_month y m")
    case False
    with Suc.prems(1) have rest: "month_from y [Suc m ..< 12] (n - days_in_month y m) = (k, day)"
      by (simp add: up del: days_in_month.simps)
    show ?thesis
    proof (rule Suc.hyps(1) [OF _ rest])
      show "x = 12 - Suc m" "1 \<le> Suc m" "Suc m \<le> 12" using Suc.hyps(2) lt by simp_all
      show "0 \<le> n - days_in_month y m" using False by simp
      show "n - days_in_month y m < sum_list (map (days_in_month y) [Suc m ..< 13])"
        using Suc.prems(5) up(2) by (simp del: days_in_month.simps)
    qed
  qed (use Suc.prems lt up in \<open>auto simp del: days_in_month.simps\<close>)
qed

lemma year_length: "sum_list (map (days_in_month y) [1 ..< 13]) = (if is_leap y then 366 else 365)"
  by (simp add: upt_conv_Cons)

lemma civil_bounds:
  assumes "0 \<le> d + EPOCH_ORDINAL" and "d + EPOCH_ORDINAL < 3652059" and c: "civil d = (y, m, day)"
  shows "1 \<le> y" "y \<le> 9999" "1 \<le> m" "m \<le> 12" "1 \<le> day" "day \<le> days_in_month y m"
proof -
  let ?n = "d + EPOCH_ORDINAL" and ?k = "d + EPOCH_ORDINAL - days_before_year y"
  have y: "y = year_from 30 (?n div 366 + 1) ?n" and m: "month_from y [1 ..< 12] ?k = (m, day)"
    using c by (auto simp: civil_def Let_def split: prod.splits)
  note yr = civil_year [OF assms(1,2), folded y]
  then show "1 \<le> y" "y \<le> 9999" by simp_all
  have "0 \<le> ?k" and "?k < sum_list (map (days_in_month y) [1 ..< 13])"
    using yr days_before_year_step [of y] unfolding year_length by simp_all
  with month_from_day [OF m] month_from_sum [OF m]
  show "1 \<le> m" "m \<le> 12" "1 \<le> day" "day \<le> days_in_month y m" by simp_all
qed

subsection \<open>Texts\<close>

definition date_isoformat :: "date \<Rightarrow> string" where
  "date_isoformat d =
     (case civil d of (y, m, day) \<Rightarrow> pad 4 y @ ''-'' @ pad 2 (int m) @ ''-'' @ pad 2 day)"

definition valid_date :: "int \<Rightarrow> int \<Rightarrow> int \<Rightarrow> date option" where
  "valid_date y m day =
     (if 1 \<le> y \<and> 1 \<le> m \<and> m \<le> 12 \<and> 1 \<le> day \<and> day \<le> days_in_month y (nat m)
      then Some (date_from y (nat m) day) else None)"

definition date_fromisoformat :: "string \<Rightarrow> date option" where
  "date_fromisoformat s =
     (if length s = 10 \<and> s ! 4 = CHR ''-'' \<and> s ! 7 = CHR ''-''
      then (case (digits_value 0 (take 4 s), digits_value 0 (take 2 (drop 5 s)), digits_value 0 (drop 8 s)) of
              (Some y, Some m, Some day) \<Rightarrow> valid_date y m day
            | _ \<Rightarrow> None)
      else None)"

definition DAY :: timedelta where "DAY = 86400000000"

definition isoformat :: "datetime \<Rightarrow> string" where
  "isoformat t =
     (let r = t mod DAY; s = r div 1000000; us = r mod 1000000
      in date_isoformat (date_of t) @ ''T'' @ pad 2 (s div 3600) @ '':'' @ pad 2 (s div 60 mod 60) @ '':'' @
         pad 2 (s mod 60) @ (if us = 0 then [] else ''.'' @ pad 6 us) @ ''+00:00'')"

definition valid_time :: "int \<Rightarrow> int \<Rightarrow> int \<Rightarrow> timedelta option" where
  "valid_time h mi s =
     (if h < 24 \<and> mi < 60 \<and> s < 60 then Some (seconds (h * 3600 + mi * 60 + s)) else None)"

definition time_fromisoformat :: "string \<Rightarrow> timedelta option" where
  "time_fromisoformat s =
     (if length s = 8 \<and> s ! 2 = CHR '':'' \<and> s ! 5 = CHR '':''
      then (case (digits_value 0 (take 2 s), digits_value 0 (take 2 (drop 3 s)), digits_value 0 (drop 6 s)) of
              (Some h, Some mi, Some sec) \<Rightarrow> valid_time h mi sec
            | _ \<Rightarrow> None)
      else None)"

definition fraction_fromisoformat :: "string \<Rightarrow> timedelta option" where
  "fraction_fromisoformat s =
     (if s = ''+00:00'' then Some 0
      else if length s = 13 \<and> s ! 0 = CHR ''.'' \<and> drop 7 s = ''+00:00''
      then digits_value 0 (take 6 (drop 1 s))
      else None)"

definition fromisoformat :: "string \<Rightarrow> datetime option" where
  "fromisoformat s =
     (if 10 < length s \<and> s ! 10 = CHR ''T''
      then (case (date_fromisoformat (take 10 s), time_fromisoformat (take 8 (drop 11 s)),
                  fraction_fromisoformat (drop 19 s)) of
              (Some d, Some t, Some f) \<Rightarrow> Some (d * DAY + t + f)
            | _ \<Rightarrow> None)
      else None)"

text \<open>The dates Python can represent: from 0001-01-01 to 9999-12-31.\<close>

definition python_date :: "date \<Rightarrow> bool" where
  "python_date d \<longleftrightarrow> 0 \<le> d + EPOCH_ORDINAL \<and> d + EPOCH_ORDINAL < 3652059"

lemma length_date_isoformat: "length (date_isoformat d) = 10"
  by (auto simp: date_isoformat_def split: prod.splits)

lemma date_roundtrip:
  assumes "python_date d"
  shows "date_fromisoformat (date_isoformat d) = Some d"
proof -
  obtain y m day where c: "civil d = (y, m, day)" by (cases "civil d")
  note b = civil_bounds [OF _ _ c]
  have "0 \<le> d + EPOCH_ORDINAL" "d + EPOCH_ORDINAL < 3652059" using assms by (simp_all add: python_date_def)
  note b = b [OF this]
  have "days_in_month y m \<le> 31" by simp
  with b have "day < 100" by linarith
  then have "digits_value 0 (pad 4 y) = Some y" "digits_value 0 (pad 2 (int m)) = Some (int m)"
    "digits_value 0 (pad 2 day) = Some day"
    using b(1-5) by (intro digits_pad; simp)+
  moreover have "valid_date y (int m) day = Some d"
    using b civil_roundtrip [OF c] by (simp add: valid_date_def del: days_in_month.simps)
  ultimately show ?thesis
    by (simp add: date_fromisoformat_def date_isoformat_def c nth_append)
qed

lemma digits_pad2: "0 \<le> n \<Longrightarrow> n < 60 \<Longrightarrow> digits_value 0 (pad 2 n) = Some n"
  by (rule digits_pad) simp_all

lemma time_parts:
  assumes "0 \<le> h" "h < 24" "0 \<le> mi" "mi < 60" "0 \<le> s" "s < 60"
  shows "time_fromisoformat (pad 2 h @ '':'' @ pad 2 mi @ '':'' @ pad 2 s) = Some (seconds (h * 3600 + mi * 60 + s))"
  using assms
  by (simp add: time_fromisoformat_def valid_time_def nth_append digits_pad2 del: pad.simps)

lemma time_roundtrip:
  assumes "0 \<le> s" and "s < 86400"
  shows "time_fromisoformat (pad 2 (s div 3600) @ '':'' @ pad 2 (s div 60 mod 60) @ '':'' @ pad 2 (s mod 60)) =
    Some (seconds s)"
proof -
  have b: "0 \<le> s div 3600" "s div 3600 < 24" using assms by auto
  have m: "0 \<le> k mod 60 \<and> k mod 60 < 60" for k :: int by simp
  have "time_fromisoformat (pad 2 (s div 3600) @ '':'' @ pad 2 (s div 60 mod 60) @ '':'' @ pad 2 (s mod 60)) =
      Some (seconds (s div 3600 * 3600 + s div 60 mod 60 * 60 + s mod 60))"
    using b m [of "s div 60"] m [of s] by (intro time_parts) blast+
  moreover have "s div 3600 * 3600 + s div 60 mod 60 * 60 + s mod 60 = s"
  proof -
    have split: "a * 3600 + b * 60 + c = s" if "q = a * 60 + b" "s = q * 60 + c" for a b c q :: int
      using that by simp
    have "s div 60 = s div 3600 * 60 + s div 60 mod 60"
      using div_mult_mod_eq [of "s div 60" 60] zdiv_zmult2_eq [of 60 s 60] by simp
    moreover have "s = s div 60 * 60 + s mod 60" by simp
    ultimately show ?thesis by (rule split)
  qed
  ultimately show ?thesis by (simp only:)
qed

lemma fraction_roundtrip:
  assumes "0 \<le> us" and "us < 1000000"
  shows "fraction_fromisoformat ((if us = 0 then [] else ''.'' @ pad 6 us) @ ''+00:00'') = Some us"
proof (cases "us = 0")
  case False
  have "''.'' @ pad 6 us @ ''+00:00'' \<noteq> ''+00:00''" by simp
  moreover have "digits_value 0 (pad 6 us) = Some us" using assms by (intro digits_pad) simp_all
  ultimately show ?thesis using False
    by (simp add: fraction_fromisoformat_def del: pad.simps)
qed (simp add: fraction_fromisoformat_def)

lemma fromisoformat_parts:
  assumes "length a = 10" and "length b = 8"
    and "date_fromisoformat a = Some d" and "time_fromisoformat b = Some t" and "fraction_fromisoformat c = Some f"
  shows "fromisoformat (a @ ''T'' @ b @ c) = Some (d * DAY + t + f)"
  using assms by (simp add: fromisoformat_def nth_append)

lemma isoformat_roundtrip:
  assumes "python_date (date_of t)"
  shows "fromisoformat (isoformat t) = Some t"
proof -
  let ?r = "t mod DAY"
  let ?s = "?r div 1000000" and ?us = "?r mod 1000000"
  have r: "0 \<le> ?r" "?r < 86400000000" by (simp_all add: DAY_def)
  then have s: "0 \<le> ?s" "?s < 86400" by simp_all
  have us: "0 \<le> ?us" "?us < 1000000" by simp_all
  have "date_of t * DAY + seconds ?s + ?us = t"
  proof -
    have "?s * 1000000 + ?us = ?r" by simp
    moreover have "t div DAY * DAY + ?r = t" by (rule div_mult_mod_eq)
    ultimately show ?thesis by (simp add: date_of_def seconds_def DAY_def del: mod_div_mult_eq div_mult_mod_eq)
  qed
  then show ?thesis
    using fromisoformat_parts [OF length_date_isoformat _ date_roundtrip [OF assms] time_roundtrip [OF s]
        fraction_roundtrip [OF us]]
    by (simp add: isoformat_def Let_def del: pad.simps)
qed

end
