(* ===== verification/Progress_Reader.thy ===== *)
theory Progress_Reader
  imports Iso_Time File_System
begin

text \<open>
  \<open>worker/progress_reader.py\<close>: the worker's end of the \<open>progress.json\<close> file the training container
  writes. A field of another JSON type than the dataclass declares is reported as a \<open>TypeError\<close>
  here, where Python would carry the value on; a top level value that is not an object raises a
  \<open>TypeError\<close> in Python as well, which the \<open>except\<close> clause does not list.
\<close>

definition PROGRESS_FILENAME :: string where
  "PROGRESS_FILENAME = ''progress.json''"

fun json_int :: "json \<Rightarrow> exn + int" where
  "json_int (JInt n) = Inr n"
| "json_int _ = Inl (TypeError ''int'')"

fun json_float :: "json \<Rightarrow> exn + pyfloat" where
  "json_float (JFloat x) = Inr x"
| "json_float (JInt n) = Inr (Fin (of_int n))"
| "json_float _ = Inl (TypeError ''float'')"

fun json_timestamp :: "json \<Rightarrow> exn + datetime" where
  "json_timestamp (JStr s) =
     (case fromisoformat s of
        Some t \<Rightarrow> Inr t | None \<Rightarrow> Inl (ValueError (''Invalid isoformat string: '' @ quoted s)))"
| "json_timestamp _ = Inl (TypeError ''fromisoformat: argument must be str'')"

definition parse_progress :: "blob \<Rightarrow> exn + Progress" where
  "parse_progress content =
     and_then (json_loads content) (\<lambda>raw.
     and_then (and_then (json_item raw ''step'') json_int) (\<lambda>step.
     and_then (and_then (json_item raw ''total_steps'') json_int) (\<lambda>total_steps.
     and_then (and_then (json_item raw ''loss'') json_float) (\<lambda>loss.
     and_then (and_then (json_item raw ''timestamp'') json_timestamp) (\<lambda>updated_at.
       Inr \<lparr>p_step = step, p_total_steps = total_steps, p_loss = loss, p_updated_at = updated_at\<rparr>)))))"

text \<open>The exceptions the reader turns into \<open>None\<close>; \<open>UnicodeDecodeError\<close> is a \<open>ValueError\<close>.\<close>

definition progress_unreadable :: "exn \<Rightarrow> bool" where
  "progress_unreadable e =
     (case e of
        JSONDecodeError _ \<Rightarrow> True | KeyError _ \<Rightarrow> True | ValueError _ \<Rightarrow> True | UnicodeDecodeError _ \<Rightarrow> True
      | _ \<Rightarrow> False)"

definition read_progress :: "path \<Rightarrow> fsys \<Rightarrow> exn + Progress option" where
  "read_progress output_dir fs =
     (let progress_path = output_dir @ [PROGRESS_FILENAME]
      in if \<not> fs_exists fs progress_path then Inr None
         else
           (case and_then (fs_read fs progress_path) parse_progress of
              Inr p \<Rightarrow> Inr (Some p)
            | Inl e \<Rightarrow> if progress_unreadable e then Inr None else Inl e))"

text \<open>What the file has to hold for a progress to be read.\<close>

definition progress_json :: "Progress \<Rightarrow> json" where
  "progress_json p =
     JObj [(''step'', JInt (p_step p)), (''total_steps'', JInt (p_total_steps p)),
           (''loss'', JFloat (p_loss p)), (''timestamp'', JStr (isoformat (p_updated_at p)))]"

lemma parse_progress_json:
  "python_date (date_of (p_updated_at p)) \<Longrightarrow> parse_progress (json_dumps (progress_json p)) = Inr p"
  by (simp add: parse_progress_def progress_json_def isoformat_roundtrip)

lemma read_progress_json:
  assumes "fs_read fs (d @ [PROGRESS_FILENAME]) = Inr (json_dumps (progress_json p))"
    and "python_date (date_of (p_updated_at p))"
  shows "read_progress d fs = Inr (Some p)"
proof -
  have "fs_exists fs (d @ [PROGRESS_FILENAME])"
    using assms(1) by (auto simp: fs_read_def fs_exists_def split: option.splits)
  then show ?thesis using assms by (simp add: read_progress_def parse_progress_json)
qed

lemma read_progress_none: "\<not> fs_exists fs (d @ [PROGRESS_FILENAME]) \<Longrightarrow> read_progress d fs = Inr None"
  by (simp add: read_progress_def)

end
