(* ===== verification/Checkpoint_Packager.thy ===== *)
theory Checkpoint_Packager
  imports File_System
begin

text \<open>
  \<open>worker/checkpoint_packager.py\<close>: the checkpoint directory of a finished container as one zip
  archive. \<open>deflated_size\<close>, the length of the compressed archive, is a parameter, since the
  compression is zlib's; sorting paths compares their components as \<open>pathlib\<close> does.
\<close>

definition package_member :: "fsys \<Rightarrow> path \<Rightarrow> path \<Rightarrow> exn + zip_member" where
  "package_member fs checkpoint_dir p =
     (case fs_lookup fs p of
        Some i \<Rightarrow>
          (case i_node i of
             FileNode n b \<Rightarrow> Inr (ZipMember (tl (string_of_path (drop (length checkpoint_dir) p))) n b)
           | DirNode \<Rightarrow> Inl (OSError (string_of_path p)))
      | None \<Rightarrow> Inl (FileNotFoundError (string_of_path p)))"

text \<open>\<open>sorted(checkpoint_dir.rglob("*"))\<close> restricted to the files.\<close>

definition checkpoint_files :: "fsys \<Rightarrow> path \<Rightarrow> path list" where
  "checkpoint_files fs checkpoint_dir = filter (fs_is_file fs) (sort (fs_below fs checkpoint_dir))"

definition package_checkpoint ::
    "(zip_member list \<Rightarrow> int) \<Rightarrow> path \<Rightarrow> path \<Rightarrow> fsys \<Rightarrow> (fsys, unit) outcome" where
  "package_checkpoint deflated_size checkpoint_dir zip_path fs =
     (if \<not> fs_is_dir fs checkpoint_dir
      then (Inl (CheckpointNotFoundError (string_of_path checkpoint_dir)), fs)
      else
        then_do (fs_makedirs (butlast zip_path) fs) (\<lambda>_ fs1.
        then_do (fs_write_file zip_path 0 (ZipArchive []) fs1) (\<lambda>_ fs2.
          (case collect (map (package_member fs2 checkpoint_dir) (checkpoint_files fs2 checkpoint_dir)) of
             Inl e \<Rightarrow> (Inl e, fs2)
           | Inr members \<Rightarrow>
               fs_write_file zip_path (deflated_size members) (ZipArchive members) fs2))))"

definition member_of_file :: "fsys \<Rightarrow> path \<Rightarrow> path \<Rightarrow> zip_member" where
  "member_of_file fs d p =
     ZipMember (tl (string_of_path (drop (length d) p)))
       (case fs_lookup fs p of
          Some i \<Rightarrow> (case i_node i of FileNode n _ \<Rightarrow> n | DirNode \<Rightarrow> 0) | None \<Rightarrow> 0)
       (case fs_read fs p of Inr b \<Rightarrow> b | Inl _ \<Rightarrow> RawBytes [])"

lemma package_member_file: "fs_is_file fs p \<Longrightarrow> package_member fs d p = Inr (member_of_file fs d p)"
  by (auto simp: fs_is_file_def is_dir_inode_def package_member_def member_of_file_def fs_read_def
      split: option.splits node.splits)

lemma package_members: "collect (map (package_member fs d) (checkpoint_files fs d)) =
    Inr (map (member_of_file fs d) (checkpoint_files fs d))"
  by (rule collect_map_Inr) (simp add: checkpoint_files_def package_member_file)

subsection \<open>Writing beside the checkpoint\<close>

lemma below_put: "\<not> strictly_within d p \<Longrightarrow> fs_below (fs_put p i fs) d = fs_below fs d"
  by (simp add: fs_below_def fs_put_def update_keys)

lemma below_stamp: "fs_below (fs_stamp p fs) d = fs_below fs d"
proof (cases "fs_lookup fs p")
  case (Some i)
  then have "p \<in> set (map fst (fs_nodes fs))"
    unfolding fs_lookup_def by (metis domI dom_map_of_conv_image_fst set_map)
  with Some show ?thesis by (simp add: fs_stamp_def fs_below_def fs_put_def update_keys)
qed (simp add: fs_stamp_def)

lemma below_mkdir: "\<not> within_dir d p \<Longrightarrow> fs_below (fs_mkdir p fs) d = fs_below fs d"
proof -
  assume d: "\<not> within_dir d p"
  have "\<not> strictly_within d (take n p)" for n
    using d by (metis append_take_drop_id strictly_within_def within_dir_append within_dir_trans)
  then have "fs_below (fs_mkdir1 (take n p) fs') d = fs_below fs' d" for n fs'
    by (simp add: fs_mkdir1_def below_stamp below_put)
  then have "fs_below (fold (\<lambda>n. fs_mkdir1 (take n p)) ns fs') d = fs_below fs' d" for ns fs'
    by (induction ns arbitrary: fs') simp_all
  then show ?thesis by (simp add: fs_mkdir_def)
qed

lemma below_write: "\<not> within_dir d p \<Longrightarrow> fs_below (fs_write p n b fs) d = fs_below fs d"
  by (simp add: fs_write_def Let_def below_put below_stamp strictly_within_def)

lemma checkpoint_files_cong:
  assumes "fs_below fs' d = fs_below fs d" and "\<And>p. strictly_within d p \<Longrightarrow> fs_lookup fs' p = fs_lookup fs p"
  shows "checkpoint_files fs' d = checkpoint_files fs d"
    and "map (member_of_file fs' d) (checkpoint_files fs' d) = map (member_of_file fs d) (checkpoint_files fs d)"
proof -
  have below: "strictly_within d p" if "p \<in> set (sort (fs_below fs d))" for p
    using that by (simp add: fs_below_def)
  then have "fs_is_file fs' p = fs_is_file fs p" if "p \<in> set (sort (fs_below fs d))" for p
    using that assms(2) by (simp add: fs_is_file_def)
  then show files: "checkpoint_files fs' d = checkpoint_files fs d"
    unfolding checkpoint_files_def assms(1) by (intro filter_cong) auto
  have "member_of_file fs' d p = member_of_file fs d p" if "p \<in> set (checkpoint_files fs d)" for p
    using that assms(2) below by (simp add: checkpoint_files_def member_of_file_def fs_read_def)
  then show "map (member_of_file fs' d) (checkpoint_files fs' d) = map (member_of_file fs d) (checkpoint_files fs d)"
    unfolding files by simp
qed

lemma package_spec:
  assumes run: "package_checkpoint sz d z fs = (Inr u, fs')" and out: "\<not> within_dir d z"
  shows "fs_is_dir fs d" and "fs_read fs' z = Inr (ZipArchive (map (member_of_file fs d) (checkpoint_files fs d)))"
proof -
  show "fs_is_dir fs d" using run by (auto simp: package_checkpoint_def split: if_splits)
  obtain fs1 fs2 where fs1: "fs_makedirs (butlast z) fs = (Inr (), fs1)"
    and fs2: "fs_write_file z 0 (ZipArchive []) fs1 = (Inr (), fs2)"
    and fs': "fs_write_file z (sz (map (member_of_file fs2 d) (checkpoint_files fs2 d)))
        (ZipArchive (map (member_of_file fs2 d) (checkpoint_files fs2 d))) fs2 = (Inr u, fs')"
    using run
    by (auto simp: package_checkpoint_def then_do_def package_members split: if_splits prod.splits sum.splits)
  have fs1': "fs1 = fs_mkdir (butlast z) fs" using fs1 by (auto simp: fs_makedirs_def split: if_splits)
  have fs2': "fs2 = fs_write z 0 (ZipArchive []) fs1" using fs2 by (auto simp: fs_write_file_def split: if_splits)
  have up: "\<not> within_dir d (butlast z)" using out within_butlast within_dir_trans by blast
  have "fs_lookup fs2 p = fs_lookup fs p" if "strictly_within d p" for p
  proof -
    have dp: "within_dir d p" using that by (simp add: strictly_within_def)
    then have "\<not> within_dir p (butlast z)" using up within_dir_trans by blast
    moreover have "p \<noteq> z" and "p \<noteq> butlast z" using dp out up by auto
    ultimately show ?thesis unfolding fs1' fs2' by (simp add: write_other mkdir_other)
  qed
  moreover have "fs_below fs2 d = fs_below fs d"
    unfolding fs1' fs2' by (simp add: below_write [OF out] below_mkdir [OF up])
  ultimately have "map (member_of_file fs2 d) (checkpoint_files fs2 d) = map (member_of_file fs d) (checkpoint_files fs d)"
    by (rule checkpoint_files_cong(2) [rotated])
  with write_file_read [OF fs'] show "fs_read fs' z = Inr (ZipArchive (map (member_of_file fs d) (checkpoint_files fs d)))"
    by simp
qed

text \<open>Packaging succeeds when nothing is in its way.\<close>

lemma package_runs:
  assumes d: "fs_is_dir fs d" and z: "\<not> fs_is_dir fs z" "butlast z \<noteq> []"
    and free: "\<not> list_ex (\<lambda>n. fs_is_file fs (take n (butlast z))) [1 ..< Suc (length (butlast z))]"
  shows "\<exists>fs'. package_checkpoint sz d z fs = (Inr (), fs')"
proof -
  have m: "fs_makedirs (butlast z) fs = (Inr (), fs_mkdir (butlast z) fs)" using free by (simp add: fs_makedirs_def)
  have "length (butlast z) < length z" using z(2) by (cases z) auto
  then have up: "\<not> within_dir z (butlast z)" by (metis within_dir_def length_take min.absorb4 nat_neq_iff take_all_iff less_imp_le)
  have w: "fs_write_file z n b fs1 = (Inr (), fs_write z n b fs1)" if "fs_is_dir fs1 (butlast z)" "\<not> fs_is_dir fs1 z" for n b fs1
    using that z(2) by (auto simp: fs_write_file_def)
  have 1: "fs_is_dir (fs_mkdir (butlast z) fs) (butlast z)" "\<not> fs_is_dir (fs_mkdir (butlast z) fs) z"
    using makedirs_is_dir [OF m z(2)] z(1) by (simp_all add: fs_is_dir_def mkdir_other [OF up])
  have ne: "butlast z \<noteq> z" using up by auto
  have 2: "fs_is_dir (fs_write z n b fs1) (butlast z)" "\<not> fs_is_dir (fs_write z n b fs1) z" if "fs_is_dir fs1 (butlast z)" for n b fs1
    using that ne by (auto simp: fs_write_def Let_def fs_is_dir_def is_dir_inode_def lookup_stamp split: option.splits)
  show ?thesis
    using d m w [OF 1] w [OF 2 [OF 1(1)]] by (simp add: package_checkpoint_def package_members)
qed

lemma package_fails_only:
  "fst (package_checkpoint sz d z fs) = Inl (CheckpointNotFoundError (string_of_path d)) \<longleftrightarrow> \<not> fs_is_dir fs d"
  by (auto simp: package_checkpoint_def then_do_def package_members fs_makedirs_def fs_write_file_def
      split: prod.splits sum.splits if_splits)

end
