(* ===== verification/Job_Completion.thy ===== *)
theory Job_Completion
  imports Worker_World Heartbeat_Updater Progress_Reader Checkpoint_Packager
begin

text \<open>
  \<open>worker/job_completion.py\<close>: one poll cycle over the active job. \<open>now n\<close> is the clock at the \<open>n\<close>-th
  place the method reads it: the transition to \<open>training\<close>, the heartbeat, the transition made when a
  container exits without progress, and the terminal transition.
\<close>

definition COMPLETION_MONITORED_STATUSES :: "JobStatus list" where
  "COMPLETION_MONITORED_STATUSES = [INITIALIZING, TRAINING]"

definition UPLOAD_FAILED_MESSAGE :: string where
  "UPLOAD_FAILED_MESSAGE =
     ''Training completed but checkpoint upload failed; please resubmit the job.''"

definition MAX_LOG_CHARS :: nat where "MAX_LOG_CHARS = 2000"

definition newline :: string where "newline = [CHR 0x0A]"

definition truncate_logs :: "string \<Rightarrow> string" where
  "truncate_logs logs =
     (if length logs \<le> MAX_LOG_CHARS then logs
      else ''...(truncated)...'' @ newline @ drop (length logs - MAX_LOG_CHARS) logs)"

definition output_dir :: "string \<Rightarrow> Job \<Rightarrow> path" where
  "output_dir workdir job = job_path workdir job @ [''output'']"

definition checkpoint_dir :: "string \<Rightarrow> Job \<Rightarrow> path" where
  "checkpoint_dir workdir job = output_dir workdir job @ [''checkpoint'']"

definition cleanup_job_dir :: "string \<Rightarrow> Job \<Rightarrow> ('j, 'u, 'o, 'd) world \<Rightarrow> ('j, 'u, 'o, 'd) world" where
  "cleanup_job_dir workdir job w = w\<lparr>w_fs := fs_rmtree (job_path workdir job) (w_fs w)\<rparr>"

definition mark_completed ::
    "'j job_repository \<Rightarrow> string \<Rightarrow> datetime \<Rightarrow> Job \<Rightarrow> string \<Rightarrow> ('j, 'u, 'o, 'd) world \<Rightarrow>
     (('j, 'u, 'o, 'd) world, Job) outcome" where
  "mark_completed R workdir now job checkpoint_gcs_path w =
     (case transition job COMPLETED now of
        Inl e \<Rightarrow> (Inl e, w)
      | Inr moved \<Rightarrow>
          (let completed = moved\<lparr>j_checkpoint_gcs_path := Some checkpoint_gcs_path\<rparr>
           in (Inr completed, cleanup_job_dir workdir job (write_job R completed w))))"

definition mark_failed ::
    "'j job_repository \<Rightarrow> string \<Rightarrow> datetime \<Rightarrow> Job \<Rightarrow> string \<Rightarrow> bool \<Rightarrow> ('j, 'u, 'o, 'd) world \<Rightarrow>
     (('j, 'u, 'o, 'd) world, Job) outcome" where
  "mark_failed R workdir now job error_message cleanup w =
     (case transition job FAILED now of
        Inl e \<Rightarrow> (Inl e, w)
      | Inr moved \<Rightarrow>
          (let failed = moved\<lparr>j_error_message := Some error_message\<rparr>;
               w' = write_job R failed w
           in (Inr failed, if cleanup then cleanup_job_dir workdir job w' else w')))"

text \<open>The loop over \<open>range(attempts)\<close>: an upload that raises is followed by the next attempt.\<close>

fun upload_attempts :: "'o object_storage \<Rightarrow> string \<Rightarrow> path \<Rightarrow> fsys \<Rightarrow> nat \<Rightarrow> 'o \<Rightarrow> bool \<times> 'o" where
  "upload_attempts S object_path zip_path fs 0 objects = (False, objects)"
| "upload_attempts S object_path zip_path fs (Suc n) objects =
     (case os_upload_file S object_path zip_path fs objects of
        (Inr _, objects') \<Rightarrow> (True, objects')
      | (Inl _, objects') \<Rightarrow> upload_attempts S object_path zip_path fs n objects')"

definition upload_with_retries ::
    "'o object_storage \<Rightarrow> nat \<Rightarrow> string \<Rightarrow> path \<Rightarrow> fsys \<Rightarrow> 'o \<Rightarrow> bool \<times> 'o" where
  "upload_with_retries S upload_retries object_path zip_path fs objects =
     upload_attempts S object_path zip_path fs (1 + upload_retries) objects"

definition exit_message :: "int \<Rightarrow> string \<Rightarrow> string" where
  "exit_message exit_code logs =
     (let message = ''Training container exited with code '' @ str_int exit_code
      in if logs = [] then message
         else message @ newline @ newline @ ''--- last lines of container output ---'' @ newline @
              truncate_logs logs)"

definition finish_failed_container ::
    "('j, 'u, 'o, 'd) WorkerDependencies \<Rightarrow> datetime \<Rightarrow> Job \<Rightarrow> int \<Rightarrow> ('j, 'u, 'o, 'd) world \<Rightarrow>
     (('j, 'u, 'o, 'd) world, Job) outcome" where
  "finish_failed_container E now job exit_code w =
     (case (if truthy (j_container_id job)
            then dc_get_logs (wd_docker_client E) (w_docker w) (the (j_container_id job)) 50
            else Inr []) of
        Inl e \<Rightarrow> (Inl e, w)
      | Inr logs \<Rightarrow>
          mark_failed (wd_job_repository E) (ws_workdir (wd_settings E)) now job
            (exit_message exit_code logs) True w)"

definition checkpoint_object_path :: "Job \<Rightarrow> string" where
  "checkpoint_object_path job = ''checkpoints/'' @ j_id job @ ''.zip''"

definition finish_successful_container ::
    "('j, 'u, 'o, 'd) WorkerDependencies \<Rightarrow> datetime \<Rightarrow> Job \<Rightarrow> ('j, 'u, 'o, 'd) world \<Rightarrow>
     (('j, 'u, 'o, 'd) world, Job) outcome" where
  "finish_successful_container E now job w =
     (let R = wd_job_repository E; workdir = ws_workdir (wd_settings E);
          zip_path = output_dir workdir job @ [''checkpoint.zip'']
      in case package_checkpoint (wd_deflated_size E) (checkpoint_dir workdir job) zip_path (w_fs w) of
           (Inl e, fs) \<Rightarrow>
             mark_failed R workdir now job (''Failed to package checkpoint: '' @ exn_text e) True
               (w\<lparr>w_fs := fs\<rparr>)
         | (Inr _, fs) \<Rightarrow>
             (case upload_with_retries (wd_object_storage E) (wd_upload_retries E)
                     (checkpoint_object_path job) zip_path fs (w_objects w) of
                (uploaded, objects) \<Rightarrow>
                  (let w' = w\<lparr>w_fs := fs, w_objects := objects\<rparr>
                   in if uploaded then mark_completed R workdir now job (checkpoint_object_path job) w'
                      else mark_failed R workdir now job UPLOAD_FAILED_MESSAGE False w')))"

definition start_training ::
    "'j job_repository \<Rightarrow> datetime \<Rightarrow> Job \<Rightarrow> ('j, 'u, 'o, 'd) world \<Rightarrow> (('j, 'u, 'o, 'd) world, Job) outcome" where
  "start_training R now job w =
     (if j_status job = INITIALIZING
      then (case transition job TRAINING now of
              Inl e \<Rightarrow> (Inl e, w)
            | Inr moved \<Rightarrow> (Inr moved, write_job R moved w))
      else (Inr job, w))"

definition finalize_job ::
    "('j, 'u, 'o, 'd) WorkerDependencies \<Rightarrow> (nat \<Rightarrow> datetime) \<Rightarrow> Job \<Rightarrow> int \<Rightarrow> ('j, 'u, 'o, 'd) world \<Rightarrow>
     (('j, 'u, 'o, 'd) world, Job) outcome" where
  "finalize_job E now job exit_code w =
     then_do (start_training (wd_job_repository E) (now 2) job w) (\<lambda>job.
       if exit_code \<noteq> 0 then finish_failed_container E (now 3) job exit_code
       else finish_successful_container E (now 3) job)"

definition observe_job ::
    "'j job_repository \<Rightarrow> (nat \<Rightarrow> datetime) \<Rightarrow> Job \<Rightarrow> Progress option \<Rightarrow> int option \<Rightarrow>
     ('j, 'u, 'o, 'd) world \<Rightarrow> (('j, 'u, 'o, 'd) world, Job) outcome" where
  "observe_job R now job progress exit_code w =
     (case progress of
        Some p \<Rightarrow>
          then_do (start_training R (now 0) job w) (\<lambda>job w.
            case record_progress R (now 1) job p (w_jobs w) of
              (job, jobs) \<Rightarrow> (Inr job, w\<lparr>w_jobs := jobs\<rparr>))
      | None \<Rightarrow>
          if j_status job = INITIALIZING \<and> exit_code = None
          then (case mark_container_alive R (now 1) job (w_jobs w) of
                  (job, jobs) \<Rightarrow> (Inr job, w\<lparr>w_jobs := jobs\<rparr>))
          else (Inr job, w))"

definition JobCompletionMonitor_tick ::
    "('j, 'u, 'o, 'd) WorkerDependencies \<Rightarrow> (nat \<Rightarrow> datetime) \<Rightarrow> ('j, 'u, 'o, 'd) world \<Rightarrow>
     (('j, 'u, 'o, 'd) world, Job option) outcome" where
  "JobCompletionMonitor_tick E now w =
     (case jr_list_by_statuses (wd_job_repository E) (w_jobs w) COMPLETION_MONITORED_STATUSES of
        Inl e \<Rightarrow> (Inl e, w)
      | Inr [] \<Rightarrow> (Inr None, w)
      | Inr (job # _) \<Rightarrow>
          (case read_progress (output_dir (ws_workdir (wd_settings E)) job) (w_fs w) of
             Inl e \<Rightarrow> (Inl e, w)
           | Inr progress \<Rightarrow>
               (case (if truthy (j_container_id job)
                      then dc_get_exit_code (wd_docker_client E) (w_docker w) (the (j_container_id job))
                      else Inr None) of
                  Inl e \<Rightarrow> (Inl e, w)
                | Inr exit_code \<Rightarrow>
                    then_do (observe_job (wd_job_repository E) now job progress exit_code w) (\<lambda>job w1.
                      case exit_code of
                        None \<Rightarrow> (Inr (Some job), w1)
                      | Some code \<Rightarrow>
                          then_do (finalize_job E now job code w1) (\<lambda>job w2. (Inr (Some job), w2))))))"

end
