(* ===== verification/Abstract_System.thy ===== *)
theory Abstract_System
  imports Job_Service Timeout_Service Job_Completion
begin

text \<open>
  What the whole service promises, as a state machine over the abstract contents of its stores: the
  jobs, the users, the objects and the running containers. Each step is one atomic effect of an
  operation of the API, the timeout sweep or the worker, with the condition under which the code
  makes it; the service and worker theories show that every operation is a sequence of these steps.
  The invariants of the system are proved here once, per step.
\<close>

record sys =
  s_jobs :: "string \<rightharpoonup> Job"
  s_users :: "string \<rightharpoonup> User"
  s_objects :: "string \<rightharpoonup> blob"
  s_running :: "string \<rightharpoonup> (string \<times> string) list"
  s_now :: datetime

datatype event =
    Pass | Submit | RequestCancel | Timeout | Stop | Cancel | Claim | Launch | FailStart
  | Alive | Train | Report | Fail | Upload | Complete | DropUpload | PutUpload | Register | EditUser

definition monitored :: "JobStatus \<Rightarrow> bool" where
  "monitored s \<longleftrightarrow> s = INITIALIZING \<or> s = TRAINING"

definition claimed :: "datetime \<Rightarrow> Job \<Rightarrow> Job" where
  "claimed t j = j\<lparr>j_status := INITIALIZING, j_updated_at := t, j_heartbeat_at := Some t\<rparr>"

text \<open>No running container belongs to the job.\<close>

definition container_stopped :: "(string \<rightharpoonup> (string \<times> string) list) \<Rightarrow> Job \<Rightarrow> bool" where
  "container_stopped run j \<longleftrightarrow> (\<forall>c. j_container_id j = Some c \<longrightarrow> c \<noteq> [] \<longrightarrow> run c = None)"

definition put_job :: "Job \<Rightarrow> datetime \<Rightarrow> sys \<Rightarrow> sys" where
  "put_job j t s = s\<lparr>s_jobs := (s_jobs s)(j_id j \<mapsto> j), s_now := t\<rparr>"

definition upload_path :: "string \<Rightarrow> bool" where
  "upload_path p \<longleftrightarrow> starts_with ''uploads/'' p"

inductive sys_step :: "event \<Rightarrow> sys \<Rightarrow> sys \<Rightarrow> bool" where
  pass: "s_now s \<le> t \<Longrightarrow> sys_step Pass s (s\<lparr>s_now := t\<rparr>)"
| submit: "s_now s \<le> t0 \<Longrightarrow> t0 \<le> t \<Longrightarrow> s_jobs s i = None \<Longrightarrow> s_users s u = Some usr \<Longrightarrow>
    \<not> has_active_job (s_jobs s) u \<Longrightarrow> effective_daily_used usr (date_of t0) < MAX_DAILY_JOBS \<Longrightarrow>
    1 \<le> n \<Longrightarrow> n \<le> 20000 \<Longrightarrow> (st = ZIP_UPLOAD \<longrightarrow> upload_path ref) \<Longrightarrow>
    sys_step Submit s (put_job (new_job i u p st ref n t) t s)"
| request_cancel: "s_now s \<le> t \<Longrightarrow> s_jobs s (j_id j) = Some j \<Longrightarrow> request_cancel j t = Inr j' \<Longrightarrow>
    sys_step RequestCancel s (put_job j' t s)"
| timeout: "s_now s \<le> t \<Longrightarrow> s_jobs s (j_id j) = Some j \<Longrightarrow> timed_out_job t j \<Longrightarrow>
    sys_step Timeout s (put_job (timeout_version t j) t s)"
| stop: "sys_step Stop s (s\<lparr>s_running := (s_running s)(c := None)\<rparr>)"
| cancel: "s_now s \<le> t \<Longrightarrow> s_jobs s (j_id j) = Some j \<Longrightarrow> j_cancel_requested j \<Longrightarrow>
    transition j CANCELLED t = Inr j' \<Longrightarrow> (monitored (j_status j) \<longrightarrow> container_stopped (s_running s) j) \<Longrightarrow>
    sys_step Cancel s (put_job j' t s)"
| claim: "s_now s \<le> t \<Longrightarrow> s_jobs s (j_id j) = Some j \<Longrightarrow> j_status j = QUEUED \<Longrightarrow> \<not> j_cancel_requested j \<Longrightarrow>
    \<forall>k i. s_jobs s k = Some i \<longrightarrow> \<not> monitored (j_status i) \<Longrightarrow>
    \<forall>k i. s_jobs s k = Some i \<longrightarrow> j_status i = QUEUED \<longrightarrow> j_created_at j \<le> j_created_at i \<Longrightarrow>
    s_users s (j_user_id j) = Some usr \<Longrightarrow>
    sys_step Claim s (put_job (claimed t j) t
      (s\<lparr>s_users := (s_users s)(u_id usr \<mapsto> record_job_started usr (date_of t))\<rparr>))"
| launch: "s_jobs s (j_id j) = Some j \<Longrightarrow> j_status j = INITIALIZING \<Longrightarrow> j_container_id j = None \<Longrightarrow>
    s_running s c = None \<Longrightarrow> c \<noteq> [] \<Longrightarrow>
    sys_step Launch s (put_job (j\<lparr>j_container_id := Some c\<rparr>) (s_now s)
      (s\<lparr>s_running := (s_running s)(c \<mapsto> [(LEROBOT_JOB_ID_LABEL, j_id j)])\<rparr>))"
| fail_start: "s_now s \<le> t \<Longrightarrow> s_jobs s (j_id j) = Some j \<Longrightarrow> j_status j = INITIALIZING \<Longrightarrow>
    j_container_id j = None \<Longrightarrow> transition j FAILED t = Inr j' \<Longrightarrow>
    sys_step FailStart s (put_job (j'\<lparr>j_error_message := Some m\<rparr>) t s)"
| alive: "s_now s \<le> t \<Longrightarrow> s_jobs s (j_id j) = Some j \<Longrightarrow> j_status j = INITIALIZING \<Longrightarrow>
    sys_step Alive s (put_job (j\<lparr>j_heartbeat_at := Some t\<rparr>) t s)"
| train: "s_now s \<le> t \<Longrightarrow> s_jobs s (j_id j) = Some j \<Longrightarrow> j_status j = INITIALIZING \<Longrightarrow>
    transition j TRAINING t = Inr j' \<Longrightarrow> sys_step Train s (put_job j' t s)"
| report: "s_now s \<le> t \<Longrightarrow> s_jobs s (j_id j) = Some j \<Longrightarrow> j_status j = TRAINING \<Longrightarrow>
    progress_changed (j_progress j) p \<Longrightarrow>
    sys_step Report s (put_job (j\<lparr>j_progress := Some p, j_heartbeat_at := Some t\<rparr>) t s)"
| fail: "s_now s \<le> t \<Longrightarrow> s_jobs s (j_id j) = Some j \<Longrightarrow> j_status j = TRAINING \<Longrightarrow>
    container_stopped (s_running s) j \<Longrightarrow> transition j FAILED t = Inr j' \<Longrightarrow>
    sys_step Fail s (put_job (j'\<lparr>j_error_message := Some m\<rparr>) t s)"
| upload: "s_jobs s (j_id j) = Some j \<Longrightarrow> j_status j = TRAINING \<Longrightarrow>
    sys_step Upload s (s\<lparr>s_objects := (s_objects s)(checkpoint_object_path j \<mapsto> b)\<rparr>)"
| complete: "s_now s \<le> t \<Longrightarrow> s_jobs s (j_id j) = Some j \<Longrightarrow> j_status j = TRAINING \<Longrightarrow>
    container_stopped (s_running s) j \<Longrightarrow> s_objects s (checkpoint_object_path j) \<noteq> None \<Longrightarrow>
    transition j COMPLETED t = Inr j' \<Longrightarrow>
    sys_step Complete s (put_job (j'\<lparr>j_checkpoint_gcs_path := Some (checkpoint_object_path j)\<rparr>) t s)"
| drop_upload: "upload_path p \<Longrightarrow> sys_step DropUpload s (s\<lparr>s_objects := (s_objects s)(p := None)\<rparr>)"
| put_upload: "upload_path p \<Longrightarrow> sys_step PutUpload s (s\<lparr>s_objects := (s_objects s)(p \<mapsto> b)\<rparr>)"
| register_user: "s_users s (u_id usr) = None \<Longrightarrow> u_daily_quota_used usr = 0 \<Longrightarrow> u_quota_reset_date usr = None \<Longrightarrow>
    sys_step Register s (s\<lparr>s_users := (s_users s)(u_id usr \<mapsto> usr)\<rparr>)"
| edit_user: "s_users s (u_id usr) = Some usr \<Longrightarrow>
    sys_step EditUser s (s\<lparr>s_users := (s_users s)(u_id usr \<mapsto> usr\<lparr>u_password_hash := h\<rparr>)\<rparr>)"

inductive_cases sys_stepE: "sys_step e s s'"

text \<open>Sequences of steps of certain kinds.\<close>

inductive sys_steps :: "event set \<Rightarrow> sys \<Rightarrow> sys \<Rightarrow> bool" for A where
  steps_refl: "sys_steps A s s"
| steps_step: "sys_steps A s s' \<Longrightarrow> sys_step e s' s'' \<Longrightarrow> e \<in> A \<Longrightarrow> sys_steps A s s''"

lemma sys_steps_trans: "sys_steps A t u \<Longrightarrow> sys_steps A s t \<Longrightarrow> sys_steps A s u"
  by (induction rule: sys_steps.induct) (auto intro: sys_steps.intros)

lemma sys_steps_mono: "sys_steps A s t \<Longrightarrow> A \<subseteq> B \<Longrightarrow> sys_steps B s t"
  by (induction rule: sys_steps.induct) (auto intro: sys_steps.intros)

lemma sys_steps_one: "sys_step e s t \<Longrightarrow> e \<in> A \<Longrightarrow> sys_steps A s t"
  by (auto intro: sys_steps.intros)

lemma sys_steps_invariant:
  assumes "sys_steps A s t" and "I s" and "\<And>e s t. e \<in> A \<Longrightarrow> I s \<Longrightarrow> sys_step e s t \<Longrightarrow> I t"
  shows "I t"
  using assms(1,2) by (induction rule: sys_steps.induct) (auto intro: assms(3))

lemma put_job_fields [simp]:
  "s_jobs (put_job j t s) = (s_jobs s)(j_id j \<mapsto> j)" "s_users (put_job j t s) = s_users s"
  "s_objects (put_job j t s) = s_objects s" "s_running (put_job j t s) = s_running s"
  "s_now (put_job j t s) = t"
  by (simp_all add: put_job_def)

subsection \<open>Every step is an evolution of the jobs\<close>

lemma claimed_fields [simp]:
  "j_id (claimed t j) = j_id j" "j_status (claimed t j) = INITIALIZING" "j_user_id (claimed t j) = j_user_id j"
  "j_heartbeat_at (claimed t j) = Some t" "j_container_id (claimed t j) = j_container_id j"
  "j_created_at (claimed t j) = j_created_at j" "j_training_steps (claimed t j) = j_training_steps j"
  "j_source_type (claimed t j) = j_source_type j" "j_source_ref (claimed t j) = j_source_ref j"
  by (simp_all add: claimed_def)

lemma timeout_version_fields [simp]:
  "j_status (timeout_version t j) = FAILED" "j_user_id (timeout_version t j) = j_user_id j"
  "j_error_message (timeout_version t j) = Some TIMEOUT_ERROR_MESSAGE"
  "j_created_at (timeout_version t j) = j_created_at j" "j_container_id (timeout_version t j) = j_container_id j"
  "j_training_steps (timeout_version t j) = j_training_steps j"
  "j_source_type (timeout_version t j) = j_source_type j" "j_source_ref (timeout_version t j) = j_source_ref j"
  by (simp_all add: timeout_version_def)

lemma evolves_error: "transition j FAILED t = Inr j' \<Longrightarrow> evolves_to j (j'\<lparr>j_error_message := m\<rparr>)"
  by (cases "j_status j")
     (auto simp: transition_Inr_iff evolves_to_def same_submission_def status_simps intro: status_reaches_one)

lemma evolves_completed: "transition j COMPLETED t = Inr j' \<Longrightarrow> evolves_to j (j'\<lparr>j_checkpoint_gcs_path := p\<rparr>)"
  by (cases "j_status j")
     (auto simp: transition_Inr_iff evolves_to_def same_submission_def status_simps intro: status_reaches_one)

lemma evolves_claimed: "j_status j = QUEUED \<Longrightarrow> evolves_to j (claimed t j)"
  by (auto simp: claimed_def evolves_to_def same_submission_def status_simps intro: status_reaches_one)

lemma evolves_container: "j_status j = INITIALIZING \<Longrightarrow> evolves_to j (j\<lparr>j_container_id := c\<rparr>)"
  by (auto simp: evolves_to_def same_submission_def status_simps intro: reaches_refl)

lemma monitored_simps [simp]:
  "monitored INITIALIZING" "monitored TRAINING" "\<not> monitored QUEUED" "\<not> monitored COMPLETED"
  "\<not> monitored FAILED" "\<not> monitored CANCELLED"
  by (simp_all add: monitored_def)

lemma step_changes:
  assumes "sys_step e s s'"
  obtains "s_jobs s' = s_jobs s"
  | j j' where "s_jobs s (j_id j) = Some j" "s_jobs s' = (s_jobs s)(j_id j \<mapsto> j')" "evolves_to j j'" "j_id j' = j_id j"
      "monitored (j_status j') \<longrightarrow> monitored (j_status j) \<or>
         (\<forall>k i. s_jobs s k = Some i \<longrightarrow> \<not> monitored (j_status i))"
  | j where "s_jobs s (j_id j) = None" "s_jobs s' = (s_jobs s)(j_id j \<mapsto> j)" "j_status j = QUEUED"
      "\<not> has_active_job (s_jobs s) (j_user_id j)"
proof -
  note changed = that(2)
  have evolved: "thesis" if "s_jobs s (j_id j) = Some j" "s_jobs s' = (s_jobs s)(j_id j' \<mapsto> j')" "evolves_to j j'"
      "monitored (j_status j') \<longrightarrow> monitored (j_status j) \<or>
         (\<forall>k i. s_jobs s k = Some i \<longrightarrow> \<not> monitored (j_status i))" for j j'
    using changed [of j j'] that evolves_to_id [OF that(3)] by simp
  show thesis
    using assms
  proof (cases rule: sys_step.cases)
    case (submit t0 t i u usr n st ref p)
    then show thesis by (intro that(3) [of "new_job i u p st ref n t"]) auto
  next
    case (request_cancel t j j')
    then show thesis by (intro evolved [of j j']) (auto intro: evolve_intros simp: transition_Inr_iff request_cancel_Inr_iff)
  next
    case (timeout t j)
    then show thesis by (intro evolved [of j "timeout_version t j"]) (auto intro: timeout_version_evolves)
  next
    case (cancel t j j')
    then show thesis by (intro evolved [of j j']) (auto intro: evolve_intros simp: transition_Inr_iff request_cancel_Inr_iff)
  next
    case (claim t j usr)
    then show thesis by (intro evolved [of j "claimed t j"]) (auto intro: evolves_claimed)
  next
    case (launch j c)
    then show thesis by (intro evolved [of j "j\<lparr>j_container_id := Some c\<rparr>"]) (simp_all add: evolves_container)
  next
    case (fail_start t j j' m)
    then show thesis by (intro evolved [of j "j'\<lparr>j_error_message := Some m\<rparr>"]) (simp_all add: evolves_error)
  next
    case (alive t j)
    then show thesis
      by (intro evolved [of j "j\<lparr>j_heartbeat_at := Some t\<rparr>"]) (simp_all add: heartbeat_evolves status_simps)
  next
    case (train t j j')
    then show thesis by (intro evolved [of j j']) (auto intro: evolve_intros simp: transition_Inr_iff request_cancel_Inr_iff)
  next
    case (report t j p)
    then show thesis
      by (intro evolved [of j "j\<lparr>j_progress := Some p, j_heartbeat_at := Some t\<rparr>"])
        (simp_all add: heartbeat_evolves status_simps)
  next
    case (fail t j j' m)
    then show thesis by (intro evolved [of j "j'\<lparr>j_error_message := Some m\<rparr>"]) (simp_all add: evolves_error)
  next
    case (complete t j j')
    then show thesis
      by (intro evolved [of j "j'\<lparr>j_checkpoint_gcs_path := Some (checkpoint_object_path j)\<rparr>"])
        (simp_all add: evolves_completed)
  qed (auto intro: that(1))
qed

lemma step_evolves: "sys_step e s s' \<Longrightarrow> keyed j_id (s_jobs s) \<Longrightarrow> jobs_evolve (s_jobs s) (s_jobs s')"
proof -
  assume step: "sys_step e s s'" and keyed: "keyed j_id (s_jobs s)"
  from step show ?thesis
  proof (rule step_changes)
    fix j j'
    assume "s_jobs s (j_id j) = Some j" and upd: "s_jobs s' = (s_jobs s)(j_id j \<mapsto> j')" "evolves_to j j'" "j_id j' = j_id j"
    then have "jobs_advance (s_jobs s) ((s_jobs s)(j_id j' \<mapsto> j'))" by (intro jobs_advance_write)
    with upd show ?thesis by (simp add: jobs_advance_evolve)
  next
    fix j
    assume "s_jobs s (j_id j) = None" "s_jobs s' = (s_jobs s)(j_id j \<mapsto> j)" "j_status j = QUEUED"
    then show ?thesis by (auto simp: jobs_evolve_def)
  qed (simp add: jobs_advance_evolve)
qed

lemma step_keyed:
  assumes "sys_step e s s'" and keyed: "keyed j_id (s_jobs s)"
  shows "keyed j_id (s_jobs s')"
  using assms(1)
proof (rule step_changes)
  fix j j'
  assume "s_jobs s' = (s_jobs s)(j_id j \<mapsto> j')" "j_id j' = j_id j"
  with keyed_upd [OF keyed, of j'] show ?thesis by simp
qed (use keyed in simp_all)

lemma step_now: "sys_step e s s' \<Longrightarrow> s_now s \<le> s_now s'"
  by (cases rule: sys_step.cases) auto

subsection \<open>The invariants\<close>

definition users_keyed :: "sys \<Rightarrow> bool" where
  "users_keyed s \<longleftrightarrow> keyed u_id (s_users s)"

text \<open>At most one job occupies the GPU.\<close>

definition one_monitored :: "sys \<Rightarrow> bool" where
  "one_monitored s \<longleftrightarrow>
     (\<forall>k k' i j. s_jobs s k = Some i \<longrightarrow> s_jobs s k' = Some j \<longrightarrow>
        monitored (j_status i) \<longrightarrow> monitored (j_status j) \<longrightarrow> k = k')"

text \<open>A user has at most one active job.\<close>

definition one_active :: "sys \<Rightarrow> bool" where
  "one_active s \<longleftrightarrow>
     (\<forall>k k' i j. s_jobs s k = Some i \<longrightarrow> s_jobs s k' = Some j \<longrightarrow> j_user_id i = j_user_id j \<longrightarrow>
        j_status i \<in> set ACTIVE_STATUSES \<longrightarrow> j_status j \<in> set ACTIVE_STATUSES \<longrightarrow> k = k')"

text \<open>What a job's status promises about its other fields and the object storage.\<close>

definition job_ok :: "sys \<Rightarrow> Job \<Rightarrow> bool" where
  "job_ok s j \<longleftrightarrow>
     (monitored (j_status j) \<longrightarrow> j_heartbeat_at j \<noteq> None) \<and>
     (j_status j = QUEUED \<longrightarrow> j_container_id j = None \<and> j_heartbeat_at j = None) \<and>
     (j_status j = FAILED \<longrightarrow> j_error_message j \<noteq> None) \<and>
     (j_status j = COMPLETED \<longrightarrow>
        j_checkpoint_gcs_path j = Some (checkpoint_object_path j) \<and>
        s_objects s (checkpoint_object_path j) \<noteq> None) \<and>
     s_users s (j_user_id j) \<noteq> None \<and>
     1 \<le> j_training_steps j \<and> j_training_steps j \<le> 20000 \<and>
     (j_source_type j = ZIP_UPLOAD \<longrightarrow> upload_path (j_source_ref j)) \<and>
     j_created_at j \<le> s_now s"

definition jobs_ok :: "sys \<Rightarrow> bool" where
  "jobs_ok s \<longleftrightarrow> (\<forall>k j. s_jobs s k = Some j \<longrightarrow> job_ok s j)"

text \<open>
  The daily counter: it never exceeds the limit, its day is not in the future, and while a job of
  the user is queued there is room for it on the day it will start.
\<close>

definition quota_ok :: "sys \<Rightarrow> bool" where
  "quota_ok s \<longleftrightarrow>
     (\<forall>u usr. s_users s u = Some usr \<longrightarrow>
        u_daily_quota_used usr \<le> MAX_DAILY_JOBS \<and>
        (\<forall>d. u_quota_reset_date usr = Some d \<longrightarrow> d \<le> date_of (s_now s)) \<and>
        (\<forall>k j. s_jobs s k = Some j \<longrightarrow> j_user_id j = u \<longrightarrow> j_status j = QUEUED \<longrightarrow>
           u_daily_quota_used usr < MAX_DAILY_JOBS \<or>
           (\<forall>d. u_quota_reset_date usr = Some d \<longrightarrow> d < date_of (j_created_at j))))"

text \<open>Every running container of the service belongs to the job that is being trained.\<close>

definition tracked :: "sys \<Rightarrow> bool" where
  "tracked s \<longleftrightarrow>
     (\<forall>c ls. s_running s c = Some ls \<longrightarrow> labelled ls \<longrightarrow>
        c \<noteq> [] \<and> (\<exists>k j. s_jobs s k = Some j \<and> monitored (j_status j) \<and> j_container_id j = Some c))"

definition sys_ok :: "sys \<Rightarrow> bool" where
  "sys_ok s \<longleftrightarrow>
     keyed j_id (s_jobs s) \<and> users_keyed s \<and> one_monitored s \<and> one_active s \<and> jobs_ok s \<and> quota_ok s"

lemma step_users:
  assumes "sys_step e s s'"
  obtains "s_users s' = s_users s" | usr where "s_users s' = (s_users s)(u_id usr \<mapsto> usr)"
  using assms
proof (cases rule: sys_step.cases)
  case (claim t j usr)
  then show thesis by (intro that(2) [of "record_job_started usr (date_of t)"]) simp
next
  case (register_user usr)
  then show thesis by (intro that(2) [of usr]) simp
next
  case (edit_user usr h)
  then show thesis by (intro that(2) [of "usr\<lparr>u_password_hash := h\<rparr>"]) simp
qed (use that(1) in simp_all)

lemma step_users_keyed: "sys_step e s s' \<Longrightarrow> users_keyed s \<Longrightarrow> users_keyed s'"
  unfolding users_keyed_def by (erule step_users) simp_all

lemma one_active_write:
  assumes inv: "one_active s" and j: "s_jobs s (j_id j) = Some j" and ev: "evolves_to j j'"
    and upd: "s_jobs s' = (s_jobs s)(j_id j \<mapsto> j')"
  shows "one_active s'"
proof -
  have old: "\<exists>i'. s_jobs s k = Some i' \<and> j_user_id i' = j_user_id i \<and> j_status i' \<in> set ACTIVE_STATUSES"
    if "s_jobs s' k = Some i" "j_status i \<in> set ACTIVE_STATUSES" for k i
    using that j evolves_to_active_back [OF ev] evolves_to_user [OF ev] by (auto simp: upd split: if_splits)
  show ?thesis
    unfolding one_active_def
  proof (intro allI impI)
    fix k k' i i'
    assume "s_jobs s' k = Some i" "s_jobs s' k' = Some i'" "j_user_id i = j_user_id i'"
      "j_status i \<in> set ACTIVE_STATUSES" "j_status i' \<in> set ACTIVE_STATUSES"
    with old [of k i] old [of k' i'] inv show "k = k'" unfolding one_active_def by metis
  qed
qed

lemma step_one_active:
  assumes step: "sys_step e s s'" and inv: "one_active s"
  shows "one_active s'"
  using step
proof (rule step_changes)
  fix j
  assume no: "\<not> has_active_job (s_jobs s) (j_user_id j)" and upd: "s_jobs s' = (s_jobs s)(j_id j \<mapsto> j)"
  have none: "False" if "s_jobs s k = Some i" "j_user_id i = j_user_id j" "j_status i \<in> set ACTIVE_STATUSES" for k i
    using no that unfolding has_active_job_def by blast
  show ?thesis
    unfolding one_active_def
  proof (intro allI impI)
    fix k k' i i'
    assume a: "s_jobs s' k = Some i" "s_jobs s' k' = Some i'" "j_user_id i = j_user_id i'"
      "j_status i \<in> set ACTIVE_STATUSES" "j_status i' \<in> set ACTIVE_STATUSES"
    have new: "x = j" if "s_jobs s' (j_id j) = Some x" for x using that by (simp add: upd)
    have same: "s_jobs s q = Some x" if "s_jobs s' q = Some x" "q \<noteq> j_id j" for q x
      using that by (simp add: upd)
    consider "k = j_id j" "k' = j_id j" | "k = j_id j" "k' \<noteq> j_id j" | "k \<noteq> j_id j" "k' = j_id j"
      | "k \<noteq> j_id j" "k' \<noteq> j_id j" by blast
    then show "k = k'"
    proof cases
      case 2
      with a new [of i] none [OF same [OF a(2)]] show ?thesis by simp
    next
      case 3
      with a new [of i'] none [OF same [OF a(1)]] show ?thesis by simp
    next
      case 4
      from inv same [OF a(1) 4(1)] same [OF a(2) 4(2)] a(3-5) show ?thesis
        unfolding one_active_def by blast
    qed simp
  qed
next
  assume "s_jobs s' = s_jobs s"
  with inv show ?thesis by (simp add: one_active_def)
next
  fix j j'
  assume j: "s_jobs s (j_id j) = Some j" and upd: "s_jobs s' = (s_jobs s)(j_id j \<mapsto> j')" and ev: "evolves_to j j'"
  show ?thesis by (rule one_active_write [OF inv j ev upd])
qed

lemma step_one_monitored:
  assumes step: "sys_step e s s'" and inv: "one_monitored s"
  shows "one_monitored s'"
  using step
proof (rule step_changes)
  assume "s_jobs s' = s_jobs s"
  with inv show ?thesis by (simp add: one_monitored_def)
next
  fix j
  assume upd: "s_jobs s' = (s_jobs s)(j_id j \<mapsto> j)" and queued: "j_status j = QUEUED"
  have "s_jobs s k = Some i" if "s_jobs s' k = Some i" "monitored (j_status i)" for k i
    using that queued by (auto simp: upd split: if_splits)
  with inv show ?thesis unfolding one_monitored_def by blast
next
  fix j j'
  assume j: "s_jobs s (j_id j) = Some j" and upd: "s_jobs s' = (s_jobs s)(j_id j \<mapsto> j')"
    and mon: "monitored (j_status j') \<longrightarrow> monitored (j_status j) \<or>
      (\<forall>k i. s_jobs s k = Some i \<longrightarrow> \<not> monitored (j_status i))"
  have old: "s_jobs s k = Some i" if "s_jobs s' k = Some i" "k \<noteq> j_id j" for k i
    using that by (simp add: upd)
  have new: "i = j'" if "s_jobs s' (j_id j) = Some i" for i using that by (simp add: upd)
  show ?thesis
    unfolding one_monitored_def
  proof (intro allI impI)
    fix k k' i i'
    assume a: "s_jobs s' k = Some i" "s_jobs s' k' = Some i'" "monitored (j_status i)" "monitored (j_status i')"
    consider "k = j_id j" "k' = j_id j" | "k = j_id j" "k' \<noteq> j_id j" | "k \<noteq> j_id j" "k' = j_id j"
      | "k \<noteq> j_id j" "k' \<noteq> j_id j" by blast
    then show "k = k'"
    proof cases
      case 2
      then have "monitored (j_status j)" using a new mon old [OF a(2)] by blast
      with inv j old [OF a(2)] 2 a(4) show ?thesis unfolding one_monitored_def by blast
    next
      case 3
      then have "monitored (j_status j)" using a new mon old [OF a(1)] by blast
      with inv j old [OF a(1)] 3 a(3) show ?thesis unfolding one_monitored_def by blast
    next
      case 4
      with inv old a show ?thesis unfolding one_monitored_def by blast
    qed simp
  qed
qed

lemma job_ok_frame:
  assumes "job_ok s j" and "s_now s \<le> s_now s'"
    and "\<And>u. s_users s u \<noteq> None \<Longrightarrow> s_users s' u \<noteq> None"
    and "\<And>p. \<not> upload_path p \<Longrightarrow> s_objects s p \<noteq> None \<Longrightarrow> s_objects s' p \<noteq> None"
  shows "job_ok s' j"
proof -
  have "\<not> upload_path (checkpoint_object_path j)"
    by (simp add: upload_path_def starts_with_def checkpoint_object_path_def)
  with assms show ?thesis by (auto simp: job_ok_def)
qed

lemma step_user_stays: "sys_step e s s' \<Longrightarrow> s_users s u \<noteq> None \<Longrightarrow> s_users s' u \<noteq> None"
  by (erule step_users) (simp_all split: if_splits)

lemma step_object_stays:
  "sys_step e s s' \<Longrightarrow> \<not> upload_path p \<Longrightarrow> s_objects s p \<noteq> None \<Longrightarrow> s_objects s' p \<noteq> None"
  by (cases rule: sys_step.cases) (auto split: if_splits)

lemma jobs_ok_frame:
  assumes step: "sys_step e s s'" and "job_ok s j"
  shows "job_ok s' j"
  using assms(2) step_now [OF step] step_user_stays [OF step] step_object_stays [OF step]
  by (rule job_ok_frame)

lemma jobs_ok_write:
  assumes step: "sys_step e s s'" and inv: "jobs_ok s" and j: "s_jobs s (j_id j) = Some j"
    and upd: "s_jobs s' = (s_jobs s)(k \<mapsto> j')" and ok: "job_ok s' j \<Longrightarrow> job_ok s' j'"
  shows "jobs_ok s'"
proof -
  have "job_ok s j" using inv j unfolding jobs_ok_def by blast
  then have j': "job_ok s' j'" by (intro ok jobs_ok_frame [OF step])
  have "job_ok s' i" if "s_jobs s' k' = Some i" for k' i
  proof (cases "k' = k")
    case True
    with that j' show ?thesis by (simp add: upd)
  next
    case False
    with that inv have "job_ok s i" unfolding jobs_ok_def by (auto simp: upd)
    then show ?thesis by (rule jobs_ok_frame [OF step])
  qed
  then show ?thesis by (simp add: jobs_ok_def)
qed

lemma jobs_ok_same:
  assumes step: "sys_step e s s'" and inv: "jobs_ok s" and "s_jobs s' = s_jobs s"
  shows "jobs_ok s'"
  using assms jobs_ok_frame [OF step] by (simp add: jobs_ok_def)

lemma checkpoint_path_cong: "j_id i = j_id j \<Longrightarrow> checkpoint_object_path i = checkpoint_object_path j"
  by (simp add: checkpoint_object_path_def)

lemma step_jobs_ok:
  assumes step: "sys_step e s s'" and inv: "jobs_ok s"
  shows "jobs_ok s'"
  using step
proof (cases rule: sys_step.cases)
  case (submit t0 t i u usr n st ref p)
  then have new: "job_ok s' (new_job i u p st ref n t)"
    by (simp add: job_ok_def)
  have "job_ok s' j" if "s_jobs s' k = Some j" for k j
  proof (cases "k = i")
    case True
    with that new submit show ?thesis by simp
  next
    case False
    with that submit inv have "job_ok s j" unfolding jobs_ok_def by auto
    then show ?thesis by (rule jobs_ok_frame [OF step])
  qed
  then show ?thesis by (simp add: jobs_ok_def)
next
  case (request_cancel t j j')
  show ?thesis
    by (rule jobs_ok_write [OF step inv request_cancel(4), of "j_id j'" j'])
       (use request_cancel in \<open>auto simp: job_ok_def request_cancel_Inr_iff status_simps checkpoint_object_path_def\<close>)
next
  case (timeout t j)
  show ?thesis
    by (rule jobs_ok_write [OF step inv timeout(4), of "j_id j" "timeout_version t j"])
       (use timeout in \<open>simp_all add: job_ok_def\<close>)
next
  case (cancel t j j')
  show ?thesis
    by (rule jobs_ok_write [OF step inv cancel(4), of "j_id j'" j'])
       (use cancel in \<open>auto simp: job_ok_def transition_Inr_iff\<close>)
next
  case (claim t j usr)
  show ?thesis
    by (rule jobs_ok_write [OF step inv claim(4), of "j_id j" "claimed t j"])
       (use claim in \<open>auto simp: job_ok_def\<close>)
next
  case (launch j c)
  show ?thesis
    by (rule jobs_ok_write [OF step inv launch(3), of "j_id j" "j\<lparr>j_container_id := Some c\<rparr>"])
       (use launch in \<open>auto simp: job_ok_def\<close>)
next
  case (fail_start t j j' m)
  show ?thesis
    by (rule jobs_ok_write [OF step inv fail_start(4), of "j_id j'" "j'\<lparr>j_error_message := Some m\<rparr>"])
       (use fail_start in \<open>auto simp: job_ok_def transition_Inr_iff\<close>)
next
  case (alive t j)
  show ?thesis
    by (rule jobs_ok_write [OF step inv alive(4), of "j_id j" "j\<lparr>j_heartbeat_at := Some t\<rparr>"])
       (use alive in \<open>auto simp: job_ok_def\<close>)
next
  case (train t j j')
  show ?thesis
    by (rule jobs_ok_write [OF step inv train(4), of "j_id j'" j'])
       (use train in \<open>auto simp: job_ok_def transition_Inr_iff\<close>)
next
  case (report t j p)
  show ?thesis
    by (rule jobs_ok_write [OF step inv report(4), of "j_id j" "j\<lparr>j_progress := Some p, j_heartbeat_at := Some t\<rparr>"])
       (use report in \<open>auto simp: job_ok_def\<close>)
next
  case (fail t j j' m)
  show ?thesis
    by (rule jobs_ok_write [OF step inv fail(4), of "j_id j'" "j'\<lparr>j_error_message := Some m\<rparr>"])
       (use fail in \<open>auto simp: job_ok_def transition_Inr_iff\<close>)
next
  case (complete t j j')
  show ?thesis
    by (rule jobs_ok_write [OF step inv complete(4), of "j_id j'"
          "j'\<lparr>j_checkpoint_gcs_path := Some (checkpoint_object_path j)\<rparr>"])
       (use complete in \<open>auto simp: job_ok_def transition_Inr_iff checkpoint_object_path_def\<close>)
qed (use step inv in \<open>auto intro: jobs_ok_same\<close>)

subsection \<open>The daily quota\<close>

definition user_quota_ok :: "sys \<Rightarrow> string \<Rightarrow> User \<Rightarrow> bool" where
  "user_quota_ok s u usr \<longleftrightarrow>
     u_daily_quota_used usr \<le> MAX_DAILY_JOBS \<and>
     (\<forall>d. u_quota_reset_date usr = Some d \<longrightarrow> d \<le> date_of (s_now s)) \<and>
     (\<forall>k j. s_jobs s k = Some j \<longrightarrow> j_user_id j = u \<longrightarrow> j_status j = QUEUED \<longrightarrow>
        u_daily_quota_used usr < MAX_DAILY_JOBS \<or>
        (\<forall>d. u_quota_reset_date usr = Some d \<longrightarrow> d < date_of (j_created_at j)))"

lemma quota_ok_iff: "quota_ok s \<longleftrightarrow> (\<forall>u usr. s_users s u = Some usr \<longrightarrow> user_quota_ok s u usr)"
  unfolding quota_ok_def user_quota_ok_def by blast

lemma user_quota_frame:
  assumes "user_quota_ok s u usr" and now: "s_now s \<le> s_now s'"
    and same: "u_daily_quota_used usr' = u_daily_quota_used usr" "u_quota_reset_date usr' = u_quota_reset_date usr"
    and old: "\<And>k j. s_jobs s' k = Some j \<Longrightarrow> j_user_id j = u \<Longrightarrow> j_status j = QUEUED \<Longrightarrow>
      \<exists>i. s_jobs s k = Some i \<and> j_user_id i = u \<and> j_status i = QUEUED \<and> j_created_at i = j_created_at j"
  shows "user_quota_ok s' u usr'"
proof -
  have "d \<le> date_of (s_now s')" if "u_quota_reset_date usr = Some d" for d
    using assms(1) that date_of_mono [OF now] unfolding user_quota_ok_def by fastforce
  moreover have "u_daily_quota_used usr < MAX_DAILY_JOBS \<or>
      (\<forall>d. u_quota_reset_date usr = Some d \<longrightarrow> d < date_of (j_created_at j))"
    if "s_jobs s' k = Some j" "j_user_id j = u" "j_status j = QUEUED" for k j
    using old [OF that] assms(1) unfolding user_quota_ok_def by metis
  ultimately show ?thesis using assms(1) same unfolding user_quota_ok_def by simp
qed

text \<open>Jobs that are queued after a step that is no submission were queued before.\<close>

lemma step_queued_back:
  assumes step: "sys_step e s s'" and "e \<noteq> Submit" and keyed: "keyed j_id (s_jobs s)"
    and j: "s_jobs s' k = Some j" "j_status j = QUEUED"
  shows "\<exists>i. s_jobs s k = Some i \<and> j_user_id i = j_user_id j \<and> j_status i = QUEUED \<and> j_created_at i = j_created_at j"
proof -
  have "s_jobs s k \<noteq> None"
    using step \<open>e \<noteq> Submit\<close> j(1) by (cases rule: sys_step.cases) (auto split: if_splits
      simp: transition_Inr_iff request_cancel_Inr_iff)
  then obtain i where i: "s_jobs s k = Some i" by blast
  with step_evolves [OF step keyed] j(1) have ev: "evolves_to i j"
    unfolding jobs_evolve_def by fastforce
  with j(2) have "j_status i = QUEUED" by (blast dest: evolves_to_queued_back)
  moreover have "j_created_at i = j_created_at j"
    using ev by (auto simp: evolves_to_def same_submission_def)
  ultimately show ?thesis using i evolves_to_user [OF ev] by simp
qed

lemma quota_frame_step:
  assumes step: "sys_step e s s'" "e \<noteq> Submit" and keyed: "keyed j_id (s_jobs s)"
    and ok: "user_quota_ok s u usr"
    and same: "u_daily_quota_used usr' = u_daily_quota_used usr" "u_quota_reset_date usr' = u_quota_reset_date usr"
  shows "user_quota_ok s' u usr'"
proof (rule user_quota_frame [OF ok step_now [OF step(1)] same])
  fix k j
  assume "s_jobs s' k = Some j" "j_user_id j = u" "j_status j = QUEUED"
  with step_queued_back [OF step keyed]
  show "\<exists>i. s_jobs s k = Some i \<and> j_user_id i = u \<and> j_status i = QUEUED \<and> j_created_at i = j_created_at j"
    by metis
qed

lemma submit_quota:
  assumes ok: "user_quota_ok s u usr" and free: "\<not> has_active_job (s_jobs s) u"
    and quota: "effective_daily_used usr (date_of t0) < MAX_DAILY_JOBS" and now: "s_now s \<le> t0" "t0 \<le> t"
  shows "user_quota_ok (put_job (new_job i u p st ref n t) t s) u usr"
  unfolding user_quota_ok_def
proof (intro conjI allI impI)
  show "u_daily_quota_used usr \<le> MAX_DAILY_JOBS" using ok by (simp add: user_quota_ok_def)
  have old: "d \<le> date_of (s_now s)" if "u_quota_reset_date usr = Some d" for d
    using ok that by (simp add: user_quota_ok_def)
  have mono: "date_of (s_now s) \<le> date_of t0" "date_of t0 \<le> date_of t"
    using now by (auto intro: date_of_mono)
  show "d \<le> date_of (s_now (put_job (new_job i u p st ref n t) t s))" if "u_quota_reset_date usr = Some d" for d
    using old [OF that] mono by simp
  fix k j
  assume j: "s_jobs (put_job (new_job i u p st ref n t) t s) k = Some j" "j_user_id j = u" "j_status j = QUEUED"
  then have j_new: "j = new_job i u p st ref n t"
    using free by (auto simp: has_active_job_def status_simps split: if_splits)
  show "u_daily_quota_used usr < MAX_DAILY_JOBS \<or>
      (\<forall>d. u_quota_reset_date usr = Some d \<longrightarrow> d < date_of (j_created_at j))"
  proof (cases "u_quota_reset_date usr = Some (date_of t0)")
    case True
    with quota show ?thesis by (simp add: effective_daily_used_def)
  next
    case False
    have "d < date_of t" if d: "u_quota_reset_date usr = Some d" for d
      using old [OF d] mono False d by (cases "d = date_of t0") auto
    then show ?thesis by (simp add: j_new)
  qed
qed

lemma claim_quota:
  assumes ok: "user_quota_ok s (j_user_id j) usr" and j: "s_jobs s (j_id j) = Some j" "j_status j = QUEUED"
    and one: "one_active s" and created: "j_created_at j \<le> s_now s" and now: "s_now s \<le> t"
    and users: "s_now s' = t" "s_jobs s' = (s_jobs s)(j_id j \<mapsto> claimed t j)"
  shows "user_quota_ok s' (j_user_id j) (record_job_started usr (date_of t))"
  unfolding user_quota_ok_def
proof (intro conjI allI impI)
  have "date_of (j_created_at j) \<le> date_of t" using created now by (intro date_of_mono) simp
  moreover have "u_daily_quota_used usr < MAX_DAILY_JOBS \<or>
      (\<forall>d. u_quota_reset_date usr = Some d \<longrightarrow> d < date_of (j_created_at j))"
    using ok j unfolding user_quota_ok_def by blast
  ultimately have "effective_daily_used usr (date_of t) < MAX_DAILY_JOBS"
    by (auto simp: effective_daily_used_def MAX_DAILY_JOBS_def)
  then show "u_daily_quota_used (record_job_started usr (date_of t)) \<le> MAX_DAILY_JOBS" by simp
  show "d \<le> date_of (s_now s')" if "u_quota_reset_date (record_job_started usr (date_of t)) = Some d" for d
    using that users by simp
  fix k i
  assume i: "s_jobs s' k = Some i" "j_user_id i = j_user_id j" "j_status i = QUEUED"
  then have "k \<noteq> j_id j" using users by auto
  moreover from this i users have "s_jobs s k = Some i" by simp
  ultimately have False
    using one j i unfolding one_active_def by (metis mem_status_groups(1))
  then show "u_daily_quota_used (record_job_started usr (date_of t)) < MAX_DAILY_JOBS \<or>
      (\<forall>d. u_quota_reset_date (record_job_started usr (date_of t)) = Some d \<longrightarrow> d < date_of (j_created_at i))" ..
qed

lemma step_quota_ok:
  assumes step: "sys_step e s s'" and inv: "sys_ok s"
  shows "quota_ok s'"
  unfolding quota_ok_iff
proof (intro allI impI)
  fix u usr'
  assume u: "s_users s' u = Some usr'"
  have keyed: "keyed j_id (s_jobs s)" and one: "one_active s" and ukeyed: "keyed u_id (s_users s)"
    using inv by (simp_all add: sys_ok_def users_keyed_def)
  have ok: "user_quota_ok s v usr" if "s_users s v = Some usr" for v usr
    using inv that by (simp add: sys_ok_def quota_ok_iff)
  show "user_quota_ok s' u usr'"
  proof (cases "e = Submit")
    case True
    with step obtain t0 t i v usr n st ref p where sub: "s' = put_job (new_job i v p st ref n t) t s"
      "s_now s \<le> t0" "t0 \<le> t" "s_users s v = Some usr" "\<not> has_active_job (s_jobs s) v"
      "effective_daily_used usr (date_of t0) < MAX_DAILY_JOBS"
      by (auto elim: sys_step.cases)
    show ?thesis
    proof (cases "u = v")
      case True
      with u sub ok [of v usr] show ?thesis by (simp add: submit_quota)
    next
      case False
      have "\<exists>i. s_jobs s k = Some i \<and> j_user_id i = u \<and> j_status i = QUEUED \<and> j_created_at i = j_created_at j"
        if "s_jobs s' k = Some j" "j_user_id j = u" "j_status j = QUEUED" for k j
        using that False sub by (auto split: if_splits)
      with u sub show ?thesis by (intro user_quota_frame [OF ok]) auto
    qed
  next
    case False
    note frame = quota_frame_step [OF step False keyed]
    have same: "user_quota_ok s' u usr'" if "s_users s u = Some usr'"
      using that by (intro frame [OF ok]) simp_all
    from step False show ?thesis
    proof (cases rule: sys_step.cases)
      case (claim t j usr)
      have id: "u_id usr = j_user_id j" using ukeyed claim(9) by (rule keyedD)
      show ?thesis
      proof (cases "u = j_user_id j")
        case True
        have "job_ok s j" using inv claim(4) by (simp add: sys_ok_def jobs_ok_def)
        then have created: "j_created_at j \<le> s_now s" by (simp add: job_ok_def)
        have usr': "usr' = record_job_started usr (date_of t)" using True claim(2) u id by simp
        show ?thesis
          unfolding True usr'
          by (rule claim_quota [OF ok [OF claim(9)] claim(4,5) one created claim(3)]) (simp_all add: claim(2))
      next
        case False
        with claim u id have "s_users s u = Some usr'" by simp
        then show ?thesis by (intro frame [OF ok]) simp_all
      qed
    next
      case (register_user usr)
      show ?thesis
      proof (cases "u = u_id usr")
        case True
        with u register_user show ?thesis by (simp add: user_quota_ok_def MAX_DAILY_JOBS_def)
      next
        case False
        with u register_user have "s_users s u = Some usr'" by simp
        then show ?thesis by (intro frame [OF ok]) simp_all
      qed
    next
      case (edit_user usr h)
      show ?thesis
      proof (cases "u = u_id usr")
        case True
        with u edit_user have "usr' = usr\<lparr>u_password_hash := h\<rparr>" by simp
        with True edit_user show ?thesis by (intro frame [OF ok [of u usr]]) simp_all
      next
        case False
        with u edit_user have "s_users s u = Some usr'" by simp
        then show ?thesis by (intro frame [OF ok]) simp_all
      qed
    qed (use u same in simp_all)
  qed
qed

lemma step_sys_ok: "sys_step e s s' \<Longrightarrow> sys_ok s \<Longrightarrow> sys_ok s'"
  using step_keyed step_users_keyed step_one_monitored step_one_active step_jobs_ok step_quota_ok
  unfolding sys_ok_def by (metis sys_ok_def)

lemma steps_sys_ok: "sys_steps A s s' \<Longrightarrow> sys_ok s \<Longrightarrow> sys_ok s'"
  by (rule sys_steps_invariant [where I = sys_ok]) (auto intro: step_sys_ok)

lemma steps_now: "sys_steps A s s' \<Longrightarrow> s_now s \<le> s_now s'"
  by (induction rule: sys_steps.induct) (auto dest: step_now)

lemma steps_evolve:
  assumes "sys_steps A s s'" and "keyed j_id (s_jobs s)" and "s_jobs s k = Some j"
  shows "\<exists>j'. s_jobs s' k = Some j' \<and> evolves_to j j'"
proof -
  have "keyed j_id (s_jobs s') \<and> (\<exists>j'. s_jobs s' k = Some j' \<and> evolves_to j j')"
    using assms
  proof (induction rule: sys_steps.induct)
    case (steps_step s s' e s'')
    then obtain j' where keyed: "keyed j_id (s_jobs s')" and j': "s_jobs s' k = Some j'" "evolves_to j j'"
      by blast
    from step_evolves [OF steps_step(2) keyed] j'(1)
    obtain j'' where "s_jobs s'' k = Some j''" "evolves_to j' j''"
      unfolding jobs_evolve_def by blast
    with j'(2) step_keyed [OF steps_step(2) keyed] show ?case by (blast intro: evolves_to_trans)
  qed auto
  then show ?thesis ..
qed

subsection \<open>One container at a time\<close>

lemma tracked_write:
  assumes inv: "tracked s" and j: "s_jobs s (j_id j) = Some j"
    and upd: "s_jobs s' = (s_jobs s)(j_id j \<mapsto> j')" "s_running s' = s_running s"
    and keep: "monitored (j_status j) \<Longrightarrow>
      monitored (j_status j') \<and> j_container_id j' = j_container_id j \<or> container_stopped (s_running s) j"
  shows "tracked s'"
  unfolding tracked_def
proof (intro allI impI)
  fix c ls
  assume c: "s_running s' c = Some ls" "labelled ls"
  with inv upd(2) obtain k i where "c \<noteq> []" and i: "s_jobs s k = Some i" "monitored (j_status i)" "j_container_id i = Some c"
    unfolding tracked_def by metis
  show "c \<noteq> [] \<and> (\<exists>k j. s_jobs s' k = Some j \<and> monitored (j_status j) \<and> j_container_id j = Some c)"
  proof (cases "k = j_id j")
    case True
    with i j have "i = j" by simp
    with keep i c upd \<open>c \<noteq> []\<close> have "monitored (j_status j')" "j_container_id j' = Some c"
      by (auto simp: container_stopped_def)
    with \<open>c \<noteq> []\<close> upd show ?thesis by auto
  next
    case False
    with i upd \<open>c \<noteq> []\<close> show ?thesis by (metis fun_upd_other)
  qed
qed

lemma tracked_same: "tracked s \<Longrightarrow> s_jobs s' = s_jobs s \<Longrightarrow> s_running s' = s_running s \<Longrightarrow> tracked s'"
  by (simp add: tracked_def)

lemma container_stopped_None: "j_container_id j = None \<Longrightarrow> container_stopped run j"
  by (simp add: container_stopped_def)

lemma step_tracked:
  assumes step: "sys_step e s s'" and ok: "sys_ok s" and inv: "tracked s" and e: "e \<noteq> Timeout"
  shows "tracked s'"
  using step
proof (cases rule: sys_step.cases)
  case (submit t0 t i u usr n st ref p)
  then have "s_jobs s k = Some j \<Longrightarrow> s_jobs s' k = Some j" for k j by auto
  with inv submit show ?thesis unfolding tracked_def by (metis put_job_fields(4))
next
  case (request_cancel t j j')
  show ?thesis
    by (rule tracked_write [OF inv request_cancel(4), of s' j'])
       (use request_cancel in \<open>auto simp: request_cancel_Inr_iff\<close>)
next
  case (stop c)
  with inv show ?thesis by (auto simp: tracked_def)
next
  case (cancel t j j')
  show ?thesis
    by (rule tracked_write [OF inv cancel(4), of s' j']) (use cancel in \<open>auto simp: transition_Inr_iff\<close>)
next
  case (claim t j usr)
  show ?thesis
    by (rule tracked_write [OF inv claim(4), of s' "claimed t j"]) (use claim in \<open>auto\<close>)
next
  case (launch j c)
  show ?thesis
    unfolding tracked_def
  proof (intro allI impI)
    fix d ls
    assume d: "s_running s' d = Some ls" "labelled ls"
    show "d \<noteq> [] \<and> (\<exists>k j. s_jobs s' k = Some j \<and> monitored (j_status j) \<and> j_container_id j = Some d)"
    proof (cases "d = c")
      case True
      with launch show ?thesis by auto
    next
      case False
      with d launch inv obtain k i where i: "d \<noteq> []" "s_jobs s k = Some i" "monitored (j_status i)"
        "j_container_id i = Some d"
        unfolding tracked_def by (metis put_job_fields(4) fun_upd_other sys.select_convs(4) sys.surjective sys.update_convs(4))
      with launch have "k \<noteq> j_id j" by auto
      with i launch show ?thesis by auto
    qed
  qed
next
  case (fail_start t j j' m)
  show ?thesis
    by (rule tracked_write [OF inv fail_start(4), of s' "j'\<lparr>j_error_message := Some m\<rparr>"])
       (use fail_start in \<open>auto simp: transition_Inr_iff container_stopped_None\<close>)
next
  case (alive t j)
  show ?thesis
    by (rule tracked_write [OF inv alive(4), of s' "j\<lparr>j_heartbeat_at := Some t\<rparr>"]) (use alive in auto)
next
  case (train t j j')
  show ?thesis
    by (rule tracked_write [OF inv train(4), of s' j']) (use train in \<open>auto simp: transition_Inr_iff\<close>)
next
  case (report t j p)
  show ?thesis
    by (rule tracked_write [OF inv report(4), of s' "j\<lparr>j_progress := Some p, j_heartbeat_at := Some t\<rparr>"])
       (use report in auto)
next
  case (fail t j j' m)
  show ?thesis
    by (rule tracked_write [OF inv fail(4), of s' "j'\<lparr>j_error_message := Some m\<rparr>"])
       (use fail in \<open>auto simp: transition_Inr_iff\<close>)
next
  case (complete t j j')
  show ?thesis
    by (rule tracked_write [OF inv complete(4), of s' "j'\<lparr>j_checkpoint_gcs_path := Some (checkpoint_object_path j)\<rparr>"])
       (use complete in \<open>auto simp: transition_Inr_iff\<close>)
qed (use e inv in \<open>simp_all add: tracked_def\<close>)

lemma steps_tracked:
  assumes "sys_steps A s s'" and "sys_ok s" and "tracked s" and "Timeout \<notin> A"
  shows "tracked s'"
proof -
  have "sys_ok s' \<and> tracked s'"
    by (rule sys_steps_invariant [OF assms(1), where I = "\<lambda>s. sys_ok s \<and> tracked s"])
      (use assms step_sys_ok step_tracked in blast)+
  then show ?thesis ..
qed

lemma tracked_one_container:
  assumes "tracked s" and "one_monitored s"
    and "s_running s c = Some ls" "labelled ls" "s_running s c' = Some ls'" "labelled ls'"
  shows "c = c'"
  using assms unfolding tracked_def one_monitored_def by (metis option.inject)

end
