(* ===== verification/Backend_Refinement.thy ===== *)
theory Backend_Refinement
  imports Backend_Api Abstract_System
begin

text \<open>
  The backend implements the abstract system: over adapters that keep their contracts, the effect of
  every request is a sequence of abstract steps. \<open>request\<close> collects the routes with their parsed
  arguments and the random values they draw, \<open>serve\<close> dispatches them.
\<close>

datatype request =
    RegisterRequest string string string string string
  | LoginRequest string string
  | ChangePasswordRequest "string option" string string string
  | HFCallbackRequest string string string
  | ZipTargetRequest "string option" string
  | ConfirmZipUploadRequest "string option" string string PolicyType int
  | SubmitHFDatasetRequest "string option" string string PolicyType int
  | ListMyJobsRequest "string option"
  | CancelJobRequest "string option" string
  | DownloadUrlRequest "string option" string
  | CheckTimeoutsRequest "string option"

fun serve ::
    "('j, 'u, 'o) Dependencies \<Rightarrow> (nat \<Rightarrow> datetime) \<Rightarrow> request \<Rightarrow> ('j, 'u, 'o) backend \<Rightarrow> ('j, 'u, 'o) backend" where
  "serve P now (RegisterRequest salt new_id email password captcha_token) b =
     snd (api_register P (now 0) salt new_id email password captcha_token b)"
| "serve P now (LoginRequest email password) b = snd (api_login P (now 0) email password b)"
| "serve P now (ChangePasswordRequest authorization salt old_password new_password) b =
     snd (api_change_password P (now 0) authorization salt old_password new_password b)"
| "serve P now (HFCallbackRequest new_id code redirect_uri) b =
     snd (api_hf_callback P (now 0) new_id code redirect_uri b)"
| "serve P now (ZipTargetRequest authorization new_id) b =
     snd (api_create_zip_upload_target P (now 0) authorization new_id b)"
| "serve P now (ConfirmZipUploadRequest authorization new_id upload_id policy training_steps) b =
     snd (api_confirm_zip_upload P now authorization new_id upload_id policy training_steps b)"
| "serve P now (SubmitHFDatasetRequest authorization new_id repo_id policy training_steps) b =
     snd (api_submit_hf_dataset P now authorization new_id repo_id policy training_steps b)"
| "serve P now (ListMyJobsRequest authorization) b = snd (api_list_my_jobs P (now 0) authorization b)"
| "serve P now (CancelJobRequest authorization job_id) b = snd (api_cancel_job P (now 0) authorization job_id b)"
| "serve P now (DownloadUrlRequest authorization job_id) b =
     snd (api_get_download_url P (now 0) authorization job_id b)"
| "serve P now (CheckTimeoutsRequest x_scheduler_secret) b = snd (api_check_timeouts P (now 0) x_scheduler_secret b)"

text \<open>The events a request can make: only the scheduled sweep times jobs out.\<close>

fun request_events :: "request \<Rightarrow> event set" where
  "request_events (CheckTimeoutsRequest x_scheduler_secret) = {Pass, Timeout}"
| "request_events _ = {Pass, Submit, RequestCancel, Register, EditUser, DropUpload}"

text \<open>The id a request may give to a new job or a new account.\<close>

fun drawn_id :: "request \<Rightarrow> string option" where
  "drawn_id (RegisterRequest salt new_id email password captcha_token) = Some new_id"
| "drawn_id (HFCallbackRequest new_id code redirect_uri) = Some new_id"
| "drawn_id (ConfirmZipUploadRequest authorization new_id upload_id policy training_steps) = Some new_id"
| "drawn_id (SubmitHFDatasetRequest authorization new_id repo_id policy training_steps) = Some new_id"
| "drawn_id _ = None"

definition backend_view ::
    "('j \<Rightarrow> string \<rightharpoonup> Job) \<Rightarrow> ('u \<Rightarrow> string \<rightharpoonup> User) \<Rightarrow> ('o \<Rightarrow> string \<rightharpoonup> blob) \<Rightarrow>
     (string \<rightharpoonup> (string \<times> string) list) \<Rightarrow> ('j, 'u, 'o) backend \<Rightarrow> datetime \<Rightarrow> sys" where
  "backend_view jobs_of users_of objects_of run b t =
     \<lparr>s_jobs = jobs_of (b_jobs b), s_users = users_of (b_users b), s_objects = objects_of (b_objects b),
      s_running = run, s_now = t\<rparr>"

lemma backend_view_fields [simp]:
  "s_jobs (backend_view jo uo oo run b t) = jo (b_jobs b)"
  "s_users (backend_view jo uo oo run b t) = uo (b_users b)"
  "s_objects (backend_view jo uo oo run b t) = oo (b_objects b)"
  "s_running (backend_view jo uo oo run b t) = run"
  "s_now (backend_view jo uo oo run b t) = t"
  by (simp_all add: backend_view_def)

lemma object_path_upload [simp]: "upload_path (object_path_for u i)"
  unfolding upload_path_def object_path_for_def by (rule starts_with_append)

locale backend_system =
  job_store "dp_job_repository P" jobs_of wf_jobs + user_store "dp_user_repository P" users_of wf_users +
  object_store "dp_storage P" objects_of
  for P :: "('j, 'u, 'o) Dependencies"
    and jobs_of :: "'j \<Rightarrow> string \<rightharpoonup> Job" and wf_jobs
    and users_of :: "'u \<Rightarrow> string \<rightharpoonup> User" and wf_users
    and objects_of :: "'o \<Rightarrow> string \<rightharpoonup> blob"
begin

abbreviation "R \<equiv> dp_job_repository P"
abbreviation "U \<equiv> dp_user_repository P"
abbreviation "S \<equiv> dp_storage P"
abbreviation "view \<equiv> backend_view jobs_of users_of objects_of"

definition backend_ok :: "('j, 'u, 'o) backend \<Rightarrow> bool" where
  "backend_ok b \<longleftrightarrow> wf_jobs (b_jobs b) \<and> wf_users (b_users b)"

abbreviation "api_events \<equiv> {Pass, Submit, RequestCancel, Register, EditUser, DropUpload}"
abbreviation "sweep_events \<equiv> {Pass, Timeout}"

lemma idle_view_in: "t \<le> t' \<Longrightarrow> Pass \<in> A \<Longrightarrow> sys_steps A (view run b t) (view run b t')"
  using sys_step.pass [of "view run b t" t'] by (intro sys_steps_one [of Pass]) (simp_all add: backend_view_def)

lemma idle_view: "t \<le> t' \<Longrightarrow> sys_steps api_events (view run b t) (view run b t')"
  by (rule idle_view_in) simp_all

text \<open>One event, followed by the passing of time.\<close>

lemma event_then_idle:
  assumes "sys_step e (view run b t) (view run b' t1)" and "e \<in> api_events" and "t1 \<le> t2"
  shows "sys_steps api_events (view run b t) (view run b' t2)"
  using sys_steps_one [OF assms(1,2)] idle_view [OF assms(3)] by (rule sys_steps_trans [rotated])

subsection \<open>Accounts\<close>

lemma register_view:
  assumes "users_of (b_users b) (u_id usr) = None" and "u_daily_quota_used usr = 0" and "u_quota_reset_date usr = None"
    and "users_of users = (users_of (b_users b))(u_id usr \<mapsto> usr)" and "t \<le> t2"
  shows "sys_steps api_events (view run b t) (view run (b\<lparr>b_users := users\<rparr>) t2)"
proof -
  have "view run (b\<lparr>b_users := users\<rparr>) t = (view run b t)\<lparr>s_users := (s_users (view run b t))(u_id usr \<mapsto> usr)\<rparr>"
    using assms(4) by (simp add: backend_view_def)
  then have "sys_step Register (view run b t) (view run (b\<lparr>b_users := users\<rparr>) t)"
    using sys_step.register_user [of "view run b t" usr] assms(1,2,3) by simp
  then show ?thesis using assms(5) by (intro event_then_idle) auto
qed

lemma register_refines:
  assumes ok: "backend_ok b" and fresh: "users_of (b_users b) i = None" and time: "t \<le> now"
    and run: "api_register P now salt i e p tok b = (out, b')"
  shows "backend_ok b' \<and> sys_steps api_events (view run b t) (view run b' now)"
proof -
  have wf: "wf_users (b_users b)" using ok by (simp add: backend_ok_def)
  obtain r users where r: "register_with_email (dp_bcrypt P) U (dp_captcha_verifier P)
      (st_min_captcha_score (dp_settings P)) salt i now e p tok (b_users b) = (r, users)" by fastforce
  then have b': "b' = b\<lparr>b_users := users\<rparr>" using run by (simp add: api_register_def)
  note spec = register_spec [OF wf r]
  show ?thesis
  proof (cases r)
    case (Inl x)
    with spec b' ok time show ?thesis by (simp add: backend_ok_def idle_view)
  next
    case (Inr u)
    with spec obtain h where u: "u = email_user i e h now" "users_of users = (users_of (b_users b))(i \<mapsto> u)" by blast
    then have "sys_steps api_events (view run b t) (view run b' now)"
      unfolding b' using fresh time by (intro register_view [of _ u]) simp_all
    with spec b' ok show ?thesis by (simp add: backend_ok_def)
  qed
qed

lemma hf_callback_refines:
  assumes ok: "backend_ok b" and fresh: "users_of (b_users b) i = None" and time: "t \<le> now"
    and run: "api_hf_callback P now i code uri b = (out, b')"
  shows "backend_ok b' \<and> sys_steps api_events (view run b t) (view run b' now)"
proof -
  have wf: "wf_users (b_users b)" using ok by (simp add: backend_ok_def)
  obtain r users where r: "login_or_register_with_hf U (dp_hf_oauth_client P) i now code uri (b_users b) = (r, users)"
    by fastforce
  then have b': "b' = b\<lparr>b_users := users\<rparr>" using run by (simp add: api_hf_callback_def)
  note spec = hf_login_spec [OF wf r]
  have same: ?thesis if "users = b_users b" using that ok time b' by (simp add: idle_view)
  show ?thesis
  proof (cases r)
    case (Inl x)
    then have "users = b_users b"
      using r by (auto simp: login_or_register_with_hf_def Let_def split: sum.splits option.splits)
    then show ?thesis by (rule same)
  next
    case (Inr u)
    with spec consider "users = b_users b"
      | p where "u = hf_user i p now" "users_of users = (users_of (b_users b))(i \<mapsto> u)" by blast
    then show ?thesis
    proof cases
      case 1
      then show ?thesis by (rule same)
    next
      case 2
      then have "sys_steps api_events (view run b t) (view run b' now)"
        unfolding b' using fresh time by (intro register_view [of _ u]) simp_all
      with spec b' ok show ?thesis by (simp add: backend_ok_def)
    qed
  qed
qed

lemma as_user_cases:
  assumes "as_user P now auth route b = (out, b')"
  obtains "b' = b" | u where "get_current_user_id (dp_jwt P) (dp_settings P) now auth = Inr u" "route u b = (out, b')"
  using assms by (cases "get_current_user_id (dp_jwt P) (dp_settings P) now auth") (auto simp: as_user_def)

lemma change_password_refines:
  assumes ok: "backend_ok b" and time: "t \<le> now"
    and run: "api_change_password P now auth salt old new b = (out, b')"
  shows "backend_ok b' \<and> sys_steps api_events (view run b t) (view run b' now)"
  using run unfolding api_change_password_def
proof (rule as_user_cases)
  assume "b' = b"
  with ok time show ?thesis by (simp add: idle_view)
next
  fix i
  assume route: "(case change_password (dp_bcrypt P) U salt i old new (b_users b) of
         (r, users) \<Rightarrow> (respond 204 (and_then r (\<lambda>_. Inr ())), b\<lparr>b_users := users\<rparr>)) = (out, b')"
  have wf: "wf_users (b_users b)" using ok by (simp add: backend_ok_def)
  obtain r users where r: "change_password (dp_bcrypt P) U salt i old new (b_users b) = (r, users)" by fastforce
  then have b': "b' = b\<lparr>b_users := users\<rparr>" using route by simp
  note spec = change_password_spec [OF wf r]
  show ?thesis
  proof (cases r)
    case (Inl x)
    with spec b' ok time show ?thesis by (simp add: backend_ok_def idle_view)
  next
    case (Inr u')
    with spec obtain u h' where u: "users_of (b_users b) i = Some u" "u' = u\<lparr>u_password_hash := Some h'\<rparr>"
        "users_of users = (users_of (b_users b))(i \<mapsto> u')" by blast
    have i: "u_id u = i" using keyedD [OF users_keyed [OF wf] u(1)] .
    then have "view run b' t =
        (view run b t)\<lparr>s_users := (s_users (view run b t))(u_id u \<mapsto> u\<lparr>u_password_hash := Some h'\<rparr>)\<rparr>"
      using u b' by (simp add: backend_view_def)
    then have "sys_step EditUser (view run b t) (view run b' t)"
      using sys_step.edit_user [of "view run b t" u "Some h'"] u(1) i by simp
    then have "sys_steps api_events (view run b t) (view run b' now)"
      using time by (intro event_then_idle) auto
    with spec b' ok show ?thesis by (simp add: backend_ok_def)
  qed
qed

subsection \<open>Jobs\<close>

lemma put_job_view:
  assumes "jobs_of jobs = (jobs_of (b_jobs b))(j_id j \<mapsto> j)"
  shows "view run (b\<lparr>b_jobs := jobs\<rparr>) t' = put_job j t' (view run b t)"
  using assms by (simp add: backend_view_def put_job_def)

lemma create_job_refines:
  assumes ok: "backend_ok b" and fresh: "jobs_of (b_jobs b) i = None"
    and time: "t \<le> now 0" "now 0 \<le> now 1"
    and path: "st = ZIP_UPLOAD \<longrightarrow> upload_path ref"
    and run: "JobService_create_job R U now i (b_users b) u p st ref n (b_jobs b) = (r, jobs)"
  shows "wf_jobs jobs \<and> sys_steps api_events (view run b t) (view run (b\<lparr>b_jobs := jobs\<rparr>) (now 1))"
proof -
  have wf: "wf_jobs (b_jobs b)" "wf_users (b_users b)" using ok by (simp_all add: backend_ok_def)
  have wf': "wf_jobs jobs"
    using create_job_wf_result [OF wf(1), of U now i "b_users b" u p st ref n] run by simp
  show ?thesis
  proof (cases "jobs = b_jobs b")
    case True
    with wf time show ?thesis by (simp add: idle_view)
  next
    case changed: False
    obtain usr where usr: "users_of (b_users b) u = Some usr"
      using run changed by (cases "users_of (b_users b) u")
        (auto simp: JobService_create_job_def get_user_law [OF wf(2)] Let_def split: if_splits)
    have "ur_get U (b_users b) u = Inr (Some usr)" by (simp add: get_user_law [OF wf(2)] usr)
    note spec = create_job_spec [OF wf(1) this, of now i p st ref n]
    let ?j = "new_job i u p st ref n (now 1)"
    from spec run changed have ok: "1 \<le> n" "n \<le> 20000" "\<not> has_active_job (jobs_of (b_jobs b)) u"
        "effective_daily_used usr (date_of (now 0)) < MAX_DAILY_JOBS" "jobs = jr_create R ?j (b_jobs b)"
      by (auto split: if_splits)
    have "jobs_of jobs = (jobs_of (b_jobs b))(j_id ?j \<mapsto> ?j)"
      using create_job_law [OF wf(1)] ok(5) by simp
    note v = put_job_view [OF this, of run "now 1" t]
    have "sys_step Submit (view run b t) (put_job ?j (now 1) (view run b t))"
      using ok usr fresh time path by (intro sys_step.submit [of _ "now 0" _ i u usr]) simp_all
    with v have "sys_steps api_events (view run b t) (view run (b\<lparr>b_jobs := jobs\<rparr>) (now 1))"
      by (intro sys_steps_one [of Submit]) simp_all
    with wf' show ?thesis by simp
  qed
qed

lemma confirm_refines:
  assumes ok: "backend_ok b" and fresh: "jobs_of (b_jobs b) i = None"
    and time: "t \<le> now 0" "now 0 \<le> now 1"
    and run: "api_confirm_zip_upload P now auth i upload_id policy n b = (out, b')"
  shows "backend_ok b' \<and> sys_steps api_events (view run b t) (view run b' (now 1))"
  using run unfolding api_confirm_zip_upload_def
proof (rule as_user_cases)
  assume "b' = b"
  with ok time show ?thesis by (simp add: idle_view)
next
  fix u
  let ?p = "object_path_for u upload_id"
  assume route: "(if \<not> steps_field_ok n then (unprocessable, b)
       else
         (case confirm_zip_upload R U S (dp_limits P) now i (b_users b) u upload_id policy n (b_jobs b, b_objects b) of
            (r, (jobs, objects)) \<Rightarrow>
              (respond 200 (and_then r (\<lambda>job. job_out_for R jobs u (j_id job))),
               b\<lparr>b_jobs := jobs, b_objects := objects\<rparr>))) = (out, b')"
  have idle: ?thesis if "b' = b" using that ok time by (simp add: idle_view)
  show ?thesis
  proof (cases "steps_field_ok n \<and> os_exists S (b_objects b) ?p")
    case False
    with route have "b' = b" by (auto simp: confirm_zip_upload_def split: if_splits)
    then show ?thesis by (rule idle)
  next
    case True
    obtain q objects where q: "inspect_upload S (dp_limits P) policy ?p (b_objects b) = (q, objects)" by fastforce
    let ?b1 = "b\<lparr>b_objects := objects\<rparr>"
    have touched: "objects_of objects = objects_of (b_objects b) \<or>
        objects_of objects = (objects_of (b_objects b))(?p := None)"
      using q by (rule inspect_upload_objects)
    have "sys_steps api_events (view run b t) (view run ?b1 t)"
      using touched
    proof
      assume "objects_of objects = objects_of (b_objects b)"
      then have "view run ?b1 t = view run b t" by (simp add: backend_view_def)
      then show ?thesis by (simp add: steps_refl)
    next
      assume "objects_of objects = (objects_of (b_objects b))(?p := None)"
      then have "view run ?b1 t = (view run b t)\<lparr>s_objects := (s_objects (view run b t))(?p := None)\<rparr>"
        by (simp add: backend_view_def)
      then have "sys_step DropUpload (view run b t) (view run ?b1 t)"
        using sys_step.drop_upload [of ?p "view run b t"] by simp
      then show ?thesis by (rule sys_steps_one) simp
    qed
    note first = this
    have ok1: "backend_ok ?b1" using ok by (simp add: backend_ok_def)
    show ?thesis
    proof (cases q)
      case (Inl e)
      with route True q have "b' = ?b1" by (auto simp: confirm_zip_upload_def)
      moreover have "sys_steps api_events (view run ?b1 t) (view run ?b1 (now 1))" using time by (intro idle_view) simp
      ultimately show ?thesis using ok1 sys_steps_trans [OF _ first] by simp
    next
      case (Inr x)
      obtain r jobs where r: "JobService_create_job R U now i (b_users ?b1) u policy ZIP_UPLOAD ?p n (b_jobs ?b1) = (r, jobs)"
        by fastforce
      have "jobs_of (b_jobs ?b1) i = None" using fresh by simp
      from create_job_refines [OF ok1 this time _ r, of run] have
        c: "wf_jobs jobs" "sys_steps api_events (view run ?b1 t) (view run (?b1\<lparr>b_jobs := jobs\<rparr>) (now 1))" by simp_all
      have "b' = ?b1\<lparr>b_jobs := jobs\<rparr>" using route True q Inr r by (auto simp: confirm_zip_upload_def)
      with c ok1 sys_steps_trans [OF c(2) first] show ?thesis by (simp add: backend_ok_def)
    qed
  qed
qed

lemma submit_hf_refines:
  assumes ok: "backend_ok b" and fresh: "jobs_of (b_jobs b) i = None"
    and time: "t \<le> now 0" "now 0 \<le> now 1"
    and run: "api_submit_hf_dataset P now auth i repo policy n b = (out, b')"
  shows "backend_ok b' \<and> sys_steps api_events (view run b t) (view run b' (now 1))"
  using run unfolding api_submit_hf_dataset_def
proof (rule as_user_cases)
  assume "b' = b"
  with ok time show ?thesis by (simp add: idle_view)
next
  fix u
  assume route: "(if \<not> steps_field_ok n then (unprocessable, b)
       else
         (case submit_hf_dataset R U (dp_hf_hub_client P) now i (b_users b) u repo policy n (b_jobs b) of
            (r, jobs) \<Rightarrow>
              (respond 200 (and_then r (\<lambda>job. job_out_for R jobs u (j_id job))),
               b\<lparr>b_jobs := jobs\<rparr>))) = (out, b')"
  obtain r jobs where r: "JobService_create_job R U now i (b_users b) u policy HF_HUB repo n (b_jobs b) = (r, jobs)"
    by fastforce
  obtain r' jobs' where s: "submit_hf_dataset R U (dp_hf_hub_client P) now i (b_users b) u repo policy n (b_jobs b) = (r', jobs')"
    by fastforce
  have "b' = b \<or> b' = b\<lparr>b_jobs := jobs'\<rparr>" using route s by (auto split: if_splits)
  moreover have "jobs' = b_jobs b \<or> jobs' = jobs"
    using s r by (auto simp: submit_hf_dataset_def split: sum.splits)
  ultimately consider "b' = b" | "b' = b\<lparr>b_jobs := jobs\<rparr>" by fastforce
  then show ?thesis
  proof cases
    case 1
    with ok time show ?thesis by (simp add: idle_view)
  next
    case 2
    with create_job_refines [OF ok fresh time _ r, of run] ok show ?thesis by (simp add: backend_ok_def)
  qed
qed

lemma cancel_refines:
  assumes ok: "backend_ok b" and time: "t \<le> now" and run: "api_cancel_job P now auth k b = (out, b')"
  shows "backend_ok b' \<and> sys_steps api_events (view run b t) (view run b' now)"
  using run unfolding api_cancel_job_def
proof (rule as_user_cases)
  assume "b' = b"
  with ok time show ?thesis by (simp add: idle_view)
next
  fix u
  assume route: "(case JobService_request_cancel R now u k (b_jobs b) of
         (r, jobs) \<Rightarrow>
           (respond 200 (and_then r (\<lambda>job. job_out_for R jobs u (j_id job))), b\<lparr>b_jobs := jobs\<rparr>)) = (out, b')"
  have wf: "wf_jobs (b_jobs b)" using ok by (simp add: backend_ok_def)
  obtain r jobs where r: "JobService_request_cancel R now u k (b_jobs b) = (r, jobs)" by fastforce
  then have b': "b' = b\<lparr>b_jobs := jobs\<rparr>" using route by simp
  have wf': "wf_jobs jobs" using request_cancel_wf [OF wf, of now u k] r by simp
  show ?thesis
  proof (cases "jobs = b_jobs b")
    case True
    with b' ok time show ?thesis by (simp add: idle_view)
  next
    case False
    obtain j where j1: "jobs_of (b_jobs b) k = Some j"
      using r False by (cases "jobs_of (b_jobs b) k") (auto simp: JobService_request_cancel_def get_job_spec [OF wf])
    then obtain j' where "request_cancel j now = Inr j'" "jobs = jr_update R j' (b_jobs b)"
      using r False by (cases "request_cancel j now")
        (auto simp: JobService_request_cancel_def get_job_spec [OF wf] split: if_splits)
    note j = j1 this
    have id: "j_id j = k" using keyedD [OF jobs_keyed [OF wf] j(1)] .
    then have stored: "jobs_of (b_jobs b) (j_id j) = Some j" using j(1) by simp
    have "jobs_of jobs = (jobs_of (b_jobs b))(j_id j' \<mapsto> j')" using update_job_law [OF wf] j(3) by simp
    note v = put_job_view [OF this, of run now t]
    have "sys_step RequestCancel (view run b t) (put_job j' now (view run b t))"
      using j stored time by (intro sys_step.request_cancel) simp_all
    with v have "sys_steps api_events (view run b t) (view run b' now)"
      unfolding b' by (intro sys_steps_one [of RequestCancel]) simp_all
    with wf' b' ok show ?thesis by (simp add: backend_ok_def)
  qed
qed

subsection \<open>The timeout sweep\<close>

lemma fail_timed_out_refines:
  assumes "backend_ok b" and "distinct (map j_id js)" and "\<forall>j \<in> set js. jobs_of (b_jobs b) (j_id j) = Some j"
    and "fail_timed_out R now js (b_jobs b) = (r, jobs)"
  shows "wf_jobs jobs \<and> sys_steps sweep_events (view run b now) (view run (b\<lparr>b_jobs := jobs\<rparr>) now)"
  using assms
proof (induction js arbitrary: b r jobs)
  case Nil
  then have "jobs = b_jobs b" by simp
  with Nil show ?case by (simp add: steps_refl backend_ok_def)
next
  case (Cons j js)
  have wf: "wf_jobs (b_jobs b)" using Cons.prems(1) by (simp add: backend_ok_def)
  show ?case
  proof (cases "timed_out_job now j")
    case False
    with Cons show ?thesis by (simp add: timed_out_job_def)
  next
    case True
    let ?j = "timeout_version now j"
    let ?b1 = "b\<lparr>b_jobs := jr_update R ?j (b_jobs b)\<rparr>"
    have moved: "transition j FAILED now = Inr (j\<lparr>j_status := FAILED, j_updated_at := now\<rparr>)"
      using True by (simp add: timed_out_can_fail)
    obtain q jobs1 where q: "fail_timed_out R now js (jr_update R ?j (b_jobs b)) = (q, jobs1)" by fastforce
    have jobs: "jobs = jobs1"
      using Cons.prems(4) True moved q by (auto simp: timed_out_job_def timeout_version_def Let_def)
    have map1: "jobs_of (b_jobs ?b1) = (jobs_of (b_jobs b))(j_id j \<mapsto> ?j)"
      using update_job_law [OF wf, of ?j] by simp
    have ok1: "backend_ok ?b1" using Cons.prems(1) by (simp add: backend_ok_def update_job_wf)
    have rest: "\<forall>i \<in> set js. jobs_of (b_jobs ?b1) (j_id i) = Some i"
    proof
      fix i
      assume i: "i \<in> set js"
      then have "j_id i \<in> j_id ` set js" by (rule imageI)
      with Cons.prems(2) have "j_id i \<noteq> j_id j" by auto
      then show "jobs_of (b_jobs ?b1) (j_id i) = Some i" unfolding map1 using Cons.prems(3) i by simp
    qed
    from Cons.IH [OF ok1 _ rest, of q jobs1] Cons.prems(2) q have
      ih: "wf_jobs jobs1" "sys_steps sweep_events (view run ?b1 now) (view run (?b1\<lparr>b_jobs := jobs1\<rparr>) now)" by simp_all
    have "jobs_of (jr_update R ?j (b_jobs b)) = (jobs_of (b_jobs b))(j_id ?j \<mapsto> ?j)"
      using update_job_law [OF wf] by simp
    note v = put_job_view [OF this, of run now now]
    have "sys_step Timeout (view run b now) (put_job ?j now (view run b now))"
      using Cons.prems(3) True by (intro sys_step.timeout) simp_all
    with v have "sys_steps sweep_events (view run b now) (view run ?b1 now)" by (intro sys_steps_one [of Timeout]) simp_all
    from sys_steps_trans [OF ih(2) this] ih(1) jobs show ?thesis by simp
  qed
qed

lemma check_timeouts_refines:
  assumes ok: "backend_ok b" and time: "t \<le> now" and run: "api_check_timeouts P now secret b = (out, b')"
  shows "backend_ok b' \<and> sys_steps sweep_events (view run b t) (view run b' now)"
proof (cases "verify_scheduler_secret (dp_settings P) secret")
  case (Inl e)
  with run ok time show ?thesis by (simp add: api_check_timeouts_def idle_view_in)
next
  case (Inr x)
  have wf: "wf_jobs (b_jobs b)" using ok by (simp add: backend_ok_def)
  obtain r jobs where r: "check_and_fail_timed_out_jobs R now (b_jobs b) = (r, jobs)" by fastforce
  then have b': "b' = b\<lparr>b_jobs := jobs\<rparr>" using run Inr by (simp add: api_check_timeouts_def)
  obtain js where js: "jr_list_by_statuses R (b_jobs b) MONITORED_STATUSES = Inr js"
    using wf by (rule listed_by_statuses)
  have "fail_timed_out R now js (b_jobs b) = (r, jobs)" using r js by (simp add: check_and_fail_timed_out_jobs_def)
  from fail_timed_out_refines [OF ok _ _ this, of run] list_by_statuses_distinct [OF wf js] list_by_statuses_mem(1) [OF wf js]
  have "wf_jobs jobs" "sys_steps sweep_events (view run b now) (view run (b\<lparr>b_jobs := jobs\<rparr>) now)" by simp_all
  with b' ok sys_steps_trans [OF _ idle_view_in [OF time]] show ?thesis by (simp add: backend_ok_def)
qed

subsection \<open>Every request\<close>

theorem serve_refines:
  assumes ok: "backend_ok b" and time: "t \<le> now 0" "now 0 \<le> now 1"
    and fresh: "\<And>i. drawn_id q = Some i \<Longrightarrow> jobs_of (b_jobs b) i = None \<and> users_of (b_users b) i = None"
  shows "backend_ok (serve P now q b) \<and> sys_steps (request_events q) (view run b t) (view run (serve P now q b) (now 1))"
proof -
  have pass: "Pass \<in> request_events q" by (cases q) simp_all
  have wait: "sys_steps (request_events q) (view run b' (now 0)) (view run b' (now 1))" for b'
    using time(2) pass by (rule idle_view_in)
  have unchanged: ?thesis if "serve P now q b = b" using that ok time pass by (simp add: idle_view_in)
  have early: ?thesis
    if "backend_ok b' \<and> sys_steps (request_events q) (view run b t) (view run b' (now 0))" "b' = serve P now q b" for b'
    using that sys_steps_trans [OF wait] by simp
  have asked: "snd (as_user P now' auth (\<lambda>u b. (f u b, b)) b) = b" for now' auth and f :: "string \<Rightarrow> ('j, 'u, 'o) backend \<Rightarrow> 'x reply"
    by (simp add: as_user_def split: sum.splits)
  show ?thesis
  proof (cases q)
    case (RegisterRequest salt i e p tok)
    obtain out b' where r: "api_register P (now 0) salt i e p tok b = (out, b')" by fastforce
    from register_refines [OF ok _ time(1) r, of run] fresh RegisterRequest show ?thesis
      by (intro early [of b']) (simp_all add: r)
  next
    case (ChangePasswordRequest auth salt old new)
    obtain out b' where r: "api_change_password P (now 0) auth salt old new b = (out, b')" by fastforce
    from change_password_refines [OF ok time(1) r, of run] ChangePasswordRequest show ?thesis
      by (intro early [of b']) (simp_all add: r)
  next
    case (HFCallbackRequest i code uri)
    obtain out b' where r: "api_hf_callback P (now 0) i code uri b = (out, b')" by fastforce
    from hf_callback_refines [OF ok _ time(1) r, of run] fresh HFCallbackRequest show ?thesis
      by (intro early [of b']) (simp_all add: r)
  next
    case (ConfirmZipUploadRequest auth i upload_id policy n)
    obtain out b' where r: "api_confirm_zip_upload P now auth i upload_id policy n b = (out, b')" by fastforce
    from confirm_refines [OF ok _ time r, of run] fresh ConfirmZipUploadRequest show ?thesis by (simp add: r)
  next
    case (SubmitHFDatasetRequest auth i repo policy n)
    obtain out b' where r: "api_submit_hf_dataset P now auth i repo policy n b = (out, b')" by fastforce
    from submit_hf_refines [OF ok _ time r, of run] fresh SubmitHFDatasetRequest show ?thesis by (simp add: r)
  next
    case (CancelJobRequest auth k)
    obtain out b' where r: "api_cancel_job P (now 0) auth k b = (out, b')" by fastforce
    from cancel_refines [OF ok time(1) r, of run] CancelJobRequest show ?thesis
      by (intro early [of b']) (simp_all add: r)
  next
    case (CheckTimeoutsRequest secret)
    obtain out b' where r: "api_check_timeouts P (now 0) secret b = (out, b')" by fastforce
    from check_timeouts_refines [OF ok time(1) r, of run] CheckTimeoutsRequest show ?thesis
      by (intro early [of b']) (simp_all add: r)
  next
    case (LoginRequest e p)
    then show ?thesis by (intro unchanged) (simp add: api_login_def)
  next
    case (ZipTargetRequest auth i)
    then show ?thesis by (intro unchanged) (simp add: api_create_zip_upload_target_def asked)
  next
    case (ListMyJobsRequest auth)
    then show ?thesis by (intro unchanged) (simp add: api_list_my_jobs_def asked)
  next
    case (DownloadUrlRequest auth k)
    then show ?thesis by (intro unchanged) (simp add: api_get_download_url_def asked)
  qed
qed

end

end
