(* ===== verification/Cancel_Watcher.thy ===== *)
theory Cancel_Watcher
  imports Worker_World
begin

text \<open>
  \<open>worker/cancel_watcher.py\<close>: the cancellation requests of a poll cycle. The loop over the candidates
  listed at the start stops at the first exception; what it did before stays done.
\<close>

definition CANCELLABLE_STATUSES :: "JobStatus list" where
  "CANCELLABLE_STATUSES = [QUEUED, INITIALIZING, TRAINING]"

definition stop_container ::
    "'d docker_client \<Rightarrow> string \<Rightarrow> Job \<Rightarrow> ('j, 'u, 'o, 'd) world \<Rightarrow> (('j, 'u, 'o, 'd) world, unit) outcome" where
  "stop_container D workdir job w =
     (if j_status job \<in> {INITIALIZING, TRAINING} \<and> truthy (j_container_id job)
      then
        (case dc_kill D (the (j_container_id job)) (w_docker w) of
           (Inl e, d) \<Rightarrow> (Inl e, w\<lparr>w_docker := d\<rparr>)
         | (Inr _, d) \<Rightarrow>
             (Inr (), w\<lparr>w_docker := d, w_fs := fs_rmtree (job_path workdir job) (w_fs w)\<rparr>))
      else (Inr (), w))"

fun cancel_requested_jobs ::
    "'j job_repository \<Rightarrow> 'd docker_client \<Rightarrow> string \<Rightarrow> datetime \<Rightarrow> Job list \<Rightarrow>
     ('j, 'u, 'o, 'd) world \<Rightarrow> (('j, 'u, 'o, 'd) world, Job list) outcome" where
  "cancel_requested_jobs R D workdir now [] w = (Inr [], w)"
| "cancel_requested_jobs R D workdir now (job # candidates) w =
     (if \<not> j_cancel_requested job then cancel_requested_jobs R D workdir now candidates w
      else
        then_do (stop_container D workdir job w) (\<lambda>_ w1.
          case transition job CANCELLED now of
            Inl e \<Rightarrow> (Inl e, w1)
          | Inr updated \<Rightarrow>
              then_do (cancel_requested_jobs R D workdir now candidates (write_job R updated w1))
                (\<lambda>cancelled_jobs w2. (Inr (updated # cancelled_jobs), w2))))"

definition process_cancellations ::
    "'j job_repository \<Rightarrow> 'd docker_client \<Rightarrow> string \<Rightarrow> datetime \<Rightarrow>
     ('j, 'u, 'o, 'd) world \<Rightarrow> (('j, 'u, 'o, 'd) world, Job list) outcome" where
  "process_cancellations R D workdir now w =
     (case jr_list_by_statuses R (w_jobs w) CANCELLABLE_STATUSES of
        Inl e \<Rightarrow> (Inl e, w)
      | Inr candidates \<Rightarrow> cancel_requested_jobs R D workdir now candidates w)"

end
