(* ===== verification/Disk_Manager.thy ===== *)
theory Disk_Manager
  imports File_System "HOL-Library.Multiset"
begin

text \<open>
  \<open>worker/disk_manager.py\<close>: the shared cache of Hugging Face datasets. The names of the cache
  entries, the size of a directory, eviction of the least recently used entries and the sweep of
  interrupted downloads. A loop over directories is a recursion over the list it iterates.
\<close>

definition TMP_SUFFIX :: string where
  "TMP_SUFFIX = ''.tmp''"

record CacheEntry =
  ce_path :: path
  ce_size_bytes :: int
  ce_mtime :: int

definition stat_size :: "fsys \<Rightarrow> path \<Rightarrow> int" where
  "stat_size fs p =
     (case fs_lookup fs p of
        Some i \<Rightarrow> (case i_node i of FileNode n _ \<Rightarrow> n | DirNode \<Rightarrow> 0)
      | None \<Rightarrow> 0)"

definition directory_size_bytes :: "fsys \<Rightarrow> path \<Rightarrow> int" where
  "directory_size_bytes fs p = sum_list (map (stat_size fs) (filter (fs_is_file fs) (fs_below fs p)))"

text \<open>\<open>child.name\<close> is the last component.\<close>

definition is_cache_entry :: "fsys \<Rightarrow> path \<Rightarrow> bool" where
  "is_cache_entry fs child \<longleftrightarrow> fs_is_dir fs child \<and> \<not> ends_with TMP_SUFFIX (last child)"

definition cache_entry :: "fsys \<Rightarrow> path \<Rightarrow> CacheEntry" where
  "cache_entry fs child =
     \<lparr>ce_path = child, ce_size_bytes = directory_size_bytes fs child, ce_mtime = fs_mtime fs child\<rparr>"

definition list_cache_entries :: "fsys \<Rightarrow> path \<Rightarrow> CacheEntry list" where
  "list_cache_entries fs cache_dir =
     (if \<not> fs_exists fs cache_dir then []
      else map (cache_entry fs) (filter (is_cache_entry fs) (fs_iterdir fs cache_dir)))"

fun evict_entries :: "int \<Rightarrow> int \<Rightarrow> CacheEntry list \<Rightarrow> fsys \<Rightarrow> path list \<times> fsys" where
  "evict_entries max_bytes total_bytes [] fs = ([], fs)"
| "evict_entries max_bytes total_bytes (entry # entries) fs =
     (if total_bytes \<le> max_bytes then ([], fs)
      else
        (let (removed, fs') =
               evict_entries max_bytes (total_bytes - ce_size_bytes entry) entries (fs_rmtree (ce_path entry) fs)
         in (ce_path entry # removed, fs')))"

definition evict_lru_until_under_cap :: "path \<Rightarrow> int \<Rightarrow> fsys \<Rightarrow> path list \<times> fsys" where
  "evict_lru_until_under_cap cache_dir max_bytes fs =
     (let entries = sort_key ce_mtime (list_cache_entries fs cache_dir)
      in evict_entries max_bytes (sum_list (map ce_size_bytes entries)) entries fs)"

fun sweep_tmp_dirs :: "int \<Rightarrow> int \<Rightarrow> path list \<Rightarrow> fsys \<Rightarrow> path list \<times> fsys" where
  "sweep_tmp_dirs older_than now [] fs = ([], fs)"
| "sweep_tmp_dirs older_than now (child # children) fs =
     (if \<not> fs_is_dir fs child \<or> \<not> ends_with TMP_SUFFIX (last child)
      then sweep_tmp_dirs older_than now children fs
      else if now - fs_mtime fs child > older_than
      then
        (let (removed, fs') = sweep_tmp_dirs older_than now children (fs_rmtree child fs)
         in (child # removed, fs'))
      else sweep_tmp_dirs older_than now children fs)"

definition cleanup_stale_tmp_dirs :: "path \<Rightarrow> int \<Rightarrow> int \<Rightarrow> fsys \<Rightarrow> path list \<times> fsys" where
  "cleanup_stale_tmp_dirs cache_dir older_than now fs =
     (if \<not> fs_exists fs cache_dir then ([], fs)
      else sweep_tmp_dirs older_than now (fs_iterdir fs cache_dir) fs)"

text \<open>\<open>repo_id.replace("/", "__")\<close>\<close>

definition safe_name :: "string \<Rightarrow> string" where
  "safe_name repo_id = concat (map (\<lambda>c. if c = CHR ''/'' then ''__'' else [c]) repo_id)"

definition tmp_path_for :: "path \<Rightarrow> string \<Rightarrow> path" where
  "tmp_path_for cache_dir repo_id = cache_dir @ path_of_string (safe_name repo_id @ TMP_SUFFIX)"

definition final_path_for :: "path \<Rightarrow> string \<Rightarrow> path" where
  "final_path_for cache_dir repo_id = cache_dir @ path_of_string (safe_name repo_id)"

definition finalize_download :: "path \<Rightarrow> path \<Rightarrow> fsys \<Rightarrow> (fsys, unit) outcome" where
  "finalize_download tmp_dir final_dir fs = fs_replace tmp_dir final_dir fs"

subsection \<open>Removing one child of a directory\<close>

lemma keys_stamp [simp]: "map fst (fs_nodes (fs_stamp p fs)) = map fst (fs_nodes fs)"
proof (cases "fs_lookup fs p")
  case (Some i)
  then have "p \<in> fst ` set (fs_nodes fs)"
    unfolding fs_lookup_def by (metis domI dom_map_of_conv_image_fst)
  with Some show ?thesis by (simp add: fs_stamp_def fs_put_def update_keys)
qed (simp add: fs_stamp_def)

lemma keys_rmtree:
  "fs_exists fs d \<Longrightarrow>
     map fst (fs_nodes (fs_rmtree d fs)) = filter (\<lambda>p. \<not> within_dir d p) (map fst (fs_nodes fs))"
  by (simp add: fs_rmtree_def filter_map comp_def case_prod_unfold)

lemma within_same_length: "within_dir d p \<Longrightarrow> length p = length d \<Longrightarrow> p = d"
  by (simp add: within_dir_def)

definition child_dir :: "fsys \<Rightarrow> path \<Rightarrow> path \<Rightarrow> bool" where
  "child_dir fs c d \<longleftrightarrow> within_dir c d \<and> length d = Suc (length c) \<and> fs_exists fs d"

lemma child_dirD:
  assumes "child_dir fs c d"
  shows "within_dir c d" and "length d = Suc (length c)" and "fs_exists fs d"
  using assms by (auto simp: child_dir_def)

lemma parent_of_child: "child_dir fs c d \<Longrightarrow> butlast d = c"
proof -
  assume child: "child_dir fs c d"
  obtain q where "d = c @ q" using child_dirD(1) [OF child] by (auto simp: within_dir_iff)
  moreover from this child_dirD(2) [OF child] obtain x where "q = [x]"
    by (auto simp: length_Suc_conv)
  ultimately show ?thesis by simp
qed

lemma lookup_outside:
  "child_dir fs c d \<Longrightarrow> \<not> within_dir d p \<Longrightarrow> p \<noteq> c \<Longrightarrow> fs_lookup (fs_rmtree d fs) p = fs_lookup fs p"
  by (simp add: lookup_rmtree parent_of_child child_dirD(3))

lemma sibling_below:
  assumes child: "child_dir fs c d" and "length q = length d" and "q \<noteq> d" and "strictly_within q p"
  shows "\<not> within_dir d p" and "p \<noteq> c"
proof -
  show "\<not> within_dir d p"
    using assms by (metis strictly_within_def within_dir_def)
  show "p \<noteq> c"
    using assms child_dirD(2) [OF child] by (auto simp: strictly_within_def)
qed

lemma sibling_entry:
  assumes child: "child_dir fs c d" and q: "length q = length d" "q \<noteq> d"
  shows "cache_entry (fs_rmtree d fs) q = cache_entry fs q"
    and "is_cache_entry (fs_rmtree d fs) q = is_cache_entry fs q"
proof -
  have notin: "\<not> within_dir d q" using q within_same_length by blast
  moreover have "q \<noteq> c" using q child_dirD(2) [OF child] by auto
  ultimately have look: "fs_lookup (fs_rmtree d fs) q = fs_lookup fs q" by (rule lookup_outside [OF child])
  have eq: "fs_lookup (fs_rmtree d fs) p = fs_lookup fs p" if "strictly_within q p" for p
    using lookup_outside [OF child] sibling_below [OF child q that] by blast
  have below: "fs_below (fs_rmtree d fs) q = fs_below fs q"
    unfolding fs_below_def keys_rmtree [OF child_dirD(3) [OF child]] filter_filter
    using sibling_below(1) [OF child q] by (intro filter_cong) auto
  have "stat_size (fs_rmtree d fs) p = stat_size fs p" "fs_is_file (fs_rmtree d fs) p = fs_is_file fs p"
    if "p \<in> set (fs_below fs q)" for p
    using eq [of p] that by (auto simp: fs_below_def stat_size_def fs_is_file_def)
  then have "directory_size_bytes (fs_rmtree d fs) q = directory_size_bytes fs q"
    unfolding directory_size_bytes_def below
    by (metis (mono_tags, lifting) filter_cong filter_is_subset map_cong subset_iff)
  then show "cache_entry (fs_rmtree d fs) q = cache_entry fs q"
    by (simp add: cache_entry_def fs_mtime_def look)
  show "is_cache_entry (fs_rmtree d fs) q = is_cache_entry fs q"
    by (simp add: is_cache_entry_def fs_is_dir_def look)
qed

lemma iterdir_rmtree:
  assumes child: "child_dir fs c d"
  shows "fs_iterdir (fs_rmtree d fs) c = filter (\<lambda>p. p \<noteq> d) (fs_iterdir fs c)"
proof -
  have "within_dir d p \<longleftrightarrow> p = d" if "length p = Suc (length c)" for p
    using that child_dirD(2) [OF child] within_same_length [of d p] by auto
  then show ?thesis
    unfolding fs_iterdir_def keys_rmtree [OF child_dirD(3) [OF child]] filter_filter by (intro filter_cong) auto
qed

lemma entries_rmtree:
  assumes child: "child_dir fs c d"
  shows "list_cache_entries (fs_rmtree d fs) c = filter (\<lambda>e. ce_path e \<noteq> d) (list_cache_entries fs c)"
proof -
  have notin: "\<not> within_dir d c" using child_dirD(2) [OF child] by (auto simp: within_dir_iff)
  show ?thesis
  proof (cases "fs_exists fs c")
    case True
  with notin have ex': "fs_exists (fs_rmtree d fs) c" by (simp add: rmtree_other)
  have len: "length p = length d" if "p \<in> set (fs_iterdir fs c)" for p
    using that child_dirD(2) [OF child] by (simp add: fs_iterdir_def)
  have "filter (is_cache_entry (fs_rmtree d fs)) (filter (\<lambda>p. p \<noteq> d) (fs_iterdir fs c)) =
      filter (\<lambda>p. p \<noteq> d) (filter (is_cache_entry fs) (fs_iterdir fs c))"
    unfolding filter_filter using sibling_entry(2) [OF child] len by (intro filter_cong) auto
  moreover have "map (cache_entry (fs_rmtree d fs)) (filter (\<lambda>p. p \<noteq> d) (filter (is_cache_entry fs) (fs_iterdir fs c))) =
      map (cache_entry fs) (filter (\<lambda>p. p \<noteq> d) (filter (is_cache_entry fs) (fs_iterdir fs c)))"
    using sibling_entry(1) [OF child] len by (intro map_cong) auto
  ultimately show ?thesis
    using True ex' unfolding list_cache_entries_def iterdir_rmtree [OF child]
    by (simp add: filter_map comp_def cache_entry_def)
next
  case False
  then show ?thesis
    using notin by (simp add: list_cache_entries_def rmtree_other)
  qed
qed

subsection \<open>The eviction loop\<close>

lemma child_dir_rmtree:
  assumes "child_dir fs c d" and "child_dir fs c e" and "d \<noteq> e"
  shows "child_dir (fs_rmtree d fs) c e"
proof -
  have "\<not> within_dir d e" using assms within_same_length [of d e] by (auto simp: child_dir_def)
  with assms(2) show ?thesis by (simp add: child_dir_def rmtree_other)
qed

lemma evict_entries_spec:
  assumes "evict_entries cap t es fs = (removed, fs')"
    and "distinct (map ce_path es)" and "\<forall>e \<in> set es. child_dir fs c (ce_path e)"
  shows "\<exists>n \<le> length es. removed = map ce_path (take n es) \<and>
      (\<forall>m < n. t - sum_list (map ce_size_bytes (take m es)) > cap) \<and>
      (n = length es \<or> t - sum_list (map ce_size_bytes (take n es)) \<le> cap)"
    and "list_cache_entries fs' c = filter (\<lambda>e. ce_path e \<notin> set removed) (list_cache_entries fs c)"
    and "p \<noteq> c \<Longrightarrow> fs_lookup fs' p = (if \<exists>d \<in> set removed. within_dir d p then None else fs_lookup fs p)"
proof -
  have "(\<exists>n \<le> length es. removed = map ce_path (take n es) \<and>
      (\<forall>m < n. t - sum_list (map ce_size_bytes (take m es)) > cap) \<and>
      (n = length es \<or> t - sum_list (map ce_size_bytes (take n es)) \<le> cap)) \<and>
    list_cache_entries fs' c = filter (\<lambda>e. ce_path e \<notin> set removed) (list_cache_entries fs c) \<and>
    (\<forall>p. p \<noteq> c \<longrightarrow> fs_lookup fs' p =
       (if \<exists>d \<in> set removed. within_dir d p then None else fs_lookup fs p))"
    using assms
  proof (induction es arbitrary: t fs removed)
    case (Cons e es)
    show ?case
    proof (cases "t \<le> cap")
      case True
      with Cons.prems show ?thesis by auto
    next
      case False
      let ?d = "ce_path e" and ?fs = "fs_rmtree (ce_path e) fs"
      obtain r where r: "evict_entries cap (t - ce_size_bytes e) es ?fs = (r, fs')"
        and removed: "removed = ?d # r"
        using Cons.prems(1) False by (auto split: prod.splits)
      have child: "child_dir fs c ?d" using Cons.prems(3) by simp
      have "\<forall>i \<in> set es. child_dir ?fs c (ce_path i)"
        using Cons.prems(2,3) by (auto intro!: child_dir_rmtree [OF child])
      from Cons.IH [OF r _ this] Cons.prems(2)
      obtain n where n: "n \<le> length es" "r = map ce_path (take n es)"
          "\<forall>m < n. t - ce_size_bytes e - sum_list (map ce_size_bytes (take m es)) > cap"
          "n = length es \<or> t - ce_size_bytes e - sum_list (map ce_size_bytes (take n es)) \<le> cap"
        and ent: "list_cache_entries fs' c = filter (\<lambda>e. ce_path e \<notin> set r) (list_cache_entries ?fs c)"
        and look: "\<And>p. p \<noteq> c \<Longrightarrow> fs_lookup fs' p =
          (if \<exists>d \<in> set r. within_dir d p then None else fs_lookup ?fs p)"
        by auto
      have "t - sum_list (map ce_size_bytes (take m (e # es))) > cap" if "m < Suc n" for m
        using that n(3) False by (cases m) (auto simp: algebra_simps)
      then have "\<exists>n \<le> length (e # es). removed = map ce_path (take n (e # es)) \<and>
          (\<forall>m < n. t - sum_list (map ce_size_bytes (take m (e # es))) > cap) \<and>
          (n = length (e # es) \<or> t - sum_list (map ce_size_bytes (take n (e # es))) \<le> cap)"
        using n removed by (intro exI [of _ "Suc n"]) (auto simp: algebra_simps)
      moreover have "list_cache_entries fs' c =
          filter (\<lambda>e. ce_path e \<notin> set removed) (list_cache_entries fs c)"
        unfolding ent entries_rmtree [OF child] removed by simp
      moreover have "fs_lookup fs' p =
          (if \<exists>d \<in> set removed. within_dir d p then None else fs_lookup fs p)" if "p \<noteq> c" for p
        using look [OF that] lookup_outside [OF child _ that]
          lookup_rmtree [OF child_dirD(3) [OF child], of p]
        unfolding removed by auto
      ultimately show ?thesis by blast
    qed
  qed auto
  then show "\<exists>n \<le> length es. removed = map ce_path (take n es) \<and>
      (\<forall>m < n. t - sum_list (map ce_size_bytes (take m es)) > cap) \<and>
      (n = length es \<or> t - sum_list (map ce_size_bytes (take n es)) \<le> cap)"
    and "list_cache_entries fs' c = filter (\<lambda>e. ce_path e \<notin> set removed) (list_cache_entries fs c)"
    and "p \<noteq> c \<Longrightarrow> fs_lookup fs' p = (if \<exists>d \<in> set removed. within_dir d p then None else fs_lookup fs p)"
    by blast+
qed

lemma fs_exists_iff_key: "fs_exists fs p \<longleftrightarrow> p \<in> set (map fst (fs_nodes fs))"
  by (simp add: fs_exists_def fs_lookup_def map_of_eq_None_iff)

lemma entry_children:
  assumes "e \<in> set (list_cache_entries fs c)"
  shows "child_dir fs c (ce_path e)" and "e = cache_entry fs (ce_path e)"
    and "is_cache_entry fs (ce_path e)"
  using assms
  by (force simp: list_cache_entries_def child_dir_def cache_entry_def fs_iterdir_def fs_exists_iff_key
      split: if_splits)+

lemma entries_distinct: "dict_ok (fs_nodes fs) \<Longrightarrow> distinct (map ce_path (list_cache_entries fs c))"
  by (simp add: list_cache_entries_def comp_def cache_entry_def fs_iterdir_def dict_ok_def)

lemma filter_not_taken:
  "distinct (map f xs) \<Longrightarrow> filter (\<lambda>x. f x \<notin> f ` set (take n xs)) xs = drop n xs"
proof (induction xs arbitrary: n)
  case (Cons x xs)
  show ?case
  proof (cases n)
    case (Suc m)
    have "filter (\<lambda>y. f y \<notin> f ` set (take n (x # xs))) xs = filter (\<lambda>y. f y \<notin> f ` set (take m xs)) xs"
    proof (intro filter_cong refl)
      fix y assume "y \<in> set xs"
      then have "f y \<noteq> f x" using Cons.prems by (metis distinct.simps(2) image_eqI list.set_map list.simps(9))
      then show "(f y \<notin> f ` set (take n (x # xs))) = (f y \<notin> f ` set (take m xs))" using Suc by simp
    qed
    with Cons Suc show ?thesis by simp
  qed simp
qed simp

lemma sum_sort_key: "sum_list (map f (sort_key g xs)) = sum_list (map (f :: _ \<Rightarrow> int) xs)"
  by (metis mset_map mset_sort sum_mset_sum_list)

definition cache_total :: "fsys \<Rightarrow> path \<Rightarrow> int" where
  "cache_total fs c = sum_list (map ce_size_bytes (list_cache_entries fs c))"

lemma eviction_spec:
  assumes dist: "dict_ok (fs_nodes fs)" and cap: "0 \<le> cap"
    and run: "evict_lru_until_under_cap c cap fs = (removed, fs')"
  shows "\<exists>n. removed = map ce_path (take n (sort_key ce_mtime (list_cache_entries fs c))) \<and>
      (\<forall>m < n. cache_total fs c -
         sum_list (map ce_size_bytes (take m (sort_key ce_mtime (list_cache_entries fs c)))) > cap)"
    and "cache_total fs' c \<le> cap"
    and "list_cache_entries fs' c = filter (\<lambda>e. ce_path e \<notin> set removed) (list_cache_entries fs c)"
    and "p \<noteq> c \<Longrightarrow> fs_lookup fs' p = (if \<exists>d \<in> set removed. within_dir d p then None else fs_lookup fs p)"
proof -
  let ?es = "sort_key ce_mtime (list_cache_entries fs c)"
  have t: "sum_list (map ce_size_bytes ?es) = cache_total fs c"
    by (simp add: cache_total_def sum_sort_key)
  have d: "distinct (map ce_path ?es)" using entries_distinct [OF dist] by simp
  have ch: "\<forall>e \<in> set ?es. child_dir fs c (ce_path e)" using entry_children(1) by simp
  have ev: "evict_entries cap (cache_total fs c) ?es fs = (removed, fs')"
    using run by (simp add: evict_lru_until_under_cap_def t)
  note spec = evict_entries_spec [OF ev d ch]
  from spec(1) obtain n where n: "n \<le> length ?es" "removed = map ce_path (take n ?es)"
    "\<forall>m < n. cache_total fs c - sum_list (map ce_size_bytes (take m ?es)) > cap"
    "n = length ?es \<or> cache_total fs c - sum_list (map ce_size_bytes (take n ?es)) \<le> cap" by blast
  have "sort_key ce_mtime (list_cache_entries fs' c) = drop n ?es"
    using filter_not_taken [OF d, of n] unfolding spec(2) n(2) by (simp add: filter_sort)
  then have "cache_total fs' c = sum_list (map ce_size_bytes (drop n ?es))"
    by (metis cache_total_def sum_sort_key)
  moreover have "cache_total fs c =
      sum_list (map ce_size_bytes (take n ?es)) + sum_list (map ce_size_bytes (drop n ?es))"
    unfolding t [symmetric] by (metis append_take_drop_id map_append sum_list_append)
  ultimately show "cache_total fs' c \<le> cap" using n(4) cap by auto
  show "\<exists>n. removed = map ce_path (take n ?es) \<and>
      (\<forall>m < n. cache_total fs c - sum_list (map ce_size_bytes (take m ?es)) > cap)"
    using n by blast
  show "list_cache_entries fs' c = filter (\<lambda>e. ce_path e \<notin> set removed) (list_cache_entries fs c)"
    and "p \<noteq> c \<Longrightarrow> fs_lookup fs' p = (if \<exists>d \<in> set removed. within_dir d p then None else fs_lookup fs p)"
    using spec(2,3) by blast+
qed

subsection \<open>The sweep of interrupted downloads\<close>

definition stale_tmp_dir :: "int \<Rightarrow> int \<Rightarrow> fsys \<Rightarrow> path \<Rightarrow> bool" where
  "stale_tmp_dir older_than now fs p \<longleftrightarrow>
     fs_is_dir fs p \<and> ends_with TMP_SUFFIX (last p) \<and> now - fs_mtime fs p > older_than"

lemma stale_sibling:
  assumes child: "child_dir fs c d" and p: "length p = length d" "p \<noteq> d"
  shows "stale_tmp_dir o' now (fs_rmtree d fs) p = stale_tmp_dir o' now fs p"
proof -
  have "\<not> within_dir d p" using p within_same_length by blast
  moreover have "p \<noteq> c" using p child_dirD(2) [OF child] by auto
  ultimately have "fs_lookup (fs_rmtree d fs) p = fs_lookup fs p" by (rule lookup_outside [OF child])
  then show ?thesis by (simp add: stale_tmp_dir_def fs_is_dir_def fs_mtime_def)
qed

lemma sweep_tmp_dirs_spec:
  assumes "distinct ps" and "\<forall>p \<in> set ps. child_dir fs c p"
  shows "\<exists>fs'. sweep_tmp_dirs o' now ps fs = (filter (stale_tmp_dir o' now fs) ps, fs') \<and>
    (\<forall>p. p \<noteq> c \<longrightarrow> fs_lookup fs' p =
       (if \<exists>d \<in> set ps. stale_tmp_dir o' now fs d \<and> within_dir d p then None else fs_lookup fs p))"
  using assms
proof (induction ps arbitrary: fs)
  case (Cons d ps)
  have child: "child_dir fs c d" using Cons.prems by simp
  show ?case
  proof (cases "stale_tmp_dir o' now fs d")
    case False
    then have "sweep_tmp_dirs o' now (d # ps) fs = sweep_tmp_dirs o' now ps fs"
      by (simp add: stale_tmp_dir_def)
    with False Cons show ?thesis by (simp del: sweep_tmp_dirs.simps)
  next
    case True
    let ?fs = "fs_rmtree d fs"
    have ch: "\<forall>p \<in> set ps. child_dir ?fs c p"
      using Cons.prems by (auto intro!: child_dir_rmtree [OF child])
    have same: "stale_tmp_dir o' now ?fs p = stale_tmp_dir o' now fs p" if "p \<in> set ps" for p
      using that Cons.prems by (intro stale_sibling [OF child]) (auto simp: child_dir_def)
    obtain fs' where fs': "sweep_tmp_dirs o' now ps ?fs = (filter (stale_tmp_dir o' now ?fs) ps, fs')"
      and look: "\<And>p. p \<noteq> c \<Longrightarrow> fs_lookup fs' p =
        (if \<exists>d \<in> set ps. stale_tmp_dir o' now ?fs d \<and> within_dir d p then None else fs_lookup ?fs p)"
      using Cons.IH [OF _ ch] Cons.prems(1) by auto
    have "filter (stale_tmp_dir o' now ?fs) ps = filter (stale_tmp_dir o' now fs) ps"
      using same by (intro filter_cong) auto
    with True fs' have "sweep_tmp_dirs o' now (d # ps) fs = (filter (stale_tmp_dir o' now fs) (d # ps), fs')"
      by (simp add: stale_tmp_dir_def)
    moreover have "fs_lookup fs' p =
        (if \<exists>e \<in> set (d # ps). stale_tmp_dir o' now fs e \<and> within_dir e p then None else fs_lookup fs p)"
      if "p \<noteq> c" for p
      using look [OF that] lookup_outside [OF child _ that] True same
        lookup_rmtree [OF child_dirD(3) [OF child], of p]
      by auto
    ultimately show ?thesis by blast
  qed
qed simp

lemma iterdir_children: "p \<in> set (fs_iterdir fs c) \<Longrightarrow> child_dir fs c p"
  by (force simp: fs_iterdir_def child_dir_def fs_exists_iff_key)

lemma iterdir_distinct: "dict_ok (fs_nodes fs) \<Longrightarrow> distinct (fs_iterdir fs c)"
  by (simp add: fs_iterdir_def dict_ok_def)

lemma cleanup_spec:
  assumes "dict_ok (fs_nodes fs)" and "fs_exists fs c"
  shows "\<exists>fs'. cleanup_stale_tmp_dirs c o' now fs =
      (filter (stale_tmp_dir o' now fs) (fs_iterdir fs c), fs') \<and>
    (\<forall>p. p \<noteq> c \<longrightarrow> fs_lookup fs' p =
       (if \<exists>d \<in> set (fs_iterdir fs c). stale_tmp_dir o' now fs d \<and> within_dir d p
        then None else fs_lookup fs p))"
  using sweep_tmp_dirs_spec [of "fs_iterdir fs c" fs c o' now] iterdir_distinct [OF assms(1)]
    iterdir_children [of _ fs c] assms(2)
  by (simp add: cleanup_stale_tmp_dirs_def)

subsection \<open>Names of cache entries\<close>

lemma safe_name_no_slash: "CHR ''/'' \<notin> set (safe_name s)"
  by (auto simp: safe_name_def)

lemma safe_name_Cons: "safe_name (c # s) = (if c = CHR ''/'' then ''__'' else [c]) @ safe_name s"
  by (simp add: safe_name_def)

lemma safe_name_inject:
  "CHR ''_'' \<notin> set a \<Longrightarrow> CHR ''_'' \<notin> set b \<Longrightarrow> safe_name a = safe_name b \<Longrightarrow> a = b"
proof (induction a arbitrary: b)
  case Nil
  then show ?case by (cases b) (auto simp: safe_name_Cons safe_name_def split: if_splits)
next
  case (Cons c a)
  obtain d b' where b: "b = d # b'"
    using Cons.prems(3) by (cases b) (auto simp: safe_name_Cons safe_name_def split: if_splits)
  with Cons.prems have "c = d" and "safe_name a = safe_name b'"
    by (auto simp: safe_name_Cons split: if_splits)
  with Cons b show ?case by auto
qed

lemma safe_name_parts:
  assumes "s \<noteq> []" and "s \<noteq> ''.''"
  shows "path_of_string (safe_name s) = [safe_name s]"
proof (rule path_of_string_component)
  show "CHR ''/'' \<notin> set (safe_name s)" by (rule safe_name_no_slash)
  show "safe_name s \<noteq> []" using assms by (cases s) (auto simp: safe_name_Cons)
  show "safe_name s \<noteq> ''.''"
  proof
    assume dot: "safe_name s = ''.''"
    obtain c s' where s: "s = c # s'" using assms by (cases s) auto
    with dot have "c = CHR ''.''" and "safe_name s' = []" by (auto simp: safe_name_Cons split: if_splits)
    then have "s' = []" by (cases s') (auto simp: safe_name_Cons split: if_splits)
    with s \<open>c = CHR ''.''\<close> assms show False by simp
  qed
qed

lemma tmp_name_parts: "path_of_string (safe_name s @ TMP_SUFFIX) = [safe_name s @ TMP_SUFFIX]"
  using safe_name_no_slash [of s] by (intro path_of_string_component) (auto simp: TMP_SUFFIX_def)

subsection \<open>Properties\<close>

text \<open>
  C19: Eviction removes the least recently used cache entries, as few of them as bring the cache
  under the cap, and nothing else: the removed directories are a prefix of the entries by mtime,
  every shorter prefix leaves the cache over the cap, the remaining entries total at most the cap,
  and apart from the cache directory's own time stamp no other path of the file system changes.
\<close>

theorem lru_eviction:
  assumes "dict_ok (fs_nodes fs)" and "0 \<le> cap"
    and "evict_lru_until_under_cap c cap fs = (removed, fs')"
  shows "(\<exists>n. removed = map ce_path (take n (sort_key ce_mtime (list_cache_entries fs c))) \<and>
      (\<forall>m < n. cache_total fs c -
         sum_list (map ce_size_bytes (take m (sort_key ce_mtime (list_cache_entries fs c)))) > cap)) \<and>
    cache_total fs' c \<le> cap \<and>
    list_cache_entries fs' c = filter (\<lambda>e. ce_path e \<notin> set removed) (list_cache_entries fs c) \<and>
    (\<forall>p. p \<noteq> c \<longrightarrow>
       fs_lookup fs' p = (if \<exists>d \<in> set removed. within_dir d p then None else fs_lookup fs p))"
  using eviction_spec [OF assms] by blast

definition demo_cache :: fsys where
  "demo_cache =
     \<lparr>fs_nodes =
        [([''c''], \<lparr>i_node = DirNode, i_mtime = 9\<rparr>),
         ([''c'', ''b''], \<lparr>i_node = DirNode, i_mtime = 3\<rparr>),
         ([''c'', ''b'', ''x''], \<lparr>i_node = FileNode 60 (RawBytes []), i_mtime = 1\<rparr>),
         ([''c'', ''a''], \<lparr>i_node = DirNode, i_mtime = 2\<rparr>),
         ([''c'', ''a'', ''x''], \<lparr>i_node = FileNode 50 (RawBytes []), i_mtime = 1\<rparr>),
         ([''c'', ''d.tmp''], \<lparr>i_node = DirNode, i_mtime = 1\<rparr>)],
      fs_clock = 10\<rparr>"

theorem lru_eviction_witness:
  "fst (evict_lru_until_under_cap [''c''] 100 demo_cache) = [[''c'', ''a'']] \<and>
   cache_total (snd (evict_lru_until_under_cap [''c''] 100 demo_cache)) [''c''] \<le> 100"
proof -
  have ok: "dict_ok (fs_nodes demo_cache)" by (simp add: demo_cache_def dict_ok_def)
  have "fst (evict_lru_until_under_cap [''c''] 100 demo_cache) = [[''c'', ''a'']]"
    by code_simp
  moreover have "evict_lru_until_under_cap [''c''] 100 demo_cache =
      (fst (evict_lru_until_under_cap [''c''] 100 demo_cache), snd (evict_lru_until_under_cap [''c''] 100 demo_cache))"
    by simp
  from lru_eviction [OF ok _ this]
  have "cache_total (snd (evict_lru_until_under_cap [''c''] 100 demo_cache)) [''c''] \<le> 100" by simp
  ultimately show ?thesis ..
qed

text \<open>
  The startup sweep removes exactly the \<open>.tmp\<close> directories directly under the cache directory
  whose age exceeds the threshold, with everything below them, and changes no other path.
\<close>

theorem stale_sweep:
  assumes "dict_ok (fs_nodes fs)" and "fs_exists fs c"
  shows "\<exists>fs'. cleanup_stale_tmp_dirs c older_than now fs =
      (filter (stale_tmp_dir older_than now fs) (fs_iterdir fs c), fs') \<and>
    (\<forall>p. p \<noteq> c \<longrightarrow> fs_lookup fs' p =
       (if \<exists>d \<in> set (fs_iterdir fs c). stale_tmp_dir older_than now fs d \<and> within_dir d p
        then None else fs_lookup fs p))"
  by (rule cleanup_spec [OF assms])

theorem stale_sweep_witness:
  "fst (cleanup_stale_tmp_dirs [''c''] 5 10 demo_cache) = [[''c'', ''d.tmp'']]"
proof -
  have ok: "dict_ok (fs_nodes demo_cache)" and ex: "fs_exists demo_cache [''c'']"
    by (simp_all add: demo_cache_def dict_ok_def fs_exists_def fs_lookup_def)
  have "filter (stale_tmp_dir 5 10 demo_cache) (fs_iterdir demo_cache [''c'']) = [[''c'', ''d.tmp'']]"
    by code_simp
  then show ?thesis using stale_sweep [OF ok ex, of 5 10] by auto
qed

text \<open>
  C20: Cache directories of different repositories differ as long as the repository ids contain no
  underscore, and no such directory is the staging directory of another repository; with
  underscores two repositories can share a directory, and the directory of a repository whose name
  ends in \<open>.tmp\<close> is the staging directory of another one.
\<close>

theorem cache_paths_separate:
  "(\<forall>a b. CHR ''_'' \<notin> set a \<longrightarrow> CHR ''_'' \<notin> set b \<longrightarrow> a \<notin> {[], ''.''} \<longrightarrow> b \<notin> {[], ''.''} \<longrightarrow>
      (final_path_for c a = final_path_for c b \<longleftrightarrow> a = b) \<and>
      (\<not> ends_with ''.tmp'' a \<longrightarrow> final_path_for c a \<noteq> tmp_path_for c b)) \<and>
   final_path_for c ''a/b__c'' = final_path_for c ''a__b/c'' \<and>
   final_path_for c ''org/foo.tmp'' = tmp_path_for c ''org/foo''"
proof (intro conjI allI impI)
  fix a b :: string
  assume a: "CHR ''_'' \<notin> set a" "a \<notin> {[], ''.''}" and b: "CHR ''_'' \<notin> set b" "b \<notin> {[], ''.''}"
  have "final_path_for c a = final_path_for c b \<longleftrightarrow> safe_name a = safe_name b"
    using a b by (simp add: final_path_for_def safe_name_parts)
  with safe_name_inject [OF a(1) b(1)]
  show "final_path_for c a = final_path_for c b \<longleftrightarrow> a = b" by blast
  assume t: "\<not> ends_with ''.tmp'' a"
  show "final_path_for c a \<noteq> tmp_path_for c b"
  proof
    assume "final_path_for c a = tmp_path_for c b"
    then have "safe_name a = safe_name b @ TMP_SUFFIX"
      using a by (simp add: final_path_for_def tmp_path_for_def safe_name_parts tmp_name_parts)
    then have "safe_name a = safe_name (b @ ''.tmp'')" by (simp add: safe_name_def TMP_SUFFIX_def)
    moreover have "CHR ''_'' \<notin> set (b @ ''.tmp'')" using b(1) by simp
    ultimately have "a = b @ ''.tmp''" using safe_name_inject [OF a(1)] by blast
    with t show False by simp
  qed
next
  show "final_path_for c ''a/b__c'' = final_path_for c ''a__b/c''"
    and "final_path_for c ''org/foo.tmp'' = tmp_path_for c ''org/foo''"
    by (simp_all add: final_path_for_def tmp_path_for_def safe_name_def TMP_SUFFIX_def)
qed

theorem cache_paths_separate_witness:
  "final_path_for [''c''] ''org/a'' \<noteq> final_path_for [''c''] ''org/b'' \<and>
   final_path_for [''c''] ''org/a'' \<noteq> tmp_path_for [''c''] ''org/b''"
  using cache_paths_separate [of "[''c'']"] by (auto simp: ends_with_def starts_with_def)

end
