(* ===== verification/Dataset_Fetcher.thy ===== *)
theory Dataset_Fetcher
  imports Disk_Manager Ports
begin

text \<open>
  \<open>worker/dataset_fetcher.py\<close>: the dataset of a job is either in the shared cache, downloaded into
  it through a staging directory, or extracted from the uploaded zip into the job's own directory.
  The state is the pair of the object storage and the worker's file system; changes made before an
  exception are kept. \<open>extract_member\<close> is \<open>ZipFile.extractall\<close> for one member: empty, \<open>.\<close> and
  \<open>..\<close> components of the name are dropped, a name that ends in a slash is a directory.
\<close>

record FetchedDataset =
  fd_input_dir :: path
  fd_read_only :: bool

definition member_parts :: "string \<Rightarrow> path" where
  "member_parts name = filter (\<lambda>c. c \<notin> {[], ''.'', ''..''}) (path_parts [] name)"

definition extract_member :: "path \<Rightarrow> zip_member \<Rightarrow> fsys \<Rightarrow> (fsys, unit) outcome" where
  "extract_member target_dir m fs =
     (let p = target_dir @ member_parts (zm_name m)
      in if ends_with ''/'' (zm_name m) then fs_makedirs p fs
         else then_do (fs_makedirs (butlast p) fs) (\<lambda>_. fs_write_file p (zm_size m) (zm_data m)))"

fun extract_all :: "path \<Rightarrow> zip_member list \<Rightarrow> fsys \<Rightarrow> (fsys, unit) outcome" where
  "extract_all target_dir [] fs = (Inr (), fs)"
| "extract_all target_dir (m # ms) fs =
     then_do (extract_member target_dir m fs) (\<lambda>_. extract_all target_dir ms)"

text \<open>The \<open>except (FileNotFoundError, zipfile.BadZipFile)\<close> clause.\<close>

definition extract_failure :: "string \<Rightarrow> exn \<Rightarrow> exn" where
  "extract_failure object_path e =
     (case e of
        FileNotFoundError _ \<Rightarrow>
          DatasetFetchError (''Failed to extract uploaded dataset '' @ object_path @ '': '' @ exn_text e)
      | BadZipFile _ \<Rightarrow>
          DatasetFetchError (''Failed to extract uploaded dataset '' @ object_path @ '': '' @ exn_text e)
      | _ \<Rightarrow> e)"

definition extract_zip_upload ::
    "'o object_storage \<Rightarrow> string \<Rightarrow> path \<Rightarrow> 'o \<times> fsys \<Rightarrow> ('o \<times> fsys, path) outcome" where
  "extract_zip_upload S object_path target_dir s =
     (case s of (objects, fs) \<Rightarrow>
        (case fs_makedirs target_dir fs of
           (Inl e, fs1) \<Rightarrow> (Inl e, (objects, fs1))
         | (Inr _, fs1) \<Rightarrow>
             (case and_then (os_open_read_stream S objects object_path) zip_infolist of
                Inl e \<Rightarrow> (Inl (extract_failure object_path e), (objects, fs1))
              | Inr members \<Rightarrow>
                  (case extract_all target_dir members fs1 of
                     (Inl e, fs2) \<Rightarrow> (Inl (extract_failure object_path e), (objects, fs2))
                   | (Inr _, fs2) \<Rightarrow>
                       (Inr target_dir, (snd (os_delete S object_path objects), fs2))))))"

definition fetch_hf_dataset ::
    "hf_hub_client \<Rightarrow> path \<Rightarrow> int \<Rightarrow> string \<Rightarrow> fsys \<Rightarrow> (fsys, path) outcome" where
  "fetch_hf_dataset H cache_dir cache_max_bytes repo_id fs =
     (let final_dir = final_path_for cache_dir repo_id
      in if fs_exists fs final_dir then (Inr final_dir, fs_touch final_dir fs)
         else
           then_do (fs_makedirs cache_dir fs) (\<lambda>_ fs1.
             let tmp_dir = tmp_path_for cache_dir repo_id
             in case hh_download_dataset H repo_id tmp_dir fs1 of
                  (Inl (FileNotFoundError _), fs2) \<Rightarrow>
                    (Inl (DatasetFetchError (''HF Hub dataset not found: '' @ repo_id)), fs2)
                | (Inl e, fs2) \<Rightarrow> (Inl e, fs2)
                | (Inr _, fs2) \<Rightarrow>
                    then_do (finalize_download tmp_dir final_dir fs2) (\<lambda>_ fs3.
                      (Inr final_dir, snd (evict_lru_until_under_cap cache_dir cache_max_bytes fs3)))))"

definition fetch_for_job ::
    "hf_hub_client \<Rightarrow> 'o object_storage \<Rightarrow> path \<Rightarrow> int \<Rightarrow> Job \<Rightarrow> path \<Rightarrow>
     'o \<times> fsys \<Rightarrow> ('o \<times> fsys, FetchedDataset) outcome" where
  "fetch_for_job H S cache_dir cache_max_bytes job job_dir s =
     (case j_source_type job of
        HF_HUB \<Rightarrow>
          (case fetch_hf_dataset H cache_dir cache_max_bytes (j_source_ref job) (snd s) of
             (r, fs) \<Rightarrow>
               (and_then r (\<lambda>d. Inr \<lparr>fd_input_dir = d, fd_read_only = True\<rparr>), (fst s, fs)))
      | ZIP_UPLOAD \<Rightarrow>
          (case extract_zip_upload S (j_source_ref job) (job_dir @ [''input'']) s of
             (r, s') \<Rightarrow>
               (and_then r (\<lambda>d. Inr \<lparr>fd_input_dir = d, fd_read_only = False\<rparr>), s')))"

subsection \<open>Extraction stays in its directory\<close>

lemma within_append_cases:
  assumes "within_dir q (a @ b)"
  shows "within_dir q a \<or> within_dir a q"
  using assms by (auto simp: within_dir_iff append_eq_append_conv2)

lemma extract_member_other:
  assumes "\<not> within_dir target_dir q" and "\<not> within_dir q target_dir"
  shows "fs_lookup (snd (extract_member target_dir m fs)) q = fs_lookup fs q"
proof -
  let ?p = "target_dir @ member_parts (zm_name m)"
  have p: "\<not> within_dir q ?p" using assms within_append_cases by blast
  then have b: "\<not> within_dir q (butlast ?p)"
    using within_butlast within_dir_trans by blast
  have "q \<noteq> ?p" and "q \<noteq> butlast ?p" using p b within_dir_refl by metis+
  then have "fs_lookup (snd (fs_write_file ?p n x fs')) q = fs_lookup fs' q" for n x fs'
    by (rule write_file_other)
  moreover have "fs_lookup (snd (fs_makedirs ?p fs)) q = fs_lookup fs q"
    and "fs_lookup (snd (fs_makedirs (butlast ?p) fs)) q = fs_lookup fs q"
    using p b by (simp_all add: makedirs_other)
  ultimately show ?thesis
    by (cases "fs_makedirs (butlast ?p) fs")
      (auto simp: extract_member_def Let_def then_do_def split: sum.splits)
qed

lemma extract_all_other:
  assumes "\<not> within_dir target_dir q" and "\<not> within_dir q target_dir"
  shows "fs_lookup (snd (extract_all target_dir ms fs)) q = fs_lookup fs q"
proof (induction ms arbitrary: fs)
  case (Cons m ms)
  obtain r fs1 where r: "extract_member target_dir m fs = (r, fs1)" by fastforce
  with extract_member_other [OF assms, of m fs] Cons.IH [of fs1] show ?case
    by (cases r) simp_all
qed simp

lemma extract_zip_other:
  assumes "\<not> within_dir target_dir q" and "\<not> within_dir q target_dir"
  shows "fs_lookup (snd (snd (extract_zip_upload S p target_dir (objects, fs)))) q = fs_lookup fs q"
proof -
  obtain r fs1 where r: "fs_makedirs target_dir fs = (r, fs1)" by fastforce
  then have fs1: "fs_lookup fs1 q = fs_lookup fs q"
    using makedirs_other [OF assms(2), of fs] by simp
  have "fs_lookup fs2 q = fs_lookup fs1 q" if "extract_all target_dir ms fs1 = (x, fs2)" for ms x fs2
    using extract_all_other [OF assms, of ms fs1] that by simp
  with fs1 r show ?thesis
    by (auto simp: extract_zip_upload_def split: sum.splits prod.splits)
qed

text \<open>
  What the fetch does to the object storage: an uploaded zip is deleted exactly when its extraction
  succeeded, a cached dataset never touches it.
\<close>

lemma extract_zip_objects:
  "fst (snd (extract_zip_upload S p t (objects, fs))) =
     (case fst (extract_zip_upload S p t (objects, fs)) of
        Inr _ \<Rightarrow> snd (os_delete S p objects) | Inl _ \<Rightarrow> objects)"
  by (auto simp: extract_zip_upload_def split: sum.splits prod.splits)

lemma fetch_objects:
  "fst (snd (fetch_for_job H S c cap job d (objects, fs))) =
     (case fst (fetch_for_job H S c cap job d (objects, fs)) of
        Inr _ \<Rightarrow> if j_source_type job = ZIP_UPLOAD then snd (os_delete S (j_source_ref job) objects) else objects
      | Inl _ \<Rightarrow> objects)"
  using extract_zip_objects [of S "j_source_ref job" "d @ [''input'']" objects fs]
  by (cases "j_source_type job")
    (auto simp: fetch_for_job_def and_then_def split: prod.splits sum.splits)

text \<open>Only the dataset of a zip upload is mounted writable.\<close>

lemma fetch_read_only:
  "fetch_for_job H S c cap job d s = (Inr f, s') \<Longrightarrow> fd_read_only f \<longleftrightarrow> j_source_type job = HF_HUB"
  by (cases "j_source_type job") (auto simp: fetch_for_job_def and_then_Inr_iff split: prod.splits)

lemma fetch_input_dir:
  "fetch_for_job H S c cap job d s = (Inr f, s') \<Longrightarrow>
     fd_input_dir f = (if j_source_type job = HF_HUB then final_path_for c (j_source_ref job) else d @ [''input''])"
  by (cases "j_source_type job")
    (auto simp: fetch_for_job_def and_then_Inr_iff extract_zip_upload_def fetch_hf_dataset_def Let_def then_do_def
      split: prod.splits sum.splits if_splits exn.splits)

end
