(* ===== verification/Job_Poller.thy ===== *)
theory Job_Poller
  imports Cancel_Watcher Dataset_Fetcher Quota
begin

text \<open>
  \<open>worker/job_poller.py\<close>: cancellations first, then at most one new job. Starting a job is split
  where the code leaves the repository for a long time: \<open>begin_start\<close> claims the oldest queued job
  and charges the user, \<open>finish_start\<close> fetches the dataset, runs the container and writes back the
  job value \<open>begin_start\<close> produced. \<open>now n\<close> is the clock at the \<open>n\<close>-th place the cycle reads it.
\<close>

definition ACTIVE_CONTAINER_STATUSES :: "JobStatus list" where
  "ACTIVE_CONTAINER_STATUSES = [INITIALIZING, TRAINING]"

definition policy_image :: "WorkerSettings \<Rightarrow> PolicyType \<Rightarrow> string" where
  "policy_image settings policy =
     (case policy of ACT \<Rightarrow> ws_act_image settings | SMOLVLA \<Rightarrow> ws_smolvla_image settings)"

definition job_dir_text :: "string \<Rightarrow> Job \<Rightarrow> string" where
  "job_dir_text workdir job = workdir @ ''/'' @ j_id job"

definition build_container_spec :: "WorkerSettings \<Rightarrow> Job \<Rightarrow> string \<Rightarrow> FetchedDataset \<Rightarrow> ContainerSpec" where
  "build_container_spec settings job job_dir dataset =
     (let input_host_path = string_of_path (fd_input_dir dataset);
          output_host_path = job_dir @ ''/output''
      in \<lparr>cs_image = policy_image settings (j_policy job),
          cs_name = ''lerobot-job-'' @ j_id job,
          cs_command =
            [''--source-type'', source_type_value (j_source_type job),
             ''--source-ref'', j_source_ref job,
             ''--training-steps'', str_int (j_training_steps job),
             ''--input-dir'', ''/workspace/input'',
             ''--output-dir'', ''/workspace/output''],
          cs_volumes =
            AList.update output_host_path ''/workspace/output'' [(input_host_path, ''/workspace/input'')],
          cs_environment = [(''JOB_ID'', j_id job)],
          cs_labels = [(LEROBOT_JOB_ID_LABEL, j_id job)],
          cs_use_gpu = ws_use_gpu settings,
          cs_read_only_paths = (if fd_read_only dataset then [input_host_path] else [])\<rparr>)"

definition fail_during_start ::
    "'j job_repository \<Rightarrow> datetime \<Rightarrow> Job \<Rightarrow> string \<Rightarrow> ('j, 'u, 'o, 'd) world \<Rightarrow>
     (('j, 'u, 'o, 'd) world, Job) outcome" where
  "fail_during_start R now job error_message w =
     (case transition job FAILED now of
        Inl e \<Rightarrow> (Inl e, w)
      | Inr moved \<Rightarrow>
          (let failed = moved\<lparr>j_error_message := Some error_message\<rparr>
           in (Inr failed, write_job R failed w)))"

definition begin_start ::
    "('j, 'u, 'o, 'd) WorkerDependencies \<Rightarrow> datetime \<Rightarrow> ('j, 'u, 'o, 'd) world \<Rightarrow>
     (('j, 'u, 'o, 'd) world, Job option) outcome" where
  "begin_start E now w =
     (case jr_list_by_statuses (wd_job_repository E) (w_jobs w) [QUEUED] of
        Inl e \<Rightarrow> (Inl e, w)
      | Inr [] \<Rightarrow> (Inr None, w)
      | Inr (job # _) \<Rightarrow>
          (case ur_get (wd_user_repository E) (w_users w) (j_user_id job) of
             Inl e \<Rightarrow> (Inl e, w)
           | Inr None \<Rightarrow> (Inl (UserMissingError (j_user_id job)), w)
           | Inr (Some user) \<Rightarrow>
               (case transition job INITIALIZING now of
                  Inl e \<Rightarrow> (Inl e, w)
                | Inr moved \<Rightarrow>
                    (let started = moved\<lparr>j_heartbeat_at := Some now\<rparr>;
                         w1 = write_job (wd_job_repository E) started w
                     in (Inr (Some started),
                         w1\<lparr>w_users := ur_update (wd_user_repository E)
                              (record_job_started user (date_of now)) (w_users w1)\<rparr>)))))"

definition fetch_dataset ::
    "('j, 'u, 'o, 'd) WorkerDependencies \<Rightarrow> Job \<Rightarrow> ('j, 'u, 'o, 'd) world \<Rightarrow>
     (('j, 'u, 'o, 'd) world, FetchedDataset) outcome" where
  "fetch_dataset E job w =
     (case fetch_for_job (wd_hf_hub_client E) (wd_object_storage E)
             (path_of_string (ws_hf_cache_dir (wd_settings E))) (ws_hf_cache_max_bytes (wd_settings E))
             job (path_of_string (job_dir_text (ws_workdir (wd_settings E)) job)) (w_objects w, w_fs w) of
        (r, (objects, fs)) \<Rightarrow> (r, w\<lparr>w_objects := objects, w_fs := fs\<rparr>))"

definition run_container ::
    "('j, 'u, 'o, 'd) WorkerDependencies \<Rightarrow> ContainerSpec \<Rightarrow> ('j, 'u, 'o, 'd) world \<Rightarrow>
     (('j, 'u, 'o, 'd) world, string) outcome" where
  "run_container E spec w =
     (case dc_run (wd_docker_client E) spec (w_docker w, w_fs w) of
        (r, (d, fs)) \<Rightarrow> (r, w\<lparr>w_docker := d, w_fs := fs\<rparr>))"

definition finish_start ::
    "('j, 'u, 'o, 'd) WorkerDependencies \<Rightarrow> datetime \<Rightarrow> Job \<Rightarrow> ('j, 'u, 'o, 'd) world \<Rightarrow>
     (('j, 'u, 'o, 'd) world, Job) outcome" where
  "finish_start E now job w =
     (let R = wd_job_repository E; job_dir = job_dir_text (ws_workdir (wd_settings E)) job
      in case fetch_dataset E job w of
           (Inl (DatasetFetchError m), w1) \<Rightarrow>
             fail_during_start R now job (''Failed to fetch dataset: '' @ m) w1
         | (Inl e, w1) \<Rightarrow> (Inl e, w1)
         | (Inr dataset, w1) \<Rightarrow>
             (case run_container E (build_container_spec (wd_settings E) job job_dir dataset) w1 of
                (Inl e, w2) \<Rightarrow>
                  fail_during_start R now job (''Failed to start training container: '' @ exn_text e) w2
              | (Inr container_id, w2) \<Rightarrow>
                  (let started = job\<lparr>j_container_id := Some container_id\<rparr>
                   in (Inr started, write_job R started w2))))"

definition start_next_queued_job ::
    "('j, 'u, 'o, 'd) WorkerDependencies \<Rightarrow> (nat \<Rightarrow> datetime) \<Rightarrow> ('j, 'u, 'o, 'd) world \<Rightarrow>
     (('j, 'u, 'o, 'd) world, Job option) outcome" where
  "start_next_queued_job E now w =
     then_do (begin_start E (now 1) w) (\<lambda>started w1.
       case started of
         None \<Rightarrow> (Inr None, w1)
       | Some job \<Rightarrow> then_do (finish_start E (now 2) job w1) (\<lambda>job w2. (Inr (Some job), w2)))"

definition JobPoller_tick ::
    "('j, 'u, 'o, 'd) WorkerDependencies \<Rightarrow> (nat \<Rightarrow> datetime) \<Rightarrow> ('j, 'u, 'o, 'd) world \<Rightarrow>
     (('j, 'u, 'o, 'd) world, Job option) outcome" where
  "JobPoller_tick E now w =
     then_do (process_cancellations (wd_job_repository E) (wd_docker_client E)
                (ws_workdir (wd_settings E)) (now 0) w) (\<lambda>_ w1.
       case jr_list_by_statuses (wd_job_repository E) (w_jobs w1) ACTIVE_CONTAINER_STATUSES of
         Inl e \<Rightarrow> (Inl e, w1)
       | Inr active \<Rightarrow>
           if active \<noteq> [] then (Inr None, w1) else start_next_queued_job E now w1)"

end
