(* ===== verification/Orphan_Reconciler.thy ===== *)
theory Orphan_Reconciler
  imports Worker_World
begin

text \<open>
  \<open>worker/orphan_reconciler.py\<close>: after a restart the running containers of the service that no
  tracked job accounts for are killed. The code iterates over a set; the model takes the order of
  the listing.
\<close>

definition RECONCILED_STATUSES :: "JobStatus list" where
  "RECONCILED_STATUSES = [INITIALIZING, TRAINING]"

record ReconciliationResult =
  rr_resumed_jobs :: "Job list"
  rr_killed_orphan_container_ids :: "string list"

fun kill_all :: "'d docker_client \<Rightarrow> string list \<Rightarrow> 'd \<Rightarrow> ('d, unit) outcome" where
  "kill_all D [] d = (Inr (), d)"
| "kill_all D (c # cs) d = then_do (dc_kill D c d) (\<lambda>_. kill_all D cs)"

definition tracked_container_ids :: "Job list \<Rightarrow> string list" where
  "tracked_container_ids jobs =
     map (\<lambda>j. the (j_container_id j)) (filter (\<lambda>j. truthy (j_container_id j)) jobs)"

definition reconcile ::
    "'d docker_client \<Rightarrow> 'j job_repository \<Rightarrow> ('j, 'u, 'o, 'd) world \<Rightarrow>
     (('j, 'u, 'o, 'd) world, ReconciliationResult) outcome" where
  "reconcile D R w =
     (case dc_list_running_container_ids D (w_docker w) of
        Inl e \<Rightarrow> (Inl e, w)
      | Inr listed \<Rightarrow>
          (let running_container_ids = remdups listed
           in case jr_list_by_statuses R (w_jobs w) RECONCILED_STATUSES of
                Inl e \<Rightarrow> (Inl e, w)
              | Inr tracked_jobs \<Rightarrow>
                  (let resumed_jobs =
                         filter (\<lambda>j. \<exists>c \<in> set running_container_ids. j_container_id j = Some c) tracked_jobs;
                       orphan_ids =
                         filter (\<lambda>c. c \<notin> set (tracked_container_ids tracked_jobs)) running_container_ids
                   in case kill_all D orphan_ids (w_docker w) of
                        (Inl e, d) \<Rightarrow> (Inl e, w\<lparr>w_docker := d\<rparr>)
                      | (Inr _, d) \<Rightarrow>
                          (Inr \<lparr>rr_resumed_jobs = resumed_jobs,
                                rr_killed_orphan_container_ids = sort orphan_ids\<rparr>,
                           w\<lparr>w_docker := d\<rparr>))))"

end
