(* ===== verification/Docker_Runner.thy ===== *)
theory Docker_Runner
  imports Ports
begin

text \<open>
  \<open>worker/docker_runner.py\<close>: the adapter of the Docker client port over the Docker SDK. The SDK is
  not code of the repository: the part of it the adapter uses is the record \<open>docker_api\<close>, a
  parameter of the adapter's definitions, and its documented behaviour is the hypothesis
  \<open>docker_ok\<close>. Under it the adapter meets the contract \<open>container_host\<close>. A container object and its
  \<open>reload()\<close> are the inspection of the container in the daemon's state.
\<close>

record container =
  ct_status :: string
  ct_exit_code :: int
  ct_labels :: "(string \<times> string) list"

record RunArgs =
  ra_image :: string
  ra_command :: "string list"
  ra_name :: string
  ra_volumes :: "(string \<times> (string \<times> string)) list"
  ra_environment :: "(string \<times> string) list"
  ra_labels :: "(string \<times> string) list"
  ra_device_requests :: "(int \<times> string list list) option"
  ra_user :: string
  ra_detach :: bool

text \<open>\<open>da_get\<close> is \<open>None\<close> where the SDK raises \<open>docker.errors.NotFound\<close>.\<close>

record 'd docker_api =
  da_run :: "RunArgs \<Rightarrow> 'd \<Rightarrow> ('d, string) outcome"
  da_get :: "'d \<Rightarrow> string \<Rightarrow> exn + container option"
  da_kill :: "string \<Rightarrow> 'd \<Rightarrow> ('d, unit) outcome"
  da_logs :: "'d \<Rightarrow> string \<Rightarrow> int \<Rightarrow> exn + string"
  da_list :: "'d \<Rightarrow> string \<Rightarrow> string \<Rightarrow> exn + (string \<times> container) list"

subsection \<open>The adapter\<close>

fun create_host_paths :: "string list \<Rightarrow> fsys \<Rightarrow> (fsys, unit) outcome" where
  "create_host_paths [] fs = (Inr (), fs)"
| "create_host_paths (host_path # host_paths) fs =
     then_do (fs_makedirs (path_of_string host_path) fs) (\<lambda>_. create_host_paths host_paths)"

definition run_args :: "int \<Rightarrow> int \<Rightarrow> ContainerSpec \<Rightarrow> RunArgs" where
  "run_args uid gid spec =
     \<lparr>ra_image = cs_image spec,
      ra_command = cs_command spec,
      ra_name = cs_name spec,
      ra_volumes = map (\<lambda>(host, container_path).
        (host, (container_path, if host \<in> set (cs_read_only_paths spec) then ''ro'' else ''rw'')))
        (cs_volumes spec),
      ra_environment = cs_environment spec,
      ra_labels = cs_labels spec,
      ra_device_requests = (if cs_use_gpu spec then Some (-1, [[''gpu'']]) else None),
      ra_user = str_int uid @ '':'' @ str_int gid,
      ra_detach = True\<rparr>"

definition DockerRunner_run ::
    "'d docker_api \<Rightarrow> int \<Rightarrow> int \<Rightarrow> ContainerSpec \<Rightarrow> 'd \<times> fsys \<Rightarrow> ('d \<times> fsys, string) outcome" where
  "DockerRunner_run A uid gid spec s =
     (case s of (d, fs) \<Rightarrow>
        (case create_host_paths (map fst (cs_volumes spec)) fs of
           (Inl e, fs') \<Rightarrow> (Inl e, (d, fs'))
         | (Inr _, fs') \<Rightarrow>
             (case da_run A (run_args uid gid spec) d of (r, d') \<Rightarrow> (r, (d', fs')))))"

definition DockerRunner_kill :: "'d docker_api \<Rightarrow> string \<Rightarrow> 'd \<Rightarrow> ('d, unit) outcome" where
  "DockerRunner_kill A container_id d =
     (case da_get A d container_id of
        Inl e \<Rightarrow> (Inl e, d)
      | Inr None \<Rightarrow> (Inr (), d)
      | Inr (Some _) \<Rightarrow> da_kill A container_id d)"

definition DockerRunner_is_running :: "'d docker_api \<Rightarrow> 'd \<Rightarrow> string \<Rightarrow> exn + bool" where
  "DockerRunner_is_running A d container_id =
     and_then (da_get A d container_id) (\<lambda>found.
       case found of None \<Rightarrow> Inr False | Some ct \<Rightarrow> Inr (ct_status ct = ''running''))"

definition DockerRunner_get_exit_code :: "'d docker_api \<Rightarrow> 'd \<Rightarrow> string \<Rightarrow> exn + int option" where
  "DockerRunner_get_exit_code A d container_id =
     and_then (da_get A d container_id) (\<lambda>found.
       case found of
         None \<Rightarrow> Inr None
       | Some ct \<Rightarrow> Inr (if ct_status ct = ''running'' then None else Some (ct_exit_code ct)))"

definition DockerRunner_get_logs :: "'d docker_api \<Rightarrow> 'd \<Rightarrow> string \<Rightarrow> int \<Rightarrow> exn + string" where
  "DockerRunner_get_logs A d container_id tail_lines =
     and_then (da_get A d container_id) (\<lambda>found.
       case found of None \<Rightarrow> Inr [] | Some _ \<Rightarrow> da_logs A d container_id tail_lines)"

definition DockerRunner_list_running_container_ids :: "'d docker_api \<Rightarrow> 'd \<Rightarrow> exn + string list" where
  "DockerRunner_list_running_container_ids A d =
     and_then (da_list A d ''running'' LEROBOT_JOB_ID_LABEL) (\<lambda>containers. Inr (map fst containers))"

definition DockerRunner_get_label ::
    "'d docker_api \<Rightarrow> 'd \<Rightarrow> string \<Rightarrow> string \<Rightarrow> exn + string option" where
  "DockerRunner_get_label A d container_id label =
     and_then (da_get A d container_id) (\<lambda>found.
       case found of None \<Rightarrow> Inr None | Some ct \<Rightarrow> Inr (map_of (ct_labels ct) label))"

definition docker_runner :: "'d docker_api \<Rightarrow> int \<Rightarrow> int \<Rightarrow> 'd docker_client" where
  "docker_runner A uid gid =
     \<lparr>dc_run = DockerRunner_run A uid gid,
      dc_kill = DockerRunner_kill A,
      dc_is_running = DockerRunner_is_running A,
      dc_get_exit_code = DockerRunner_get_exit_code A,
      dc_get_logs = DockerRunner_get_logs A,
      dc_list_running_container_ids = DockerRunner_list_running_container_ids A,
      dc_get_label = DockerRunner_get_label A\<rparr>"

lemma docker_runner_simps [port_simps]:
  "dc_run (docker_runner A uid gid) = DockerRunner_run A uid gid"
  "dc_kill (docker_runner A uid gid) = DockerRunner_kill A"
  "dc_is_running (docker_runner A uid gid) = DockerRunner_is_running A"
  "dc_get_exit_code (docker_runner A uid gid) = DockerRunner_get_exit_code A"
  "dc_get_logs (docker_runner A uid gid) = DockerRunner_get_logs A"
  "dc_list_running_container_ids (docker_runner A uid gid) = DockerRunner_list_running_container_ids A"
  "dc_get_label (docker_runner A uid gid) = DockerRunner_get_label A"
  by (simp_all add: docker_runner_def)

subsection \<open>The documented behaviour of the SDK\<close>

text \<open>
  \<open>view\<close> gives the containers the daemon knows. A run that returns has started a new container
  with a nonempty id and the given labels; a run that raises may leave a created container, but none that runs. A
  kill succeeds only on a running container (the daemon answers 409 on any other) and leaves it
  with status \<open>exited\<close>. The listing honours its two filters.
\<close>

definition running_view :: "('d \<Rightarrow> string \<rightharpoonup> container) \<Rightarrow> 'd \<Rightarrow> string \<rightharpoonup> (string \<times> string) list" where
  "running_view view d c =
     (case view d c of
        Some ct \<Rightarrow> if ct_status ct = ''running'' then Some (ct_labels ct) else None
      | None \<Rightarrow> None)"

definition docker_ok :: "'d docker_api \<Rightarrow> ('d \<Rightarrow> string \<rightharpoonup> container) \<Rightarrow> bool" where
  "docker_ok A view \<longleftrightarrow>
     (\<forall>d c r. da_get A d c = Inr r \<longrightarrow> r = view d c) \<and>
     (\<forall>args d c d'. da_run A args d = (Inr c, d') \<longrightarrow>
        c \<noteq> [] \<and> view d c = None \<and>
        (\<exists>ct. ct_status ct = ''running'' \<and> ct_labels ct = ra_labels args \<and> view d' = (view d)(c \<mapsto> ct))) \<and>
     (\<forall>args d e d'. da_run A args d = (Inl e, d') \<longrightarrow> running_view view d' = running_view view d) \<and>
     (\<forall>c d u d'. da_kill A c d = (Inr u, d') \<longrightarrow>
        (\<exists>ct. view d c = Some ct \<and> ct_status ct = ''running'' \<and>
           (\<exists>ct'. ct_status ct' = ''exited'' \<and> view d' = (view d)(c \<mapsto> ct')))) \<and>
     (\<forall>c d e d'. da_kill A c d = (Inl e, d') \<longrightarrow> view d' = view d) \<and>
     (\<forall>d st l cts. da_list A d st l = Inr cts \<longrightarrow>
        distinct (map fst cts) \<and>
        (\<forall>c ct. (c, ct) \<in> set cts \<longleftrightarrow>
           view d c = Some ct \<and> ct_status ct = st \<and> l \<in> fst ` set (ct_labels ct)))"

lemma docker_okD:
  assumes "docker_ok A view"
  shows "da_get A d c = Inr r \<Longrightarrow> r = view d c"
    and "da_run A args d = (Inr c, d') \<Longrightarrow> c \<noteq> [] \<and> view d c = None \<and>
      (\<exists>ct. ct_status ct = ''running'' \<and> ct_labels ct = ra_labels args \<and> view d' = (view d)(c \<mapsto> ct))"
    and "da_run A args d = (Inl e, d') \<Longrightarrow> running_view view d' = running_view view d"
    and "da_kill A c d = (Inr u, d') \<Longrightarrow> \<exists>ct. view d c = Some ct \<and> ct_status ct = ''running'' \<and>
           (\<exists>ct'. ct_status ct' = ''exited'' \<and> view d' = (view d)(c \<mapsto> ct'))"
    and "da_kill A c d = (Inl e, d') \<Longrightarrow> view d' = view d"
    and "da_list A d st l = Inr cts \<Longrightarrow> distinct (map fst cts) \<and>
        (\<forall>c ct. (c, ct) \<in> set cts \<longleftrightarrow>
           view d c = Some ct \<and> ct_status ct = st \<and> l \<in> fst ` set (ct_labels ct))"
  using assms by (simp_all add: docker_ok_def)

lemma running_view_upd:
  "view d' = (view d)(c \<mapsto> ct) \<Longrightarrow> running_view view d' =
     (running_view view d)(c := if ct_status ct = ''running'' then Some (ct_labels ct) else None)"
  by (auto simp: running_view_def fun_eq_iff)

text \<open>Each law of \<open>container_host\<close> in turn.\<close>

lemma runner_run:
  assumes ok: "docker_ok A view" and run: "DockerRunner_run A uid gid spec (d, fs) = (r, (d', fs'))"
  shows "case r of Inr c \<Rightarrow> c \<noteq> [] \<and> running_view view d c = None \<and>
        running_view view d' = (running_view view d)(c \<mapsto> cs_labels spec)
      | Inl _ \<Rightarrow> running_view view d' = running_view view d"
proof -
  obtain q fs1 where q: "create_host_paths (map fst (cs_volumes spec)) fs = (q, fs1)" by fastforce
  show ?thesis
  proof (cases q)
    case (Inl e)
    with q run show ?thesis by (auto simp: DockerRunner_run_def)
  next
    case (Inr u)
    with q run have run': "da_run A (run_args uid gid spec) d = (r, d')"
      by (auto simp: DockerRunner_run_def split: prod.splits)
    show ?thesis
    proof (cases r)
      case (Inl e)
      with run' docker_okD(3) [OF ok] show ?thesis by simp
    next
      case (Inr c)
      with docker_okD(2) [OF ok, of "run_args uid gid spec" d c d'] run'
      obtain ct where "c \<noteq> []" and "view d c = None" and "ct_status ct = ''running''"
        and "ct_labels ct = ra_labels (run_args uid gid spec)" and upd: "view d' = (view d)(c \<mapsto> ct)"
        by auto
      with Inr running_view_upd [OF upd] show ?thesis by (simp add: running_view_def run_args_def)
    qed
  qed
qed

lemma runner_kill:
  assumes ok: "docker_ok A view" and run: "DockerRunner_kill A c d = (r, d')"
  shows "case r of Inr _ \<Rightarrow> running_view view d' = (running_view view d)(c := None)
      | Inl _ \<Rightarrow> running_view view d' = running_view view d"
proof (cases "\<exists>ct. da_get A d c = Inr (Some ct)")
  case False
  then consider e where "da_get A d c = Inl e" | "da_get A d c = Inr None"
    by (cases "da_get A d c") (auto split: option.splits)
  then show ?thesis
  proof cases
    case 1
    with run show ?thesis by (auto simp: DockerRunner_kill_def)
  next
    case 2
    then have "view d c = None" using docker_okD(1) [OF ok 2] by simp
    with 2 run show ?thesis by (auto simp: DockerRunner_kill_def running_view_def fun_eq_iff)
  qed
next
  case True
  with run have kill: "da_kill A c d = (r, d')" by (auto simp: DockerRunner_kill_def)
  show ?thesis
  proof (cases r)
    case (Inl e)
    with kill docker_okD(5) [OF ok, of c d e d'] show ?thesis by (simp add: running_view_def fun_eq_iff)
  next
    case (Inr u)
    with kill docker_okD(4) [OF ok, of c d u d'] obtain ct' where "ct_status ct' = ''exited''"
      and upd: "view d' = (view d)(c \<mapsto> ct')" by auto
    with Inr running_view_upd [OF upd] show ?thesis by simp
  qed
qed

lemma runner_list:
  assumes ok: "docker_ok A view" and run: "DockerRunner_list_running_container_ids A d = Inr cs"
  shows "distinct cs \<and>
    set cs = {c. \<exists>ls. running_view view d c = Some ls \<and> LEROBOT_JOB_ID_LABEL \<in> fst ` set ls}"
proof -
  obtain cts where list: "da_list A d ''running'' LEROBOT_JOB_ID_LABEL = Inr cts" and cs: "cs = map fst cts"
    using run by (auto simp: DockerRunner_list_running_container_ids_def and_then_Inr_iff)
  note mem = docker_okD(6) [OF ok list]
  have "c \<in> set cs \<longleftrightarrow> (\<exists>ls. running_view view d c = Some ls \<and> LEROBOT_JOB_ID_LABEL \<in> fst ` set ls)" for c
  proof -
    have "c \<in> set cs \<longleftrightarrow> (\<exists>ct. (c, ct) \<in> set cts)" by (force simp: cs)
    also have "\<dots> \<longleftrightarrow> (\<exists>ct. view d c = Some ct \<and> ct_status ct = ''running'' \<and>
        LEROBOT_JOB_ID_LABEL \<in> fst ` set (ct_labels ct))" using mem by simp
    finally show ?thesis by (auto simp: running_view_def split: option.splits)
  qed
  then have "set cs = {c. \<exists>ls. running_view view d c = Some ls \<and> LEROBOT_JOB_ID_LABEL \<in> fst ` set ls}"
    by blast
  with mem show ?thesis by (simp add: cs)
qed

lemma runner_exit:
  assumes ok: "docker_ok A view" and run: "DockerRunner_get_exit_code A d c = Inr (Some n)"
  shows "running_view view d c = None"
proof -
  obtain ct where get: "da_get A d c = Inr (Some ct)" and "ct_status ct \<noteq> ''running''"
    using run
    by (auto simp: DockerRunner_get_exit_code_def and_then_Inr_iff split: option.splits if_splits)
  with docker_okD(1) [OF ok get, symmetric] show ?thesis by (simp add: running_view_def)
qed

theorem docker_runner_host:
  assumes ok: "docker_ok A view"
  shows "container_host (docker_runner A uid gid) (running_view view)"
  by unfold_locales
    (simp_all add: port_simps runner_run [OF ok] runner_kill [OF ok] runner_list [OF ok] runner_exit [OF ok])

subsection \<open>A daemon\<close>

text \<open>
  A daemon that meets \<open>docker_ok\<close>: its state is the dictionary of its containers, a new container
  takes an id longer than all others, a run fails on an empty image name.
\<close>

type_synonym daemon = "(string \<times> container) list"

definition fresh_id :: "daemon \<Rightarrow> string" where
  "fresh_id d = ''c'' @ concat (map fst d)"

definition daemon_run :: "RunArgs \<Rightarrow> daemon \<Rightarrow> (daemon, string) outcome" where
  "daemon_run args d =
     (if ra_image args = [] then (Inl (ExternalError ''invalid image''), d)
      else (Inr (fresh_id d),
            AList.update (fresh_id d)
              \<lparr>ct_status = ''running'', ct_exit_code = 0, ct_labels = ra_labels args\<rparr> d))"

definition daemon_kill :: "string \<Rightarrow> daemon \<Rightarrow> (daemon, unit) outcome" where
  "daemon_kill c d =
     (case map_of d c of
        Some ct \<Rightarrow>
          if ct_status ct = ''running''
          then (Inr (), AList.update c (ct\<lparr>ct_status := ''exited'', ct_exit_code := 137\<rparr>) d)
          else (Inl (ExternalError ''409 Conflict''), d)
      | None \<Rightarrow> (Inl (ExternalError ''404 Not Found''), d))"

definition daemon_list :: "daemon \<Rightarrow> string \<Rightarrow> string \<Rightarrow> exn + (string \<times> container) list" where
  "daemon_list d st l =
     Inr (filter (\<lambda>(c, ct). ct_status ct = st \<and> l \<in> fst ` set (ct_labels ct)) (AList.clearjunk d))"

definition reference_daemon :: "daemon docker_api" where
  "reference_daemon =
     \<lparr>da_run = daemon_run,
      da_get = (\<lambda>d c. Inr (map_of d c)),
      da_kill = daemon_kill,
      da_logs = (\<lambda>d c n. Inr ''log''),
      da_list = daemon_list\<rparr>"

lemma fresh_id_new: "map_of d (fresh_id d) = None"
proof -
  have "length k \<le> length (concat (map fst d))" if "k \<in> fst ` set d" for k
    using that by (induction d) (auto intro: trans_le_add2 image_eqI)
  then have "fresh_id d \<notin> fst ` set d" by (fastforce simp: fresh_id_def)
  then show ?thesis by (simp add: map_of_eq_None_iff)
qed

lemma fresh_id_nonempty: "fresh_id d \<noteq> []"
  by (simp add: fresh_id_def)

lemma daemon_list_mem:
  "(c, ct) \<in> set (AList.clearjunk d) \<longleftrightarrow> map_of d c = Some ct"
  by (metis distinct_clearjunk map_of_clearjunk map_of_eq_Some_iff)

lemma reference_daemon_ok: "docker_ok reference_daemon map_of"
  unfolding docker_ok_def
proof (intro conjI)
  show "\<forall>args d c d'. da_run reference_daemon args d = (Inr c, d') \<longrightarrow>
      c \<noteq> [] \<and> map_of d c = None \<and> (\<exists>ct. ct_status ct = ''running'' \<and> ct_labels ct = ra_labels args \<and>
        map_of d' = (map_of d)(c \<mapsto> ct))"
    by (auto simp: reference_daemon_def daemon_run_def fresh_id_new fresh_id_nonempty
        intro!: exI [of _ "\<lparr>ct_status = ''running'', ct_exit_code = 0, ct_labels = _\<rparr>"])
  show "\<forall>c d u d'. da_kill reference_daemon c d = (Inr u, d') \<longrightarrow>
      (\<exists>ct. map_of d c = Some ct \<and> ct_status ct = ''running'' \<and>
         (\<exists>ct'. ct_status ct' = ''exited'' \<and> map_of d' = (map_of d)(c \<mapsto> ct')))"
    by (auto simp: reference_daemon_def daemon_kill_def split: option.splits if_splits
        intro!: exI [of _ "_\<lparr>ct_status := ''exited'', ct_exit_code := 137\<rparr>"])
  show "\<forall>d st l cts. da_list reference_daemon d st l = Inr cts \<longrightarrow>
      distinct (map fst cts) \<and>
      (\<forall>c ct. ((c, ct) \<in> set cts) =
         (map_of d c = Some ct \<and> ct_status ct = st \<and> l \<in> fst ` set (ct_labels ct)))"
    by (auto simp: reference_daemon_def daemon_list_def daemon_list_mem distinct_map_filterI)
qed (auto simp: reference_daemon_def daemon_run_def daemon_kill_def split: if_splits option.splits)

interpretation refd: container_host "docker_runner reference_daemon uid gid" "running_view map_of"
  for uid gid
  by (rule docker_runner_host [OF reference_daemon_ok])

subsection \<open>Properties\<close>

text \<open>
  C21: Over an SDK that behaves as documented the adapter keeps the promises of its port. A run
  that returns started one new container that carries the requested labels and left the others as
  they were; a kill that returns leaves the container not running and touches no other, also when
  the container was unknown; a reported exit code means that the container is not running; the
  listing has exactly the running containers with the service's label, whatever else runs on the
  host.
\<close>

theorem docker_runner_contract:
  assumes "docker_ok A view"
  shows "(DockerRunner_run A uid gid spec (d, fs) = (Inr c, (d', fs')) \<longrightarrow>
       c \<noteq> [] \<and> running_view view d c = None \<and>
       running_view view d' = (running_view view d)(c \<mapsto> cs_labels spec)) \<and>
    (DockerRunner_kill A k d = (Inr (), e') \<longrightarrow>
       running_view view e' = (running_view view d)(k := None)) \<and>
    (DockerRunner_get_exit_code A d k = Inr (Some n) \<longrightarrow> running_view view d k = None) \<and>
    (DockerRunner_list_running_container_ids A d = Inr cs \<longrightarrow>
       distinct cs \<and>
       (\<forall>i. i \<in> set cs \<longleftrightarrow>
          (\<exists>ls. running_view view d i = Some ls \<and> ''lerobot.job_id'' \<in> fst ` set ls)))"
  using runner_run [OF assms, of uid gid spec d fs "Inr c" d' fs'] runner_kill [OF assms, of k d "Inr ()" e']
    runner_exit [OF assms] runner_list [OF assms, of d cs]
  by (simp add: LEROBOT_JOB_ID_LABEL_def)

definition demo_daemon :: daemon where
  "demo_daemon =
     [(''other'', \<lparr>ct_status = ''running'', ct_exit_code = 0, ct_labels = []\<rparr>),
      (''mine'', \<lparr>ct_status = ''running'', ct_exit_code = 0, ct_labels = [(''lerobot.job_id'', ''j1'')]\<rparr>)]"

theorem docker_runner_contract_witness:
  "docker_ok reference_daemon map_of \<and>
   DockerRunner_list_running_container_ids reference_daemon demo_daemon = Inr [''mine''] \<and>
   running_view map_of (snd (DockerRunner_kill reference_daemon ''mine'' demo_daemon)) =
     (running_view map_of demo_daemon)(''mine'' := None)"
proof -
  have kill: "DockerRunner_kill reference_daemon ''mine'' demo_daemon =
      (Inr (), snd (DockerRunner_kill reference_daemon ''mine'' demo_daemon))"
    by (simp add: DockerRunner_kill_def reference_daemon_def daemon_kill_def demo_daemon_def)
  moreover have "DockerRunner_list_running_container_ids reference_daemon demo_daemon = Inr [''mine'']"
    by (simp add: DockerRunner_list_running_container_ids_def reference_daemon_def daemon_list_def
        demo_daemon_def LEROBOT_JOB_ID_LABEL_def)
  ultimately show ?thesis
    using reference_daemon_ok docker_runner_contract [OF reference_daemon_ok, where d = demo_daemon and k = "''mine''"]
    by metis
qed

end
