(* ===== verification/Worker_Refinement.thy ===== *)
theory Worker_Refinement
  imports Abstract_System Job_Poller Orphan_Reconciler Docker_Runner
begin

text \<open>
  The worker implements the abstract system: each operation of the worker, over any adapters that
  keep the contracts of the ports, is a sequence of abstract steps. The locale \<open>training_system\<close>
  collects the four contracts for the adapters a worker is wired with; \<open>world_view\<close> is the
  abstraction function.
\<close>

definition world_view ::
    "('j \<Rightarrow> string \<rightharpoonup> Job) \<Rightarrow> ('u \<Rightarrow> string \<rightharpoonup> User) \<Rightarrow> ('o \<Rightarrow> string \<rightharpoonup> blob) \<Rightarrow>
     ('d \<Rightarrow> string \<rightharpoonup> (string \<times> string) list) \<Rightarrow> ('j, 'u, 'o, 'd) world \<Rightarrow> datetime \<Rightarrow> sys" where
  "world_view jobs_of users_of objects_of running w t =
     \<lparr>s_jobs = jobs_of (w_jobs w), s_users = users_of (w_users w), s_objects = objects_of (w_objects w),
      s_running = running (w_docker w), s_now = t\<rparr>"

lemma world_view_fields [simp]:
  "s_jobs (world_view jo uo oo run w t) = jo (w_jobs w)"
  "s_users (world_view jo uo oo run w t) = uo (w_users w)"
  "s_objects (world_view jo uo oo run w t) = oo (w_objects w)"
  "s_running (world_view jo uo oo run w t) = run (w_docker w)"
  "s_now (world_view jo uo oo run w t) = t"
  by (simp_all add: world_view_def)

locale training_system =
  job_store "wd_job_repository E" jobs_of wf_jobs + user_store "wd_user_repository E" users_of wf_users +
  object_store "wd_object_storage E" objects_of + container_host "wd_docker_client E" running
  for E :: "('j, 'u, 'o, 'd) WorkerDependencies"
    and jobs_of :: "'j \<Rightarrow> string \<rightharpoonup> Job" and wf_jobs
    and users_of :: "'u \<Rightarrow> string \<rightharpoonup> User" and wf_users
    and objects_of :: "'o \<Rightarrow> string \<rightharpoonup> blob"
    and running :: "'d \<Rightarrow> string \<rightharpoonup> (string \<times> string) list"
begin

abbreviation "view \<equiv> world_view jobs_of users_of objects_of running"
abbreviation "R \<equiv> wd_job_repository E"
abbreviation "D \<equiv> wd_docker_client E"

definition world_ok :: "('j, 'u, 'o, 'd) world \<Rightarrow> bool" where
  "world_ok w \<longleftrightarrow> wf_jobs (w_jobs w) \<and> wf_users (w_users w)"

lemma world_ok_write [simp]: "world_ok w \<Longrightarrow> world_ok (write_job R j w)"
  by (simp add: world_ok_def update_job_wf)

lemma view_write: "world_ok w \<Longrightarrow> view (write_job R j w) t = put_job j t (view w t')"
  by (simp add: world_view_def put_job_def world_ok_def update_job_law)

lemma pass_view: "t \<le> t' \<Longrightarrow> Pass \<in> A \<Longrightarrow> sys_steps A (view w t) (view w t')"
  using sys_step.pass [of "view w t" t'] by (intro sys_steps_one) (simp_all add: world_view_def)

lemma view_cong:
  "jobs_of (w_jobs w') = jobs_of (w_jobs w) \<Longrightarrow> users_of (w_users w') = users_of (w_users w) \<Longrightarrow>
   objects_of (w_objects w') = objects_of (w_objects w) \<Longrightarrow> running (w_docker w') = running (w_docker w) \<Longrightarrow>
   view w' t = view w t"
  by (simp add: world_view_def)

subsection \<open>Cancellations\<close>

lemma stop_container_refines:
  assumes run: "stop_container D workdir j w = (r, w1)"
  shows "w_jobs w1 = w_jobs w" "w_users w1 = w_users w" "w_objects w1 = w_objects w"
    and "sys_steps {Stop} (view w t) (view w1 t)"
    and "r = Inr u \<Longrightarrow> monitored (j_status j) \<Longrightarrow> container_stopped (running (w_docker w1)) j"
proof -
  consider (none) "\<not> (j_status j \<in> {INITIALIZING, TRAINING} \<and> truthy (j_container_id j))" "r = Inr ()" "w1 = w"
    | (kill) d q where "dc_kill D (the (j_container_id j)) (w_docker w) = (q, d)" "truthy (j_container_id j)"
        "w_docker w1 = d" "w_jobs w1 = w_jobs w" "w_users w1 = w_users w" "w_objects w1 = w_objects w"
        "isl q = isl r"
    using run by (auto simp: stop_container_def split: if_splits prod.splits sum.splits)
  then have "w_jobs w1 = w_jobs w \<and> w_users w1 = w_users w \<and> w_objects w1 = w_objects w \<and>
    sys_steps {Stop} (view w t) (view w1 t) \<and>
    (r = Inr u \<longrightarrow> monitored (j_status j) \<longrightarrow> container_stopped (running (w_docker w1)) j)"
  proof cases
    case none
    then show ?thesis
      by (auto simp: container_stopped_def monitored_def intro: steps_refl)
  next
    case kill
    let ?c = "the (j_container_id j)"
    note law = kill_law [OF kill(1)]
    show ?thesis
    proof (cases q)
      case (Inl e)
      with law kill have "view w1 t = view w t" by (intro view_cong) auto
      with kill Inl show ?thesis by (auto intro: steps_refl)
    next
      case (Inr x)
      with law kill have run': "running (w_docker w1) = (running (w_docker w))(?c := None)" by simp
      with kill have "view w1 t = (view w t)\<lparr>s_running := (s_running (view w t))(?c := None)\<rparr>"
        by (simp add: world_view_def)
      then have "sys_steps {Stop} (view w t) (view w1 t)"
        using sys_step.stop [of "view w t" ?c] by (intro sys_steps_one) auto
      moreover have "container_stopped (running (w_docker w1)) j"
        using run' by (auto simp: container_stopped_def)
      ultimately show ?thesis using kill by simp
    qed
  qed
  then show "w_jobs w1 = w_jobs w" "w_users w1 = w_users w" "w_objects w1 = w_objects w"
    "sys_steps {Stop} (view w t) (view w1 t)"
    "r = Inr u \<Longrightarrow> monitored (j_status j) \<Longrightarrow> container_stopped (running (w_docker w1)) j"
    by blast+
qed

definition cancelled_version :: "datetime \<Rightarrow> Job \<Rightarrow> Job" where
  "cancelled_version now j = j\<lparr>j_status := CANCELLED, j_updated_at := now\<rparr>"

lemma cancelled_version_id [simp]: "j_id (cancelled_version now j) = j_id j"
  by (simp add: cancelled_version_def)

lemma cancel_refines:
  assumes "world_ok w" and "distinct (map j_id js)"
    and "\<forall>j \<in> set js. jobs_of (w_jobs w) (j_id j) = Some j \<and> j_status j \<in> set ACTIVE_STATUSES"
    and "cancel_requested_jobs R D workdir now js w = (r, w')"
  shows "world_ok w' \<and> w_users w' = w_users w \<and> w_objects w' = w_objects w \<and>
    sys_steps {Stop, Cancel} (view w now) (view w' now) \<and>
    (\<forall>cs. r = Inr cs \<longrightarrow> cs = map (cancelled_version now) (filter j_cancel_requested js) \<and>
       jobs_of (w_jobs w') = store_all j_id cs (jobs_of (w_jobs w)))"
  using assms
proof (induction js arbitrary: w r)
  case (Cons j js)
  show ?case
  proof (cases "j_cancel_requested j")
    case False
    with Cons show ?thesis by simp
  next
    case True
    obtain q w1 where q: "stop_container D workdir j w = (q, w1)" by fastforce
    note st = stop_container_refines [OF q]
    have ok1: "world_ok w1" using Cons.prems(1) st by (simp add: world_ok_def)
    have steps1: "sys_steps {Stop, Cancel} (view w now) (view w1 now)"
      using st(4) [of now] by (rule sys_steps_mono) simp
    show ?thesis
    proof (cases q)
      case (Inl e)
      with Cons.prems(4) True q have "r = Inl e" "w' = w1" by simp_all
      with ok1 steps1 st show ?thesis by simp
    next
      case (Inr u)
      have j: "jobs_of (w_jobs w1) (j_id j) = Some j" "j_status j \<in> set ACTIVE_STATUSES"
        using Cons.prems(3) st by simp_all
      then have can: "can_transition (j_status j) CANCELLED" by (auto simp: status_simps)
      let ?j = "cancelled_version now j" and ?w2 = "write_job R (cancelled_version now j) w1"
      have tr: "transition j CANCELLED now = Inr ?j"
        using can by (simp add: cancelled_version_def)
      obtain r' where rec: "cancel_requested_jobs R D workdir now js ?w2 = (r', w')"
        and r: "r = and_then r' (\<lambda>l. Inr (?j # l))"
        using Cons.prems(4) True q Inr tr
        by (cases "cancel_requested_jobs R D workdir now js ?w2") (auto simp: then_do_def split: sum.splits)
      have jobs2: "jobs_of (w_jobs ?w2) = (jobs_of (w_jobs w))(j_id j \<mapsto> ?j)"
        using ok1 st by (simp add: world_ok_def update_job_law)
      have "sys_step Cancel (view w1 now) (put_job ?j now (view w1 now))"
        using j tr True st(5) [OF Inr] by (intro sys_step.cancel) auto
      then have step: "sys_steps {Stop, Cancel} (view w1 now) (view ?w2 now)"
        unfolding view_write [OF ok1, of ?j now now] by (rule sys_steps_one) simp
      have "\<forall>i \<in> set js. jobs_of (w_jobs ?w2) (j_id i) = Some i \<and> j_status i \<in> set ACTIVE_STATUSES"
        using Cons.prems(2,3) jobs2 by (auto simp: image_iff)
      from Cons.IH [OF _ _ this rec] ok1 Cons.prems(2)
      have IH: "world_ok w' \<and> w_users w' = w_users ?w2 \<and> w_objects w' = w_objects ?w2 \<and>
        sys_steps {Stop, Cancel} (view ?w2 now) (view w' now) \<and>
        (\<forall>cs. r' = Inr cs \<longrightarrow> cs = map (cancelled_version now) (filter j_cancel_requested js) \<and>
           jobs_of (w_jobs w') = store_all j_id cs (jobs_of (w_jobs ?w2)))"
        by simp
      then have "sys_steps {Stop, Cancel} (view w now) (view w' now)"
        using steps1 step by (blast intro: sys_steps_trans)
      with IH st True jobs2 r show ?thesis by (auto simp: and_then_Inr_iff)
    qed
  qed
qed (auto intro: steps_refl)

lemma process_cancellations_refines:
  assumes ok: "world_ok w" and run: "process_cancellations R D workdir now w = (r, w')"
  shows "world_ok w' \<and> w_users w' = w_users w \<and> w_objects w' = w_objects w \<and>
    sys_steps {Stop, Cancel} (view w now) (view w' now)"
    and "r = Inr cs \<Longrightarrow> jobs_of (w_jobs w') =
      (\<lambda>k. case jobs_of (w_jobs w) k of
         None \<Rightarrow> None
       | Some j \<Rightarrow> Some (if j_cancel_requested j \<and> j_status j \<in> set ACTIVE_STATUSES then cancelled_version now j else j))"
proof -
  have wf: "wf_jobs (w_jobs w)" using ok by (simp add: world_ok_def)
  obtain js where js: "jr_list_by_statuses R (w_jobs w) CANCELLABLE_STATUSES = Inr js"
    using wf by (rule listed_by_statuses)
  have loop: "cancel_requested_jobs R D workdir now js w = (r, w')"
    using run js by (simp add: process_cancellations_def)
  have active: "CANCELLABLE_STATUSES = ACTIVE_STATUSES"
    by (simp add: CANCELLABLE_STATUSES_def ACTIVE_STATUSES_def)
  have mem: "\<forall>j \<in> set js. jobs_of (w_jobs w) (j_id j) = Some j \<and> j_status j \<in> set ACTIVE_STATUSES"
    using list_by_statuses_mem [OF wf js] by (simp add: active)
  have dist: "distinct (map j_id js)" using wf js by (rule list_by_statuses_distinct)
  note spec = cancel_refines [OF ok dist mem loop]
  then show "world_ok w' \<and> w_users w' = w_users w \<and> w_objects w' = w_objects w \<and>
    sys_steps {Stop, Cancel} (view w now) (view w' now)" by blast
  assume "r = Inr cs"
  with spec have cs: "cs = map (cancelled_version now) (filter j_cancel_requested js)"
    and jobs: "jobs_of (w_jobs w') = store_all j_id cs (jobs_of (w_jobs w))" by blast+
  have dcs: "distinct (map j_id cs)" using dist by (simp add: cs comp_def distinct_map_filterI)
  have "store_all j_id cs (jobs_of (w_jobs w)) k = (case jobs_of (w_jobs w) k of
         None \<Rightarrow> None
       | Some j \<Rightarrow> Some (if j_cancel_requested j \<and> j_status j \<in> set ACTIVE_STATUSES then cancelled_version now j else j))" for k
  proof (cases "\<exists>j. jobs_of (w_jobs w) k = Some j \<and> j_cancel_requested j \<and> j_status j \<in> set ACTIVE_STATUSES")
    case True
    then obtain j where j: "jobs_of (w_jobs w) k = Some j" "j_cancel_requested j" "j_status j \<in> set ACTIVE_STATUSES"
      by blast
    then have "j \<in> set js" using list_by_statuses_complete [OF wf js] by (simp add: active)
    with j have "cancelled_version now j \<in> set cs" by (simp add: cs)
    from store_all_mem [OF dcs this] j keyedD [OF jobs_keyed [OF wf] j(1)] show ?thesis by simp
  next
    case False
    then have "k \<notin> j_id ` set cs" using mem by (auto simp: cs)
    with False show ?thesis by (auto simp: store_all_other split: option.splits)
  qed
  with jobs show "jobs_of (w_jobs w') =
      (\<lambda>k. case jobs_of (w_jobs w) k of
         None \<Rightarrow> None
       | Some j \<Rightarrow> Some (if j_cancel_requested j \<and> j_status j \<in> set ACTIVE_STATUSES then cancelled_version now j else j))"
    by auto
qed

subsection \<open>The completion monitor\<close>

definition stored :: "('j, 'u, 'o, 'd) world \<Rightarrow> Job \<Rightarrow> bool" where
  "stored w j \<longleftrightarrow> jobs_of (w_jobs w) (j_id j) = Some j"

lemma stored_write: "world_ok w \<Longrightarrow> stored (write_job R j w) j"
  by (simp add: stored_def world_ok_def update_job_law)

lemma write_step:
  assumes "world_ok w" and "sys_step e (view w t) (put_job j t (view w t))"
  shows "sys_steps {e} (view w t) (view (write_job R j w) t)"
  unfolding view_write [OF assms(1), of j t t] using assms(2) by (rule sys_steps_one) simp

lemma start_training_refines:
  assumes ok: "world_ok w" and j: "stored w j" "monitored (j_status j)"
    and run: "start_training R t j w = (r, w1)"
  shows "\<exists>j1. r = Inr j1 \<and> j_status j1 = TRAINING \<and> stored w1 j1 \<and> world_ok w1 \<and>
    j_id j1 = j_id j \<and> j_container_id j1 = j_container_id j \<and> w_docker w1 = w_docker w \<and>
    w_fs w1 = w_fs w \<and> w_objects w1 = w_objects w \<and> w_users w1 = w_users w \<and>
    sys_steps {Train} (view w t) (view w1 t)"
proof (cases "j_status j = INITIALIZING")
  case True
  let ?j = "j\<lparr>j_status := TRAINING, j_updated_at := t\<rparr>"
  have tr: "transition j TRAINING t = Inr ?j" using True by (simp add: status_simps)
  have "sys_step Train (view w t) (put_job ?j t (view w t))"
    using j True tr by (intro sys_step.train) (auto simp: stored_def)
  from write_step [OF ok this] have "sys_steps {Train} (view w t) (view (write_job R ?j w) t)" .
  moreover have "r = Inr ?j" "w1 = write_job R ?j w" using run True tr by (simp_all add: start_training_def)
  ultimately show ?thesis using stored_write [OF ok, of ?j] ok by (intro exI [of _ ?j]) simp
next
  case False
  with j run ok show ?thesis by (auto simp: start_training_def monitored_def intro: steps_refl)
qed

lemma record_progress_refines:
  assumes ok: "world_ok w" and j: "stored w j" "j_status j = TRAINING"
    and run: "record_progress R t j p (w_jobs w) = (j1, jobs)"
  shows "stored (w\<lparr>w_jobs := jobs\<rparr>) j1 \<and> j_status j1 = TRAINING \<and> world_ok (w\<lparr>w_jobs := jobs\<rparr>) \<and>
    j_id j1 = j_id j \<and> j_container_id j1 = j_container_id j \<and>
    sys_steps {Report} (view w t) (view (w\<lparr>w_jobs := jobs\<rparr>) t)"
proof (cases "progress_changed (j_progress j) p")
  case True
  let ?j = "j\<lparr>j_progress := Some p, j_heartbeat_at := Some t\<rparr>"
  have "sys_step Report (view w t) (put_job ?j t (view w t))"
    using j True by (intro sys_step.report) (auto simp: stored_def)
  from write_step [OF ok this] stored_write [OF ok, of ?j] run True ok j world_ok_write [OF ok, of ?j]
  show ?thesis by (auto simp: record_progress_def write_job_def Let_def)
next
  case False
  with j run ok show ?thesis by (auto simp: record_progress_def intro: steps_refl)
qed

lemma mark_alive_refines:
  assumes ok: "world_ok w" and j: "stored w j" "j_status j = INITIALIZING"
    and run: "mark_container_alive R t j (w_jobs w) = (j1, jobs)"
  shows "stored (w\<lparr>w_jobs := jobs\<rparr>) j1 \<and> j_status j1 = INITIALIZING \<and> world_ok (w\<lparr>w_jobs := jobs\<rparr>) \<and>
    j_id j1 = j_id j \<and> j_container_id j1 = j_container_id j \<and>
    sys_steps {Alive} (view w t) (view (w\<lparr>w_jobs := jobs\<rparr>) t)"
proof -
  let ?j = "j\<lparr>j_heartbeat_at := Some t\<rparr>"
  have "sys_step Alive (view w t) (put_job ?j t (view w t))"
    using j by (intro sys_step.alive) (auto simp: stored_def)
  from write_step [OF ok this] stored_write [OF ok, of ?j] run ok j world_ok_write [OF ok, of ?j]
  show ?thesis by (auto simp: mark_container_alive_def write_job_def Let_def)
qed

abbreviation "observe_events \<equiv> {Pass, Train, Report, Alive}"

lemma observe_refines:
  assumes ok: "world_ok w" and j: "stored w j" "monitored (j_status j)"
    and time: "t \<le> now 0" "now 0 \<le> now 1"
    and run: "observe_job R now j progress exit_code w = (r, w1)"
  shows "\<exists>j1. r = Inr j1 \<and> stored w1 j1 \<and> monitored (j_status j1) \<and> world_ok w1 \<and>
    j_id j1 = j_id j \<and> j_container_id j1 = j_container_id j \<and> w_docker w1 = w_docker w \<and>
    sys_steps observe_events (view w t) (view w1 (now 1))"
proof (cases progress)
  case None
  have p: "sys_steps observe_events (view w t) (view w (now 1))" using time by (intro pass_view) auto
  show ?thesis
  proof (cases "j_status j = INITIALIZING \<and> exit_code = None")
    case True
    obtain j1 jobs where m: "mark_container_alive R (now 1) j (w_jobs w) = (j1, jobs)" by fastforce
    note ref = mark_alive_refines [OF ok j(1) conjunct1 [OF True] m]
    then have "sys_steps {Alive} (view w (now 1)) (view (w\<lparr>w_jobs := jobs\<rparr>) (now 1))" by blast
    then have "sys_steps observe_events (view w (now 1)) (view (w\<lparr>w_jobs := jobs\<rparr>) (now 1))"
      by (rule sys_steps_mono) simp
    from this p have "sys_steps observe_events (view w t) (view (w\<lparr>w_jobs := jobs\<rparr>) (now 1))"
      by (rule sys_steps_trans)
    moreover have "r = Inr j1" "w1 = w\<lparr>w_jobs := jobs\<rparr>"
      using run None True m by (simp_all add: observe_job_def)
    ultimately show ?thesis using ref by simp
  next
    case False
    with run None have "r = Inr j" "w1 = w" by (simp_all add: observe_job_def)
    with p ok j show ?thesis by auto
  qed
next
  case (Some p)
  obtain q w2 where q: "start_training R (now 0) j w = (q, w2)" by fastforce
  from start_training_refines [OF ok j q] obtain j2 where j2: "q = Inr j2" "j_status j2 = TRAINING" "stored w2 j2"
      "world_ok w2" "j_id j2 = j_id j" "j_container_id j2 = j_container_id j" "w_docker w2 = w_docker w"
    and st: "sys_steps {Train} (view w (now 0)) (view w2 (now 0))" by blast
  obtain j1 jobs where m: "record_progress R (now 1) j2 p (w_jobs w2) = (j1, jobs)" by fastforce
  note ref = record_progress_refines [OF j2(4) j2(3) j2(2) m]
  have a: "sys_steps observe_events (view w t) (view w (now 0))" using time by (intro pass_view) auto
  have b: "sys_steps observe_events (view w (now 0)) (view w2 (now 0))"
    using st by (rule sys_steps_mono) simp
  have c: "sys_steps observe_events (view w2 (now 0)) (view w2 (now 1))" using time by (intro pass_view) auto
  have "sys_steps {Report} (view w2 (now 1)) (view (w2\<lparr>w_jobs := jobs\<rparr>) (now 1))" using ref by blast
  then have d: "sys_steps observe_events (view w2 (now 1)) (view (w2\<lparr>w_jobs := jobs\<rparr>) (now 1))"
    by (rule sys_steps_mono) simp
  have "sys_steps observe_events (view w t) (view (w2\<lparr>w_jobs := jobs\<rparr>) (now 1))"
    by (rule sys_steps_trans [OF d sys_steps_trans [OF c sys_steps_trans [OF b a]]])
  moreover have "r = Inr j1" "w1 = w2\<lparr>w_jobs := jobs\<rparr>"
    using run Some q j2(1) m by (simp_all add: observe_job_def)
  ultimately show ?thesis using ref j2 by simp
qed

lemma upload_attempts_refines:
  assumes j: "stored w j" "j_status j = TRAINING"
    and run: "upload_attempts (wd_object_storage E) (checkpoint_object_path j) zp fs n (w_objects w) = (b, objects)"
  shows "sys_steps {Upload} (view w t) (view (w\<lparr>w_objects := objects\<rparr>) t) \<and>
    (b \<longrightarrow> objects_of objects (checkpoint_object_path j) \<noteq> None)"
  using j run
proof (induction n arbitrary: w)
  case 0
  then show ?case by (auto intro: steps_refl)
next
  case (Suc n)
  obtain r o' where r: "os_upload_file (wd_object_storage E) (checkpoint_object_path j) zp fs (w_objects w) = (r, o')"
    by fastforce
  note law = upload_law [OF r]
  show ?case
  proof (cases r)
    case (Inl e)
    with law have same: "view (w\<lparr>w_objects := o'\<rparr>) t = view w t" by (intro view_cong) simp_all
    from Suc.prems(3) r Inl have rec: "upload_attempts (wd_object_storage E) (checkpoint_object_path j) zp fs n
        (w_objects (w\<lparr>w_objects := o'\<rparr>)) = (b, objects)" by simp
    from Suc.IH [OF _ Suc.prems(2) rec] Suc.prems(1) show ?thesis
      by (simp add: stored_def same)
  next
    case (Inr u)
    with law obtain x where x: "objects_of o' = (objects_of (w_objects w))(checkpoint_object_path j \<mapsto> x)" by auto
    have "b" "objects = o'" using Suc.prems(3) r Inr by simp_all
    moreover have "view (w\<lparr>w_objects := o'\<rparr>) t =
        (view w t)\<lparr>s_objects := (s_objects (view w t))(checkpoint_object_path j \<mapsto> x)\<rparr>"
      by (simp add: world_view_def x)
    moreover have "sys_step Upload (view w t)
        ((view w t)\<lparr>s_objects := (s_objects (view w t))(checkpoint_object_path j \<mapsto> x)\<rparr>)"
      using Suc.prems(1,2) by (intro sys_step.upload) (auto simp: stored_def)
    ultimately show ?thesis using x by (auto intro: sys_steps_one)
  qed
qed

lemma view_cleanup [simp]: "view (cleanup_job_dir workdir j w) t = view w t"
  by (simp add: cleanup_job_dir_def world_view_def)

lemma world_ok_cleanup [simp]: "world_ok (cleanup_job_dir workdir j w) = world_ok w"
  by (simp add: cleanup_job_dir_def world_ok_def)

lemma mark_failed_refines:
  assumes ok: "world_ok w" and j: "stored w j" "j_status j = TRAINING" "container_stopped (running (w_docker w)) j"
    and run: "mark_failed R workdir t j m cleanup w = (r, w')"
  shows "world_ok w' \<and> sys_steps {Fail} (view w t) (view w' t) \<and>
    (\<exists>j'. r = Inr j' \<and> j_status j' = FAILED \<and> j_error_message j' = Some m \<and> j_id j' = j_id j \<and>
       jobs_of (w_jobs w') = (jobs_of (w_jobs w))(j_id j \<mapsto> j'))"
proof -
  let ?m = "j\<lparr>j_status := FAILED, j_updated_at := t\<rparr>"
  let ?j = "j\<lparr>j_status := FAILED, j_updated_at := t, j_error_message := Some m\<rparr>"
  have tr: "transition j FAILED t = Inr ?m" using j by (simp add: status_simps)
  have "sys_step Fail (view w t) (put_job (?m\<lparr>j_error_message := Some m\<rparr>) t (view w t))"
    using j tr by (intro sys_step.fail) (auto simp: stored_def)
  then have step: "sys_steps {Fail} (view w t) (view (write_job R ?j w) t)"
    by (intro write_step [OF ok]) simp
  have "jobs_of (w_jobs (write_job R ?j w)) = (jobs_of (w_jobs w))(j_id j \<mapsto> ?j)"
    using ok by (simp add: world_ok_def update_job_law)
  with step run tr ok show ?thesis
    by (auto simp: mark_failed_def Let_def) (auto simp: cleanup_job_dir_def)
qed

lemma mark_completed_refines:
  assumes ok: "world_ok w" and j: "stored w j" "j_status j = TRAINING" "container_stopped (running (w_docker w)) j"
    and obj: "objects_of (w_objects w) (checkpoint_object_path j) \<noteq> None"
    and run: "mark_completed R workdir t j (checkpoint_object_path j) w = (r, w')"
  shows "world_ok w' \<and> sys_steps {Complete} (view w t) (view w' t) \<and>
    (\<exists>j'. r = Inr j' \<and> j_status j' = COMPLETED \<and> j_checkpoint_gcs_path j' = Some (checkpoint_object_path j) \<and>
       j_id j' = j_id j \<and> jobs_of (w_jobs w') = (jobs_of (w_jobs w))(j_id j \<mapsto> j'))"
proof -
  let ?m = "j\<lparr>j_status := COMPLETED, j_updated_at := t\<rparr>"
  let ?j = "j\<lparr>j_status := COMPLETED, j_updated_at := t, j_checkpoint_gcs_path := Some (checkpoint_object_path j)\<rparr>"
  have tr: "transition j COMPLETED t = Inr ?m" using j by (simp add: status_simps)
  have "sys_step Complete (view w t)
      (put_job (?m\<lparr>j_checkpoint_gcs_path := Some (checkpoint_object_path j)\<rparr>) t (view w t))"
    using j tr obj by (intro sys_step.complete) (auto simp: stored_def)
  then have step: "sys_steps {Complete} (view w t) (view (write_job R ?j w) t)"
    by (intro write_step [OF ok]) simp
  have "jobs_of (w_jobs (write_job R ?j w)) = (jobs_of (w_jobs w))(j_id j \<mapsto> ?j)"
    using ok by (simp add: world_ok_def update_job_law)
  with step run tr ok show ?thesis
    by (auto simp: mark_completed_def Let_def) (auto simp: cleanup_job_dir_def)
qed

abbreviation "finish_events \<equiv> {Pass, Train, Fail, Upload, Complete}"

lemma finish_failed_refines:
  assumes ok: "world_ok w" and j: "stored w j" "j_status j = TRAINING" "container_stopped (running (w_docker w)) j"
    and run: "finish_failed_container E t j code w = (r, w')"
  shows "world_ok w' \<and> sys_steps finish_events (view w t) (view w' t) \<and>
    (\<forall>j'. r = Inr j' \<longrightarrow> j_status j' = FAILED \<and> j_id j' = j_id j)"
proof (cases "\<exists>e. r = Inl e \<and> w' = w")
  case True
  with ok show ?thesis by (auto intro: steps_refl)
next
  case False
  with run obtain m where "mark_failed R (ws_workdir (wd_settings E)) t j m True w = (r, w')"
    by (fastforce simp: finish_failed_container_def split: sum.splits)
  from mark_failed_refines [OF ok j this] show ?thesis
    by (auto intro: sys_steps_mono [of "{Fail}"])
qed

lemma finish_successful_refines:
  assumes ok: "world_ok w" and j: "stored w j" "j_status j = TRAINING" "container_stopped (running (w_docker w)) j"
    and run: "finish_successful_container E t j w = (r, w')"
  shows "world_ok w' \<and> sys_steps finish_events (view w t) (view w' t) \<and>
    (\<forall>j'. r = Inr j' \<longrightarrow> j_status j' \<in> {COMPLETED, FAILED} \<and> j_id j' = j_id j)"
proof -
  let ?wd = "ws_workdir (wd_settings E)" and ?zip = "output_dir (ws_workdir (wd_settings E)) j @ [''checkpoint.zip'']"
  obtain q fs where q: "package_checkpoint (wd_deflated_size E) (checkpoint_dir ?wd j) ?zip (w_fs w) = (q, fs)"
    by fastforce
  have ok': "world_ok (w\<lparr>w_fs := fs, w_objects := os\<rparr>)" "world_ok (w\<lparr>w_fs := fs\<rparr>)" for os
    using ok by (simp_all add: world_ok_def)
  have st': "stored (w\<lparr>w_fs := fs, w_objects := os\<rparr>) j" "stored (w\<lparr>w_fs := fs\<rparr>) j" for os
    using j by (simp_all add: stored_def)
  show ?thesis
  proof (cases q)
    case (Inl e)
    with run q have "mark_failed R ?wd t j (''Failed to package checkpoint: '' @ exn_text e) True (w\<lparr>w_fs := fs\<rparr>) = (r, w')"
      by (simp add: finish_successful_container_def Let_def)
    note ref = mark_failed_refines [OF ok'(2) st'(2) j(2) _ this]
    have "view (w\<lparr>w_fs := fs\<rparr>) t = view w t" by (intro view_cong) simp_all
    with ref j show ?thesis by (auto intro: sys_steps_mono [of "{Fail}"])
  next
    case (Inr u)
    obtain b os where up: "upload_with_retries (wd_object_storage E) (wd_upload_retries E)
        (checkpoint_object_path j) ?zip fs (w_objects w) = (b, os)" by fastforce
    note ref1 = upload_attempts_refines [OF j(1,2) up [unfolded upload_with_retries_def], of t]
    let ?w = "w\<lparr>w_fs := fs, w_objects := os\<rparr>"
    have same: "view (w\<lparr>w_objects := os\<rparr>) t = view ?w t" by (intro view_cong) simp_all
    have "sys_steps {Upload} (view w t) (view ?w t)" using ref1 same by simp
    then have s1: "sys_steps finish_events (view w t) (view ?w t)" by (rule sys_steps_mono) simp
    show ?thesis
    proof (cases b)
      case True
      with run q Inr up have m: "mark_completed R ?wd t j (checkpoint_object_path j) ?w = (r, w')"
        by (simp add: finish_successful_container_def Let_def)
      have "objects_of (w_objects ?w) (checkpoint_object_path j) \<noteq> None" using ref1 True by simp
      note ref2 = mark_completed_refines [OF ok'(1) st'(1) j(2) _ this m]
      with j have "sys_steps {Complete} (view ?w t) (view w' t)" by simp
      then have "sys_steps finish_events (view ?w t) (view w' t)" by (rule sys_steps_mono) simp
      from sys_steps_trans [OF this s1] ref2 j show ?thesis by auto
    next
      case False
      with run q Inr up have m: "mark_failed R ?wd t j UPLOAD_FAILED_MESSAGE False ?w = (r, w')"
        by (simp add: finish_successful_container_def Let_def)
      note ref2 = mark_failed_refines [OF ok'(1) st'(1) j(2) _ m]
      with j have "sys_steps {Fail} (view ?w t) (view w' t)" by simp
      then have "sys_steps finish_events (view ?w t) (view w' t)" by (rule sys_steps_mono) simp
      from sys_steps_trans [OF this s1] ref2 j show ?thesis by auto
    qed
  qed
qed

lemma finalize_refines:
  assumes ok: "world_ok w" and j: "stored w j" "monitored (j_status j)" "container_stopped (running (w_docker w)) j"
    and time: "t \<le> now 2" "now 2 \<le> now 3"
    and run: "finalize_job E now j code w = (r, w')"
  shows "world_ok w' \<and> sys_steps finish_events (view w t) (view w' (now 3)) \<and>
    (\<forall>j'. r = Inr j' \<longrightarrow> j_status j' \<in> {COMPLETED, FAILED} \<and> j_id j' = j_id j)"
proof -
  obtain q w1 where q: "start_training R (now 2) j w = (q, w1)" by fastforce
  from start_training_refines [OF ok j(1,2) q] obtain j1 where j1: "q = Inr j1" "j_status j1 = TRAINING"
      "stored w1 j1" "world_ok w1" "j_id j1 = j_id j" "j_container_id j1 = j_container_id j" "w_docker w1 = w_docker w"
    and st: "sys_steps {Train} (view w (now 2)) (view w1 (now 2))" by blast
  have stopped: "container_stopped (running (w_docker w1)) j1" using j(3) j1(6,7) by (simp add: container_stopped_def)
  have a: "sys_steps finish_events (view w t) (view w (now 2))" using time by (intro pass_view) auto
  have b: "sys_steps finish_events (view w (now 2)) (view w1 (now 2))" using st by (rule sys_steps_mono) simp
  have c: "sys_steps finish_events (view w1 (now 2)) (view w1 (now 3))" using time by (intro pass_view) auto
  have d: "world_ok w' \<and> sys_steps finish_events (view w1 (now 3)) (view w' (now 3)) \<and>
    (\<forall>j'. r = Inr j' \<longrightarrow> j_status j' \<in> {COMPLETED, FAILED} \<and> j_id j' = j_id j1)"
  proof (cases "code = 0")
    case True
    with run q j1(1) have "finish_successful_container E (now 3) j1 w1 = (r, w')"
      by (simp add: finalize_job_def)
    from finish_successful_refines [OF j1(4,3,2) stopped this] show ?thesis .
  next
    case False
    with run q j1(1) have "finish_failed_container E (now 3) j1 code w1 = (r, w')"
      by (simp add: finalize_job_def)
    from finish_failed_refines [OF j1(4,3,2) stopped this] show ?thesis by blast
  qed
  then have "sys_steps finish_events (view w1 (now 3)) (view w' (now 3))" by blast
  from sys_steps_trans [OF this sys_steps_trans [OF c sys_steps_trans [OF b a]]] d j1(5)
  show ?thesis by metis
qed

abbreviation "completion_events \<equiv> {Pass, Train, Report, Alive, Fail, Upload, Complete}"

theorem completion_tick_refines:
  assumes ok: "world_ok w" and time: "t \<le> now 0" "now 0 \<le> now 1" "now 1 \<le> now 2" "now 2 \<le> now 3"
    and run: "JobCompletionMonitor_tick E now w = (r, w')"
  shows "world_ok w' \<and> sys_steps completion_events (view w t) (view w' (now 3))"
proof -
  have wf: "wf_jobs (w_jobs w)" using ok by (simp add: world_ok_def)
  have idle: "sys_steps completion_events (view w t) (view w (now 3))" using time by (intro pass_view) auto
  obtain js where js: "jr_list_by_statuses R (w_jobs w) COMPLETION_MONITORED_STATUSES = Inr js"
    using wf by (rule listed_by_statuses)
  show ?thesis
  proof (cases "w' = w")
    case True
    with ok idle show ?thesis by simp
  next
    case changed: False
    then obtain j rest where cons: "js = j # rest"
      using run js by (cases js) (auto simp: JobCompletionMonitor_tick_def)
    obtain progress exit_code where
      ex: "(if truthy (j_container_id j) then dc_get_exit_code D (w_docker w) (the (j_container_id j)) else Inr None) = Inr exit_code"
      and body: "then_do (observe_job R now j progress exit_code w) (\<lambda>job w1.
                      case exit_code of
                        None \<Rightarrow> (Inr (Some job), w1)
                      | Some code \<Rightarrow>
                          then_do (finalize_job E now job code w1) (\<lambda>job w2. (Inr (Some job), w2))) = (r, w')"
      using run js cons changed by (auto simp: JobCompletionMonitor_tick_def split: sum.splits)
    have j: "stored w j" "monitored (j_status j)"
      using list_by_statuses_mem [OF wf js, of j] cons
      by (auto simp: stored_def monitored_def COMPLETION_MONITORED_STATUSES_def)
    obtain q w1 where q: "observe_job R now j progress exit_code w = (q, w1)" by fastforce
    from observe_refines [OF ok j time(1,2) q] obtain j1 where j1: "q = Inr j1" "stored w1 j1"
        "monitored (j_status j1)" "world_ok w1" "j_id j1 = j_id j" "j_container_id j1 = j_container_id j"
        "w_docker w1 = w_docker w"
      and obs: "sys_steps observe_events (view w t) (view w1 (now 1))" by blast
    have a: "sys_steps completion_events (view w t) (view w1 (now 1))" using obs by (rule sys_steps_mono) simp
    show ?thesis
    proof (cases exit_code)
      case None
      with body q j1(1) have "w' = w1" by simp
      moreover have "sys_steps completion_events (view w1 (now 1)) (view w1 (now 3))"
        using time by (intro pass_view) auto
      ultimately show ?thesis using j1(4) sys_steps_trans [OF _ a] by blast
    next
      case (Some code)
      have "truthy (j_container_id j)" using ex Some by (auto split: if_splits)
      with ex Some have "dc_get_exit_code D (w_docker w) (the (j_container_id j)) = Inr (Some code)" by simp
      then have "running (w_docker w) (the (j_container_id j)) = None" by (rule exit_law)
      then have stopped: "container_stopped (running (w_docker w1)) j1"
        using j1(6,7) by (auto simp: container_stopped_def)
      obtain q2 where fin: "finalize_job E now j1 code w1 = (q2, w')"
        using body q j1(1) Some by (cases "finalize_job E now j1 code w1") (auto simp: then_do_def split: sum.splits)
      note ref = finalize_refines [OF j1(4) j1(2,3) stopped time(3,4) fin]
      then have "sys_steps finish_events (view w1 (now 1)) (view w' (now 3))" by blast
      then have "sys_steps completion_events (view w1 (now 1)) (view w' (now 3))" by (rule sys_steps_mono) simp
      from sys_steps_trans [OF this a] ref show ?thesis by blast
    qed
  qed
qed

subsection \<open>The poller\<close>

lemma fetch_dataset_refines:
  assumes j: "j_source_type j = ZIP_UPLOAD \<longrightarrow> upload_path (j_source_ref j)"
    and run: "fetch_dataset E j w = (r, w1)"
  shows "w_jobs w1 = w_jobs w" "w_users w1 = w_users w" "w_docker w1 = w_docker w"
    and "sys_steps {DropUpload} (view w t) (view w1 t)"
proof -
  obtain q objects fs where q: "fetch_for_job (wd_hf_hub_client E) (wd_object_storage E)
      (path_of_string (ws_hf_cache_dir (wd_settings E))) (ws_hf_cache_max_bytes (wd_settings E))
      j (path_of_string (job_dir_text (ws_workdir (wd_settings E)) j)) (w_objects w, w_fs w) = (q, (objects, fs))"
    by (metis surj_pair)
  have w1: "w1 = w\<lparr>w_objects := objects, w_fs := fs\<rparr>" using run q by (simp add: fetch_dataset_def)
  then show "w_jobs w1 = w_jobs w" "w_users w1 = w_users w" "w_docker w1 = w_docker w" by simp_all
  consider "objects = w_objects w" | "j_source_type j = ZIP_UPLOAD"
      "objects = snd (os_delete (wd_object_storage E) (j_source_ref j) (w_objects w))"
    using fetch_objects [of "wd_hf_hub_client E" "wd_object_storage E"
      "path_of_string (ws_hf_cache_dir (wd_settings E))" "ws_hf_cache_max_bytes (wd_settings E)" j
      "path_of_string (job_dir_text (ws_workdir (wd_settings E)) j)" "w_objects w" "w_fs w"] q
    by (auto split: sum.splits if_splits)
  then show "sys_steps {DropUpload} (view w t) (view w1 t)"
  proof cases
    case 1
    then have "view w1 t = view w t" unfolding w1 by (intro view_cong) simp_all
    then show ?thesis by (simp add: steps_refl)
  next
    case 2
    obtain x where "os_delete (wd_object_storage E) (j_source_ref j) (w_objects w) = (x, objects)"
      using 2 by (metis prod.collapse)
    note law = delete_law [OF this]
    show ?thesis
    proof (cases x)
      case (Inl e)
      with law have "view w1 t = view w t" unfolding w1 by (intro view_cong) simp_all
      then show ?thesis by (simp add: steps_refl)
    next
      case (Inr u)
      with law have "view w1 t = (view w t)\<lparr>s_objects := (s_objects (view w t))(j_source_ref j := None)\<rparr>"
        by (simp add: w1 world_view_def)
      then show ?thesis
        using sys_step.drop_upload [of "j_source_ref j" "view w t"] j 2 by (auto intro: sys_steps_one)
    qed
  qed
qed

lemma run_container_refines:
  assumes run: "run_container E spec w = (r, w1)"
  shows "w_jobs w1 = w_jobs w" "w_users w1 = w_users w" "w_objects w1 = w_objects w"
    and "r = Inl e \<Longrightarrow> running (w_docker w1) = running (w_docker w)"
    and "r = Inr c \<Longrightarrow> c \<noteq> [] \<and> running (w_docker w) c = None \<and>
      running (w_docker w1) = (running (w_docker w))(c \<mapsto> cs_labels spec)"
proof -
  obtain q d fs where q: "dc_run D spec (w_docker w, w_fs w) = (q, (d, fs))" by (metis surj_pair)
  then have r: "r = q" "w1 = w\<lparr>w_docker := d, w_fs := fs\<rparr>" using run by (simp_all add: run_container_def)
  then show "w_jobs w1 = w_jobs w" "w_users w1 = w_users w" "w_objects w1 = w_objects w" by simp_all
  show "r = Inl e \<Longrightarrow> running (w_docker w1) = running (w_docker w)"
    and "r = Inr c \<Longrightarrow> c \<noteq> [] \<and> running (w_docker w) c = None \<and>
      running (w_docker w1) = (running (w_docker w))(c \<mapsto> cs_labels spec)"
    using run_law [OF q] r by auto
qed

lemma fail_during_start_refines:
  assumes ok: "world_ok w" and j: "stored w j" "j_status j = INITIALIZING" "j_container_id j = None"
    and run: "fail_during_start R t j m w = (r, w')"
  shows "world_ok w' \<and> sys_steps {FailStart} (view w t) (view w' t)"
proof -
  let ?m = "j\<lparr>j_status := FAILED, j_updated_at := t\<rparr>"
  let ?j = "j\<lparr>j_status := FAILED, j_updated_at := t, j_error_message := Some m\<rparr>"
  have tr: "transition j FAILED t = Inr ?m" using j by (simp add: status_simps)
  have "sys_step FailStart (view w t) (put_job (?m\<lparr>j_error_message := Some m\<rparr>) t (view w t))"
    using j tr by (intro sys_step.fail_start) (auto simp: stored_def)
  then have "sys_steps {FailStart} (view w t) (view (write_job R ?j w) t)"
    by (intro write_step [OF ok]) simp
  moreover have "w' = write_job R ?j w" using run tr by (simp add: fail_during_start_def Let_def)
  ultimately show ?thesis using ok by simp
qed

abbreviation "launch_events \<equiv> {Pass, DropUpload, FailStart, Launch}"

lemma launch_refines:
  assumes ok: "world_ok w" and j: "stored w j" "j_status j = INITIALIZING" "j_container_id j = None"
    and c: "c \<noteq> []" "running (w_docker w) c = None"
    and w1: "w_jobs w1 = w_jobs w" "w_users w1 = w_users w" "w_objects w1 = w_objects w"
      "running (w_docker w1) = (running (w_docker w))(c \<mapsto> [(LEROBOT_JOB_ID_LABEL, j_id j)])"
  shows "sys_steps {Launch} (view w t) (view (write_job R (j\<lparr>j_container_id := Some c\<rparr>) w1) t)"
proof -
  let ?j = "j\<lparr>j_container_id := Some c\<rparr>"
  have ok1: "world_ok w1" using ok w1 by (simp add: world_ok_def)
  have "view w1 t = (view w t)\<lparr>s_running := (s_running (view w t))(c \<mapsto> [(LEROBOT_JOB_ID_LABEL, j_id j)])\<rparr>"
    using w1 by (simp add: world_view_def)
  moreover have "sys_step Launch (view w t) (put_job ?j (s_now (view w t))
      ((view w t)\<lparr>s_running := (s_running (view w t))(c \<mapsto> [(LEROBOT_JOB_ID_LABEL, j_id j)])\<rparr>))"
    using j c by (intro sys_step.launch) (auto simp: stored_def)
  ultimately show ?thesis
    unfolding view_write [OF ok1, of ?j t t] by (intro sys_steps_one) simp_all
qed

lemma finish_start_refines:
  assumes ok: "world_ok w" and j: "stored w j" "j_status j = INITIALIZING" "j_container_id j = None"
    and up: "j_source_type j = ZIP_UPLOAD \<longrightarrow> upload_path (j_source_ref j)"
    and time: "t \<le> now" and run: "finish_start E now j w = (r, w')"
  shows "world_ok w' \<and> sys_steps launch_events (view w t) (view w' now)"
proof -
  obtain q w1 where q: "fetch_dataset E j w = (q, w1)" by fastforce
  note f = fetch_dataset_refines [OF up q]
  have ok1: "world_ok w1" and j1: "stored w1 j" using ok j(1) f by (simp_all add: world_ok_def stored_def)
  have a: "sys_steps launch_events (view w t) (view w now)" using time by (intro pass_view) auto
  have b: "sys_steps launch_events (view w now) (view w1 now)" using f(4) by (rule sys_steps_mono) simp
  note ab = sys_steps_trans [OF b a]
  show ?thesis
  proof (cases q)
    case (Inl e)
    show ?thesis
    proof (cases "\<exists>m. e = DatasetFetchError m")
      case True
      then obtain m where "e = DatasetFetchError m" ..
      with Inl q run have "fail_during_start R now j (''Failed to fetch dataset: '' @ m) w1 = (r, w')"
        by (simp add: finish_start_def Let_def)
      note ref = fail_during_start_refines [OF ok1 j1 j(2,3) this]
      then have "sys_steps {FailStart} (view w1 now) (view w' now)" by blast
      then have "sys_steps launch_events (view w1 now) (view w' now)" by (rule sys_steps_mono) simp
      from sys_steps_trans [OF this ab] ref show ?thesis by blast
    next
      case False
      with Inl q run have "w' = w1" by (cases e) (simp_all add: finish_start_def)
      with ok1 ab show ?thesis by simp
    qed
  next
    case (Inr dataset)
    let ?spec = "build_container_spec (wd_settings E) j (job_dir_text (ws_workdir (wd_settings E)) j) dataset"
    have labels: "cs_labels ?spec = [(LEROBOT_JOB_ID_LABEL, j_id j)]"
      by (simp add: build_container_spec_def Let_def)
    obtain p w2 where p: "run_container E ?spec w1 = (p, w2)" by fastforce
    note rc = run_container_refines [OF p]
    have ok2: "world_ok w2" and j2: "stored w2 j" using ok1 j1 rc by (simp_all add: world_ok_def stored_def)
    show ?thesis
    proof (cases p)
      case (Inl e)
      with Inr q p run
      have "fail_during_start R now j (''Failed to start training container: '' @ exn_text e) w2 = (r, w')"
        by (simp add: finish_start_def Let_def)
      note ref = fail_during_start_refines [OF ok2 j2 j(2,3) this]
      have "view w2 now = view w1 now" using rc Inl by (intro view_cong) simp_all
      with ref have "sys_steps {FailStart} (view w1 now) (view w' now)" by simp
      then have "sys_steps launch_events (view w1 now) (view w' now)" by (rule sys_steps_mono) simp
      from sys_steps_trans [OF this ab] ref show ?thesis by blast
    next
      case (Inr c)
      have w': "w' = write_job R (j\<lparr>j_container_id := Some c\<rparr>) w2"
        using \<open>q = Inr dataset\<close> Inr q p run by (simp add: finish_start_def Let_def)
      have "sys_steps {Launch} (view w1 now) (view w' now)"
        unfolding w' using rc(5) [OF Inr] labels
        by (intro launch_refines [OF ok1 j1 j(2,3) _ _ rc(1-3)]) simp_all
      then have "sys_steps launch_events (view w1 now) (view w' now)" by (rule sys_steps_mono) simp
      from sys_steps_trans [OF this ab] ok2 show ?thesis by (simp add: w')
    qed
  qed
qed

lemma begin_start_refines:
  assumes ok: "world_ok w" and inv: "sys_ok (view w now)"
    and idle: "\<forall>k i. jobs_of (w_jobs w) k = Some i \<longrightarrow> \<not> monitored (j_status i)"
    and live: "\<forall>k i. jobs_of (w_jobs w) k = Some i \<longrightarrow> j_status i = QUEUED \<longrightarrow> \<not> j_cancel_requested i"
    and run: "begin_start E now w = (r, w1)"
  shows "world_ok w1 \<and> sys_steps {Claim} (view w now) (view w1 now) \<and>
    (\<forall>j1. r = Inr (Some j1) \<longrightarrow> stored w1 j1 \<and> j_status j1 = INITIALIZING \<and> j_container_id j1 = None \<and>
       (j_source_type j1 = ZIP_UPLOAD \<longrightarrow> upload_path (j_source_ref j1)))"
proof (cases "\<exists>j1. r = Inr (Some j1)")
  case False
  have "w1 = w"
    using run False by (auto simp: begin_start_def Let_def split: sum.splits list.splits option.splits)
  with ok False show ?thesis by (auto intro: steps_refl)
next
  case True
  have wf: "wf_jobs (w_jobs w)" and wfu: "wf_users (w_users w)" using ok by (simp_all add: world_ok_def)
  obtain j rest usr j' where list: "jr_list_by_statuses R (w_jobs w) [QUEUED] = Inr (j # rest)"
    and get: "ur_get (wd_user_repository E) (w_users w) (j_user_id j) = Inr (Some usr)"
    and tr: "transition j INITIALIZING now = Inr j'"
    and r: "r = Inr (Some (j'\<lparr>j_heartbeat_at := Some now\<rparr>))"
    and w1: "w1 = (write_job R (j'\<lparr>j_heartbeat_at := Some now\<rparr>) w)
      \<lparr>w_users := ur_update (wd_user_repository E) (record_job_started usr (date_of now)) (w_users w)\<rparr>"
    using run True by (auto simp: begin_start_def Let_def split: sum.splits list.splits option.splits)
  have j: "jobs_of (w_jobs w) (j_id j) = Some j" "j_status j = QUEUED"
    using list_by_statuses_mem [OF wf list] by auto
  have j': "j'\<lparr>j_heartbeat_at := Some now\<rparr> = claimed now j"
    using tr by (auto simp: transition_Inr_iff claimed_def)
  have oldest: "\<forall>k i. jobs_of (w_jobs w) k = Some i \<longrightarrow> j_status i = QUEUED \<longrightarrow> j_created_at j \<le> j_created_at i"
    using list_by_statuses_oldest [OF wf list] by auto
  have usr: "users_of (w_users w) (j_user_id j) = Some usr" using get wfu by (simp add: get_user_law)
  have "view w1 now = put_job (claimed now j) now ((view w now)\<lparr>s_users :=
      (s_users (view w now))(u_id usr \<mapsto> record_job_started usr (date_of now))\<rparr>)"
    using wf wfu by (simp add: w1 j' world_view_def put_job_def update_job_law update_user_law)
  moreover have "sys_step Claim (view w now) (put_job (claimed now j) now ((view w now)\<lparr>s_users :=
      (s_users (view w now))(u_id usr \<mapsto> record_job_started usr (date_of now))\<rparr>))"
    using j idle live oldest usr by (intro sys_step.claim) auto
  ultimately have step: "sys_steps {Claim} (view w now) (view w1 now)" by (intro sys_steps_one) simp_all
  have "job_ok (view w now) j" using inv j unfolding sys_ok_def jobs_ok_def by simp
  then have "j_container_id j = None" "j_source_type j = ZIP_UPLOAD \<longrightarrow> upload_path (j_source_ref j)"
    using j by (simp_all add: job_ok_def)
  moreover have "stored w1 (claimed now j)" using wf by (simp add: stored_def w1 j' update_job_law)
  moreover have "world_ok w1" using ok by (simp add: w1 world_ok_def update_job_wf update_user_wf)
  ultimately show ?thesis using step r j' by simp
qed

abbreviation "poller_events \<equiv> {Pass, Stop, Cancel, Claim, DropUpload, FailStart, Launch}"

theorem poller_tick_refines:
  assumes ok: "world_ok w" and inv: "sys_ok (view w t)"
    and time: "t \<le> now 0" "now 0 \<le> now 1" "now 1 \<le> now 2"
    and run: "JobPoller_tick E now w = (r, w')"
  shows "world_ok w' \<and> sys_steps poller_events (view w t) (view w' (now 2))"
proof -
  obtain q w1 where q: "process_cancellations R D (ws_workdir (wd_settings E)) (now 0) w = (q, w1)" by fastforce
  note pc = process_cancellations_refines [OF ok q]
  have ok1: "world_ok w1" using pc(1) by blast
  have wf1: "wf_jobs (w_jobs w1)" using ok1 by (simp add: world_ok_def)
  have a0: "sys_steps poller_events (view w t) (view w (now 0))" using time by (intro pass_view) auto
  have "sys_steps {Stop, Cancel} (view w (now 0)) (view w1 (now 0))" using pc(1) by blast
  then have "sys_steps poller_events (view w (now 0)) (view w1 (now 0))" by (rule sys_steps_mono) simp
  note a = sys_steps_trans [OF this a0]
  have p1: "sys_steps poller_events (view w1 (now 0)) (view w1 (now 1))" using time by (intro pass_view) auto
  note a1 = sys_steps_trans [OF p1 a]
  have p2: "sys_steps poller_events (view w1 (now 1)) (view w1 (now 2))" using time by (intro pass_view) auto
  note a2 = sys_steps_trans [OF p2 a1]
  show ?thesis
  proof (cases "w' = w1")
    case True
    with ok1 a2 show ?thesis by simp
  next
    case False
    then obtain cs where cs: "q = Inr cs" using run q by (cases q) (auto simp: JobPoller_tick_def)
    have empty: "jr_list_by_statuses R (w_jobs w1) ACTIVE_CONTAINER_STATUSES = Inr []"
      and start: "start_next_queued_job E now w1 = (r, w')"
      using run q cs False by (auto simp: JobPoller_tick_def split: sum.splits if_splits)
    have idle: "\<forall>k i. jobs_of (w_jobs w1) k = Some i \<longrightarrow> \<not> monitored (j_status i)"
      using empty unfolding list_by_statuses_empty_iff [OF wf1]
      by (auto simp: ACTIVE_CONTAINER_STATUSES_def monitored_def)
    have live: "\<forall>k i. jobs_of (w_jobs w1) k = Some i \<longrightarrow> j_status i = QUEUED \<longrightarrow> \<not> j_cancel_requested i"
      unfolding pc(2) [OF cs] by (auto simp: cancelled_version_def status_simps split: option.splits if_splits)
    have inv1: "sys_ok (view w1 (now 1))" using a1 inv by (rule steps_sys_ok)
    obtain b w2 where b: "begin_start E (now 1) w1 = (b, w2)" by fastforce
    note bs = begin_start_refines [OF ok1 inv1 idle live b]
    have "sys_steps {Claim} (view w1 (now 1)) (view w2 (now 1))" using bs by blast
    then have "sys_steps poller_events (view w1 (now 1)) (view w2 (now 1))" by (rule sys_steps_mono) simp
    note a3 = sys_steps_trans [OF this a1]
    show ?thesis
    proof (cases "\<exists>j. b = Inr (Some j)")
      case True
      then obtain j where j: "b = Inr (Some j)" ..
      then obtain r' where fin: "finish_start E (now 2) j w2 = (r', w')"
        using start b by (cases "finish_start E (now 2) j w2") (auto simp: start_next_queued_job_def then_do_def split: sum.splits)
      have "world_ok w2" "stored w2 j" "j_status j = INITIALIZING" "j_container_id j = None"
        "j_source_type j = ZIP_UPLOAD \<longrightarrow> upload_path (j_source_ref j)" using bs j by blast+
      note fs = finish_start_refines [OF this time(3) fin]
      then have "sys_steps launch_events (view w2 (now 1)) (view w' (now 2))" by blast
      then have "sys_steps poller_events (view w2 (now 1)) (view w' (now 2))" by (rule sys_steps_mono) simp
      from sys_steps_trans [OF this a3] fs show ?thesis by blast
    next
      case False
      then have "w' = w2"
        using start b by (auto simp: start_next_queued_job_def then_do_def split: sum.splits option.splits)
      moreover have "sys_steps poller_events (view w2 (now 1)) (view w2 (now 2))" using time by (intro pass_view) auto
      ultimately show ?thesis using bs sys_steps_trans [OF _ a3] by blast
    qed
  qed
qed

subsection \<open>Reconciliation after a restart\<close>

lemma kill_all_running:
  assumes "kill_all D cs d = (r, d')"
  shows "\<exists>n. running d' = (\<lambda>c. if c \<in> set (take n cs) then None else running d c) \<and>
    (\<forall>u. r = Inr u \<longrightarrow> n = length cs)"
  using assms
proof (induction cs arbitrary: d)
  case (Cons c cs)
  obtain q d1 where q: "dc_kill D c d = (q, d1)" by fastforce
  note law = kill_law [OF q]
  show ?case
  proof (cases q)
    case (Inl e)
    with Cons.prems q law have "running d' = running d" "r = Inl e" by auto
    then show ?thesis by (intro exI [of _ 0]) simp
  next
    case (Inr u)
    with Cons.prems q have "kill_all D cs d1 = (r, d')" by simp
    from Cons.IH [OF this] obtain n where
      n: "running d' = (\<lambda>c. if c \<in> set (take n cs) then None else running d1 c)" "\<forall>u. r = Inr u \<longrightarrow> n = length cs"
      by blast
    with law Inr show ?thesis by (intro exI [of _ "Suc n"]) auto
  qed
qed auto

definition tracked_ids :: "('j, 'u, 'o, 'd) world \<Rightarrow> string set" where
  "tracked_ids w = {c. c \<noteq> [] \<and> (\<exists>k j. jobs_of (w_jobs w) k = Some j \<and> monitored (j_status j) \<and>
     j_container_id j = Some c)}"

lemma tracked_container_ids_set:
  assumes "wf_jobs (w_jobs w)" and "jr_list_by_statuses R (w_jobs w) RECONCILED_STATUSES = Inr js"
  shows "set (tracked_container_ids js) = tracked_ids w"
proof
  show "set (tracked_container_ids js) \<subseteq> tracked_ids w"
    using list_by_statuses_mem [OF assms]
    by (fastforce simp: tracked_container_ids_def tracked_ids_def monitored_def RECONCILED_STATUSES_def truthy_def
        split: option.splits)
  show "tracked_ids w \<subseteq> set (tracked_container_ids js)"
    using list_by_statuses_complete [OF assms]
    by (fastforce simp: tracked_container_ids_def tracked_ids_def monitored_def RECONCILED_STATUSES_def image_iff)
qed

lemma stop_all_steps:
  "sys_steps {Stop} s (s\<lparr>s_running := (\<lambda>c. if c \<in> set cs then None else s_running s c)\<rparr>)"
proof (induction cs rule: rev_induct)
  case Nil
  then show ?case by (simp add: steps_refl)
next
  case (snoc c cs)
  let ?s = "s\<lparr>s_running := (\<lambda>c. if c \<in> set cs then None else s_running s c)\<rparr>"
  have "?s\<lparr>s_running := (s_running ?s)(c := None)\<rparr> =
      s\<lparr>s_running := (\<lambda>d. if d \<in> set (cs @ [c]) then None else s_running s d)\<rparr>"
    by (auto simp: fun_eq_iff)
  then have "sys_step Stop ?s (s\<lparr>s_running := (\<lambda>d. if d \<in> set (cs @ [c]) then None else s_running s d)\<rparr>)"
    using sys_step.stop [of ?s c] by simp
  from steps_step [OF snoc this] show ?case by simp
qed

lemma reconcile_refines:
  assumes ok: "world_ok w" and run: "reconcile D R w = (r, w')"
  shows "world_ok w' \<and> w_jobs w' = w_jobs w \<and> sys_steps {Stop} (view w t) (view w' t)"
    and "r = Inr res \<Longrightarrow>
      running (w_docker w') = (\<lambda>c. case running (w_docker w) c of
        Some ls \<Rightarrow> if labelled ls \<and> c \<notin> tracked_ids w then None else Some ls | None \<Rightarrow> None) \<and>
      set (rr_killed_orphan_container_ids res) =
        {c. \<exists>ls. running (w_docker w) c = Some ls \<and> labelled ls \<and> c \<notin> tracked_ids w}"
proof -
  have wf: "wf_jobs (w_jobs w)" using ok by (simp add: world_ok_def)
  obtain js where js: "jr_list_by_statuses R (w_jobs w) RECONCILED_STATUSES = Inr js"
    using wf by (rule listed_by_statuses)
  note ids = tracked_container_ids_set [OF wf js]
  have "(world_ok w' \<and> w_jobs w' = w_jobs w \<and> sys_steps {Stop} (view w t) (view w' t)) \<and>
    (r = Inr res \<longrightarrow>
      running (w_docker w') = (\<lambda>c. case running (w_docker w) c of
        Some ls \<Rightarrow> if labelled ls \<and> c \<notin> tracked_ids w then None else Some ls | None \<Rightarrow> None) \<and>
      set (rr_killed_orphan_container_ids res) =
        {c. \<exists>ls. running (w_docker w) c = Some ls \<and> labelled ls \<and> c \<notin> tracked_ids w})"
  proof (cases "dc_list_running_container_ids D (w_docker w)")
    case (Inl e)
    with run ok show ?thesis by (auto simp: reconcile_def intro: steps_refl)
  next
    case (Inr listed)
    let ?orphans = "filter (\<lambda>c. c \<notin> set (tracked_container_ids js)) (remdups listed)"
    have orphans: "set ?orphans = {c. \<exists>ls. running (w_docker w) c = Some ls \<and> labelled ls \<and> c \<notin> tracked_ids w}"
      using list_law [OF Inr] by (auto simp: ids labelled_def)
    obtain q d where q: "kill_all D ?orphans (w_docker w) = (q, d)" by fastforce
    from kill_all_running [OF q] obtain n where
      n: "running d = (\<lambda>c. if c \<in> set (take n ?orphans) then None else running (w_docker w) c)"
        "\<forall>u. q = Inr u \<longrightarrow> n = length ?orphans" by blast
    have w': "w' = w\<lparr>w_docker := d\<rparr>"
      using run Inr js q by (auto simp: reconcile_def Let_def split: sum.splits)
    have "view w' t = (view w t)\<lparr>s_running :=
        (\<lambda>c. if c \<in> set (take n ?orphans) then None else s_running (view w t) c)\<rparr>"
      by (simp add: w' world_view_def n(1) cong: if_cong)
    then have steps: "sys_steps {Stop} (view w t) (view w' t)" using stop_all_steps by simp
    moreover have "running (w_docker w') = (\<lambda>c. case running (w_docker w) c of
        Some ls \<Rightarrow> if labelled ls \<and> c \<notin> tracked_ids w then None else Some ls | None \<Rightarrow> None)"
      and "set (rr_killed_orphan_container_ids res) = set ?orphans" if "r = Inr res"
    proof -
      have "\<exists>u. q = Inr u" and res: "rr_killed_orphan_container_ids res = sort ?orphans"
        using run Inr js q that by (auto simp: reconcile_def Let_def split: sum.splits)
      then have "n = length ?orphans" using n(2) by blast
      then have run': "running (w_docker w') = (\<lambda>c. if c \<in> set ?orphans then None else running (w_docker w) c)"
        by (simp add: w' n(1))
      show "running (w_docker w') = (\<lambda>c. case running (w_docker w) c of
        Some ls \<Rightarrow> if labelled ls \<and> c \<notin> tracked_ids w then None else Some ls | None \<Rightarrow> None)"
        unfolding run' orphans by (auto simp: fun_eq_iff split: option.splits)
      show "set (rr_killed_orphan_container_ids res) = set ?orphans" by (simp add: res)
    qed
    ultimately show ?thesis using ok orphans by (simp add: w' world_ok_def)
  qed
  then show "world_ok w' \<and> w_jobs w' = w_jobs w \<and> sys_steps {Stop} (view w t) (view w' t)"
    and "r = Inr res \<Longrightarrow>
      running (w_docker w') = (\<lambda>c. case running (w_docker w) c of
        Some ls \<Rightarrow> if labelled ls \<and> c \<notin> tracked_ids w then None else Some ls | None \<Rightarrow> None) \<and>
      set (rr_killed_orphan_container_ids res) =
        {c. \<exists>ls. running (w_docker w) c = Some ls \<and> labelled ls \<and> c \<notin> tracked_ids w}"
    by blast+
qed

lemma reconcile_tracked:
  assumes ok: "world_ok w" and run: "reconcile D R w = (Inr res, w')"
  shows "tracked (view w' t)"
  using reconcile_refines(1) [OF ok run, of t] reconcile_refines(2) [OF ok run refl]
  by (auto simp: tracked_def tracked_ids_def split: option.splits if_splits)

end

end
