(* ===== verification/Worker_Lock.thy ===== *)
theory Worker_Lock
  imports Models
begin

text \<open>
  \<open>worker/lock.py\<close>: the single-flight lock file. The kernel's part is \<open>flock_os\<close>: the open file
  descriptions with their paths and, for each path, the description that holds its exclusive lock.
  Descriptors of all processes are numbered together. \<open>os.open\<close> fails on the paths that cannot be
  opened; closing a description, which also happens when its process dies, gives up its lock.
\<close>

record flock_os =
  fo_next :: nat
  fo_open :: "nat \<rightharpoonup> string"
  fo_holder :: "string \<rightharpoonup> nat"
  fo_denied :: "string \<Rightarrow> bool"

definition os_open :: "string \<Rightarrow> flock_os \<Rightarrow> (flock_os, nat) outcome" where
  "os_open path os =
     (if fo_denied os path then (Inl (OSError path), os)
      else (Inr (fo_next os),
            os\<lparr>fo_next := Suc (fo_next os), fo_open := (fo_open os)(fo_next os \<mapsto> path)\<rparr>))"

text \<open>\<open>flock(fd, LOCK_EX | LOCK_NB)\<close>: \<open>False\<close> stands for \<open>BlockingIOError\<close>.\<close>

definition flock_exclusive :: "nat \<Rightarrow> flock_os \<Rightarrow> bool \<times> flock_os" where
  "flock_exclusive fd os =
     (case fo_open os fd of
        None \<Rightarrow> (False, os)
      | Some path \<Rightarrow>
          (case fo_holder os path of
             Some other \<Rightarrow> (other = fd, os)
           | None \<Rightarrow> (True, os\<lparr>fo_holder := (fo_holder os)(path \<mapsto> fd)\<rparr>)))"

definition flock_unlock :: "nat \<Rightarrow> flock_os \<Rightarrow> flock_os" where
  "flock_unlock fd os =
     os\<lparr>fo_holder := (\<lambda>path. if fo_holder os path = Some fd then None else fo_holder os path)\<rparr>"

definition os_close :: "nat \<Rightarrow> flock_os \<Rightarrow> flock_os" where
  "os_close fd os = (flock_unlock fd os)\<lparr>fo_open := (fo_open os)(fd := None)\<rparr>"

subsection \<open>The lock\<close>

record WorkerLock =
  wl_path :: string
  wl_fd :: "nat option"

definition new_lock :: "string \<Rightarrow> WorkerLock" where
  "new_lock path = \<lparr>wl_path = path, wl_fd = None\<rparr>"

definition lock_acquire :: "WorkerLock \<times> flock_os \<Rightarrow> (WorkerLock \<times> flock_os, unit) outcome" where
  "lock_acquire s =
     (case s of (lock, os) \<Rightarrow>
        (if wl_fd lock \<noteq> None then (Inr (), s)
         else
           (case os_open (wl_path lock) os of
              (Inl e, os1) \<Rightarrow> (Inl e, (lock, os1))
            | (Inr fd, os1) \<Rightarrow>
                (case flock_exclusive fd os1 of
                   (True, os2) \<Rightarrow> (Inr (), (lock\<lparr>wl_fd := Some fd\<rparr>, os2))
                 | (False, os2) \<Rightarrow>
                     (Inl (LockAcquisitionError (''Worker lock already held: '' @ wl_path lock)),
                      (lock, os_close fd os2))))))"

definition lock_release :: "WorkerLock \<times> flock_os \<Rightarrow> WorkerLock \<times> flock_os" where
  "lock_release s =
     (case s of (lock, os) \<Rightarrow>
        (case wl_fd lock of
           None \<Rightarrow> s
         | Some fd \<Rightarrow> (lock\<lparr>wl_fd := None\<rparr>, os_close fd (flock_unlock fd os))))"

definition lock_is_held :: "WorkerLock \<Rightarrow> bool" where
  "lock_is_held lock \<longleftrightarrow> wl_fd lock \<noteq> None"

definition lock_enter :: "WorkerLock \<times> flock_os \<Rightarrow> (WorkerLock \<times> flock_os, WorkerLock) outcome" where
  "lock_enter s = then_do (lock_acquire s) (\<lambda>_ s'. (Inr (fst s'), s'))"

definition lock_exit :: "WorkerLock \<times> flock_os \<Rightarrow> WorkerLock \<times> flock_os" where
  "lock_exit s = lock_release s"

subsection \<open>Many processes\<close>

text \<open>
  Each process has one lock object. A process that dies loses its object's descriptor without
  running \<open>release\<close>; the kernel closes it.
\<close>

record lock_system =
  ls_locks :: "nat \<Rightarrow> WorkerLock"
  ls_os :: flock_os

definition with_lock :: "lock_system \<Rightarrow> nat \<Rightarrow> WorkerLock \<times> flock_os \<Rightarrow> lock_system" where
  "with_lock s p r = \<lparr>ls_locks = (ls_locks s)(p := fst r), ls_os = snd r\<rparr>"

definition process_dies :: "WorkerLock \<times> flock_os \<Rightarrow> WorkerLock \<times> flock_os" where
  "process_dies s =
     (case s of (lock, os) \<Rightarrow>
        (case wl_fd lock of None \<Rightarrow> s | Some fd \<Rightarrow> (lock\<lparr>wl_fd := None\<rparr>, os_close fd os)))"

inductive lock_step :: "lock_system \<Rightarrow> lock_system \<Rightarrow> bool" where
  acquire: "lock_acquire (ls_locks s p, ls_os s) = (r, s') \<Longrightarrow> lock_step s (with_lock s p s')"
| release: "lock_step s (with_lock s p (lock_release (ls_locks s p, ls_os s)))"
| dies: "lock_step s (with_lock s p (process_dies (ls_locks s p, ls_os s)))"

inductive lock_reachable :: "(nat \<Rightarrow> string) \<Rightarrow> (string \<Rightarrow> bool) \<Rightarrow> lock_system \<Rightarrow> bool" for paths denied where
  initial: "lock_reachable paths denied
     \<lparr>ls_locks = (\<lambda>p. new_lock (paths p)),
      ls_os = \<lparr>fo_next = 0, fo_open = Map.empty, fo_holder = Map.empty, fo_denied = denied\<rparr>\<rparr>"
| step: "lock_reachable paths denied s \<Longrightarrow> lock_step s s' \<Longrightarrow> lock_reachable paths denied s'"

text \<open>
  The invariant ties the objects to the kernel: an object that is held holds the kernel's lock on its
  path, and every kernel lock belongs to an open description.
\<close>

definition os_ok :: "flock_os \<Rightarrow> bool" where
  "os_ok os \<longleftrightarrow>
     (\<forall>fd. fo_open os fd \<noteq> None \<longrightarrow> fd < fo_next os) \<and>
     (\<forall>path fd. fo_holder os path = Some fd \<longrightarrow> fo_open os fd = Some path)"

definition lock_inv :: "lock_system \<Rightarrow> bool" where
  "lock_inv s \<longleftrightarrow>
     os_ok (ls_os s) \<and>
     (\<forall>p fd. wl_fd (ls_locks s p) = Some fd \<longrightarrow> fo_holder (ls_os s) (wl_path (ls_locks s p)) = Some fd) \<and>
     (\<forall>p q fd. wl_fd (ls_locks s p) = Some fd \<longrightarrow> wl_fd (ls_locks s q) = Some fd \<longrightarrow> p = q) \<and>
     (\<forall>path fd. fo_holder (ls_os s) path = Some fd \<longrightarrow> (\<exists>p. wl_fd (ls_locks s p) = Some fd))"

lemma with_lock_fields [simp]:
  "ls_locks (with_lock s p r) = (ls_locks s)(p := fst r)" "ls_os (with_lock s p r) = snd r"
  by (simp_all add: with_lock_def)

lemma with_lock_same [simp]: "with_lock s p (ls_locks s p, ls_os s) = s"
  by (cases s) (simp add: with_lock_def)

lemma lock_invD:
  assumes "lock_inv s"
  shows "os_ok (ls_os s)"
    and "wl_fd (ls_locks s p) = Some fd \<Longrightarrow> fo_holder (ls_os s) (wl_path (ls_locks s p)) = Some fd"
    and "wl_fd (ls_locks s p) = Some fd \<Longrightarrow> wl_fd (ls_locks s q) = Some fd \<Longrightarrow> p = q"
    and "fo_holder (ls_os s) path = Some fd \<Longrightarrow> \<exists>p. wl_fd (ls_locks s p) = Some fd"
  using assms unfolding lock_inv_def by blast+

lemma os_okD:
  assumes "os_ok os"
  shows "fo_open os fd = Some path \<Longrightarrow> fd < fo_next os"
    and "fo_holder os path = Some fd \<Longrightarrow> fo_open os fd = Some path"
  using assms unfolding os_ok_def by blast+

text \<open>What an acquisition does, in one of four ways.\<close>

lemma acquire_cases:
  assumes ok: "os_ok os" and run: "lock_acquire (lock, os) = (r, (lock', os'))"
  obtains (held) "wl_fd lock \<noteq> None" "r = Inr ()" "lock' = lock" "os' = os"
  | (denied) "wl_fd lock = None" "fo_denied os (wl_path lock)" "r = Inl (OSError (wl_path lock))" "lock' = lock" "os' = os"
  | (busy) other where "wl_fd lock = None" "fo_holder os (wl_path lock) = Some other"
      "r = Inl (LockAcquisitionError (''Worker lock already held: '' @ wl_path lock))" "lock' = lock"
      "os' = os\<lparr>fo_next := Suc (fo_next os)\<rparr>"
  | (free) "wl_fd lock = None" "fo_holder os (wl_path lock) = None" "r = Inr ()"
      "lock' = lock\<lparr>wl_fd := Some (fo_next os)\<rparr>"
      "os' = os\<lparr>fo_next := Suc (fo_next os), fo_open := (fo_open os)(fo_next os \<mapsto> wl_path lock),
         fo_holder := (fo_holder os)(wl_path lock \<mapsto> fo_next os)\<rparr>"
proof (cases "wl_fd lock \<noteq> None")
  case True
  with run have "r = Inr ()" "lock' = lock" "os' = os" by (simp_all add: lock_acquire_def)
  with True show thesis by (rule that(1))
next
  case none: False
  show thesis
  proof (cases "fo_denied os (wl_path lock)")
    case True
    with none have "lock_acquire (lock, os) = (Inl (OSError (wl_path lock)), (lock, os))"
      by (simp add: lock_acquire_def os_open_def)
    with run have "r = Inl (OSError (wl_path lock))" "lock' = lock" "os' = os" by auto
    with none True show thesis by (intro that(2)) simp_all
  next
    case False
    let ?os1 = "os\<lparr>fo_next := Suc (fo_next os), fo_open := (fo_open os)(fo_next os \<mapsto> wl_path lock)\<rparr>"
    show thesis
    proof (cases "fo_holder os (wl_path lock)")
      case None
      then have "flock_exclusive (fo_next os) ?os1 =
          (True, ?os1\<lparr>fo_holder := (fo_holder os)(wl_path lock \<mapsto> fo_next os)\<rparr>)"
        by (simp add: flock_exclusive_def)
      with False none run have "r = Inr ()" "lock' = lock\<lparr>wl_fd := Some (fo_next os)\<rparr>"
        "os' = ?os1\<lparr>fo_holder := (fo_holder os)(wl_path lock \<mapsto> fo_next os)\<rparr>"
        by (simp_all add: lock_acquire_def os_open_def)
      with none None show thesis by (intro that(4)) simp_all
    next
      case (Some other)
      have new: "fo_open os (fo_next os) = None"
        using os_okD(1) [OF ok, of "fo_next os"] by (cases "fo_open os (fo_next os)") auto
      have "other \<noteq> fo_next os" using os_okD(2) [OF ok Some] new by auto
      with Some have busy: "flock_exclusive (fo_next os) ?os1 = (False, ?os1)" by (simp add: flock_exclusive_def)
      have "fo_holder os path \<noteq> Some (fo_next os)" for path
        using os_okD(2) [OF ok, of path "fo_next os"] new by auto
      then have "os_close (fo_next os) ?os1 = os\<lparr>fo_next := Suc (fo_next os)\<rparr>"
        using new by (simp add: os_close_def flock_unlock_def fun_upd_idem)
      with False none busy have "lock_acquire (lock, os) =
          (Inl (LockAcquisitionError (''Worker lock already held: '' @ wl_path lock)), (lock, os\<lparr>fo_next := Suc (fo_next os)\<rparr>))"
        by (simp add: lock_acquire_def os_open_def)
      with run have "r = Inl (LockAcquisitionError (''Worker lock already held: '' @ wl_path lock))"
        "lock' = lock" "os' = os\<lparr>fo_next := Suc (fo_next os)\<rparr>" by auto
      with none Some show thesis by (intro that(3) [of other]) simp_all
    qed
  qed
qed

text \<open>Giving a lock up, by \<open>release\<close> or by dying, has the same effect.\<close>

definition given_up :: "WorkerLock \<times> flock_os \<Rightarrow> WorkerLock \<times> flock_os" where
  "given_up s =
     (case s of (lock, os) \<Rightarrow>
        (case wl_fd lock of None \<Rightarrow> s | Some fd \<Rightarrow> (lock\<lparr>wl_fd := None\<rparr>, os_close fd os)))"

lemma release_given_up: "lock_release s = given_up s"
  by (cases s) (auto simp: lock_release_def given_up_def os_close_def flock_unlock_def fun_eq_iff split: option.splits)

lemma dies_given_up: "process_dies s = given_up s"
  by (simp add: process_dies_def given_up_def)

lemma given_up_inv:
  assumes inv: "lock_inv s"
  shows "lock_inv (with_lock s p (given_up (ls_locks s p, ls_os s)))"
proof (cases "wl_fd (ls_locks s p)")
  case None
  then have "with_lock s p (given_up (ls_locks s p, ls_os s)) = s"
    by (simp add: given_up_def with_lock_def)
  with inv show ?thesis by simp
next
  case (Some fd)
  let ?s = "with_lock s p (given_up (ls_locks s p, ls_os s))"
  have locks: "ls_locks ?s = (ls_locks s)(p := (ls_locks s p)\<lparr>wl_fd := None\<rparr>)" and os: "ls_os ?s = os_close fd (ls_os s)"
    using Some by (simp_all add: given_up_def)
  have holder: "fo_holder (os_close fd (ls_os s)) path = Some g \<longleftrightarrow> fo_holder (ls_os s) path = Some g \<and> g \<noteq> fd" for path g
    by (auto simp: os_close_def flock_unlock_def)
  have other: "g \<noteq> fd" if "wl_fd (ls_locks s q) = Some g" "q \<noteq> p" for q g
    using lock_invD(3) [OF inv Some, of q] that by blast
  have "os_ok (os_close fd (ls_os s))"
    using lock_invD(1) [OF inv] by (auto simp: os_ok_def os_close_def flock_unlock_def)
  moreover have "fo_holder (os_close fd (ls_os s)) (wl_path (ls_locks ?s q)) = Some g" if "wl_fd (ls_locks ?s q) = Some g" for q g
    using that lock_invD(2) [OF inv, of q g] other [of q g] unfolding holder locks by (cases "q = p") simp_all
  moreover have "q = q'" if "wl_fd (ls_locks ?s q) = Some g" "wl_fd (ls_locks ?s q') = Some g" for q q' g
    using that lock_invD(3) [OF inv, of q g q'] unfolding locks by (cases "q = p"; cases "q' = p") simp_all
  moreover have "\<exists>q. wl_fd (ls_locks ?s q) = Some g" if "fo_holder (os_close fd (ls_os s)) path = Some g" for path g
  proof -
    from that have "fo_holder (ls_os s) path = Some g" "g \<noteq> fd" unfolding holder by simp_all
    with lock_invD(4) [OF inv] obtain q where "wl_fd (ls_locks s q) = Some g" by blast
    with Some \<open>g \<noteq> fd\<close> have "wl_fd (ls_locks ?s q) = Some g" unfolding locks by (cases "q = p") simp_all
    then show ?thesis ..
  qed
  ultimately show ?thesis unfolding lock_inv_def os by blast
qed

lemma acquire_inv:
  assumes inv: "lock_inv s" and run: "lock_acquire (ls_locks s p, ls_os s) = (r, s')"
  shows "lock_inv (with_lock s p s')"
proof -
  obtain lock' os' where s': "s' = (lock', os')" by (cases s')
  note ok = lock_invD(1) [OF inv]
  from ok run [unfolded s'] show ?thesis
  proof (cases rule: acquire_cases)
    case busy
    then have "with_lock s p s' = s\<lparr>ls_os := (ls_os s)\<lparr>fo_next := Suc (fo_next (ls_os s))\<rparr>\<rparr>"
      by (simp add: s' with_lock_def)
    with inv show ?thesis by (auto simp: lock_inv_def os_ok_def less_SucI)
  next
    case free
    let ?n = "fo_next (ls_os s)" and ?path = "wl_path (ls_locks s p)"
    have fresh: "wl_fd (ls_locks s q) \<noteq> Some ?n" for q
      using lock_invD(2) [OF inv, of q ?n] os_okD(2) [OF ok, of _ ?n] os_okD(1) [OF ok, of ?n] by blast
    have locks: "ls_locks (with_lock s p s') = (ls_locks s)(p := (ls_locks s p)\<lparr>wl_fd := Some ?n\<rparr>)"
      and os: "ls_os (with_lock s p s') = os'" by (simp_all add: s' free)
    have holder: "fo_holder os' = (fo_holder (ls_os s))(?path \<mapsto> ?n)" by (simp add: free)
    have "os_ok os'"
      unfolding os_ok_def free(5) using ok by (auto simp: os_ok_def less_SucI)
    moreover have "fo_holder os' (wl_path (ls_locks (with_lock s p s') q)) = Some g"
      if "wl_fd (ls_locks (with_lock s p s') q) = Some g" for q g
    proof (cases "q = p")
      case True
      with that show ?thesis unfolding holder locks by simp
    next
      case False
      with that have "fo_holder (ls_os s) (wl_path (ls_locks s q)) = Some g"
        using lock_invD(2) [OF inv, of q g] unfolding locks by simp
      with free(2) False show ?thesis unfolding holder locks by auto
    qed
    moreover have "q = q'" if "wl_fd (ls_locks (with_lock s p s') q) = Some g"
        "wl_fd (ls_locks (with_lock s p s') q') = Some g" for q q' g
      using that fresh [of q] fresh [of q'] lock_invD(3) [OF inv, of q g q'] unfolding locks
      by (cases "q = p"; cases "q' = p") auto
    moreover have "\<exists>q. wl_fd (ls_locks (with_lock s p s') q) = Some g" if "fo_holder os' path = Some g" for path g
    proof (cases "path = ?path")
      case True
      with that show ?thesis unfolding holder locks by (intro exI [of _ p]) simp
    next
      case False
      with that have "fo_holder (ls_os s) path = Some g" unfolding holder by simp
      with lock_invD(4) [OF inv] obtain q where q: "wl_fd (ls_locks s q) = Some g" by blast
      with free(1) have "wl_fd (ls_locks (with_lock s p s') q) = Some g" unfolding locks by (cases "q = p") simp_all
      then show ?thesis ..
    qed
    ultimately show ?thesis unfolding lock_inv_def os by blast
  qed (use inv s' in simp_all)
qed

lemma lock_step_inv: "lock_step s s' \<Longrightarrow> lock_inv s \<Longrightarrow> lock_inv s'"
  by (induction rule: lock_step.induct) (auto simp: release_given_up dies_given_up intro: given_up_inv acquire_inv)

lemma lock_reachable_inv: "lock_reachable paths denied s \<Longrightarrow> lock_inv s"
proof (induction rule: lock_reachable.induct)
  case initial
  show ?case by (simp add: lock_inv_def os_ok_def new_lock_def)
next
  case (step s s')
  then show ?case by (blast intro: lock_step_inv)
qed

lemma lock_step_path: "lock_step s s' \<Longrightarrow> wl_path (ls_locks s' q) = wl_path (ls_locks s q)"
  by (induction rule: lock_step.induct)
    (auto simp: release_given_up dies_given_up given_up_def lock_acquire_def os_open_def split: option.splits if_splits prod.splits bool.splits)

lemma lock_reachable_path: "lock_reachable paths denied s \<Longrightarrow> wl_path (ls_locks s q) = paths q"
  by (induction rule: lock_reachable.induct) (simp_all add: new_lock_def lock_step_path)

subsection \<open>Properties\<close>

text \<open>
  C8: However the processes of a host acquire, release and die, two of them never hold the worker
  lock of the same path at once. A process whose acquisition meets another holder gets a
  \<open>LockAcquisitionError\<close> and holds nothing; and no crash leaves a stale lock behind: as soon as no
  process holds the path, an acquisition of it succeeds.
\<close>

theorem single_flight:
  assumes reach: "lock_reachable paths denied s" and path: "paths p = paths q"
  shows "(lock_is_held (ls_locks s p) \<longrightarrow> lock_is_held (ls_locks s q) \<longrightarrow> p = q) \<and>
    (\<not> lock_is_held (ls_locks s p) \<longrightarrow> \<not> fo_denied (ls_os s) (paths p) \<longrightarrow>
       (case lock_acquire (ls_locks s p, ls_os s) of (r, (lock', _)) \<Rightarrow>
          if \<exists>p'. paths p' = paths p \<and> lock_is_held (ls_locks s p')
          then r = Inl (LockAcquisitionError (''Worker lock already held: '' @ paths p)) \<and> \<not> lock_is_held lock'
          else r = Inr () \<and> lock_is_held lock'))"
proof -
  note inv = lock_reachable_inv [OF reach] and paths = lock_reachable_path [OF reach]
  have "p = q" if "wl_fd (ls_locks s p) = Some fd" "wl_fd (ls_locks s q) = Some fd'" for fd fd'
    using lock_invD(2) [OF inv that(1)] lock_invD(2) [OF inv that(2)] lock_invD(3) [OF inv that(1), of q] that path
    by (simp add: paths)
  moreover have holder: "fo_holder (ls_os s) (paths p) \<noteq> None \<longleftrightarrow> (\<exists>p'. paths p' = paths p \<and> lock_is_held (ls_locks s p'))"
  proof
    assume "fo_holder (ls_os s) (paths p) \<noteq> None"
    then obtain fd where fd: "fo_holder (ls_os s) (paths p) = Some fd" by auto
    with lock_invD(4) [OF inv] obtain p' where p': "wl_fd (ls_locks s p') = Some fd" by blast
    have "fo_open (ls_os s) fd = Some (paths p)" using os_okD(2) [OF lock_invD(1) [OF inv] fd] .
    moreover have "fo_open (ls_os s) fd = Some (paths p')"
      using os_okD(2) [OF lock_invD(1) [OF inv] lock_invD(2) [OF inv p']] by (simp add: paths)
    ultimately have "paths p' = paths p" by simp
    with p' show "\<exists>p'. paths p' = paths p \<and> lock_is_held (ls_locks s p')" by (auto simp: lock_is_held_def)
  next
    assume "\<exists>p'. paths p' = paths p \<and> lock_is_held (ls_locks s p')"
    then obtain p' fd where "paths p' = paths p" "wl_fd (ls_locks s p') = Some fd" by (auto simp: lock_is_held_def)
    with lock_invD(2) [OF inv, of p' fd] show "fo_holder (ls_os s) (paths p) \<noteq> None" by (simp add: paths)
  qed
  moreover have "case lock_acquire (ls_locks s p, ls_os s) of (r, (lock', _)) \<Rightarrow>
          if fo_holder (ls_os s) (paths p) \<noteq> None
          then r = Inl (LockAcquisitionError (''Worker lock already held: '' @ paths p)) \<and> \<not> lock_is_held lock'
          else r = Inr () \<and> lock_is_held lock'"
    if no: "\<not> lock_is_held (ls_locks s p)" "\<not> fo_denied (ls_os s) (paths p)"
  proof -
    obtain r lock' os' where run: "lock_acquire (ls_locks s p, ls_os s) = (r, (lock', os'))"
      by (cases "lock_acquire (ls_locks s p, ls_os s)") auto
    from lock_invD(1) [OF inv] run show ?thesis
      by (cases rule: acquire_cases) (use no run in \<open>auto simp: lock_is_held_def paths\<close>)
  qed
  ultimately show ?thesis by (auto simp: lock_is_held_def)
qed

definition two_workers :: lock_system where
  "two_workers =
     \<lparr>ls_locks = (\<lambda>p. new_lock ''/run/lock''),
      ls_os = \<lparr>fo_next = 0, fo_open = Map.empty, fo_holder = Map.empty, fo_denied = (\<lambda>_. False)\<rparr>\<rparr>"

theorem single_flight_witness:
  "\<exists>s :: lock_system. lock_is_held (ls_locks s 0) \<and>
     fst (lock_acquire (ls_locks s 1, ls_os s)) = Inl (LockAcquisitionError (''Worker lock already held: '' @ ''/run/lock''))"
proof -
  let ?a = "lock_acquire (ls_locks two_workers 0, ls_os two_workers)"
  let ?s = "with_lock two_workers 0 (snd ?a)"
  have "lock_reachable (\<lambda>_. ''/run/lock'') (\<lambda>_. False) two_workers"
    unfolding two_workers_def by (rule lock_reachable.initial)
  moreover have "lock_step two_workers ?s"
    using lock_step.acquire [of two_workers 0 "fst ?a" "snd ?a"] by simp
  ultimately have reach: "lock_reachable (\<lambda>_. ''/run/lock'') (\<lambda>_. False) ?s" by (rule lock_reachable.step)
  have held: "lock_is_held (ls_locks ?s 0)" "\<not> lock_is_held (ls_locks ?s 1)" "\<not> fo_denied (ls_os ?s) ''/run/lock''"
    by (simp_all add: lock_acquire_def two_workers_def new_lock_def os_open_def flock_exclusive_def lock_is_held_def)
  have "fst (lock_acquire (ls_locks ?s 1, ls_os ?s)) =
      Inl (LockAcquisitionError (''Worker lock already held: '' @ ''/run/lock''))"
  proof (cases "lock_acquire (ls_locks ?s 1, ls_os ?s)")
    case (fields r lock' os')
    have "\<exists>p'. lock_is_held (ls_locks ?s p')" using held(1) by blast
    with single_flight [OF reach, of 1 0] held(2,3) fields show ?thesis by (simp del: with_lock_fields)
  qed
  with held(1) show ?thesis by blast
qed

end
