(* ===== verification/Firestore_Reference.thy ===== *)
theory Firestore_Reference
  imports Firestore_Adapters
begin

text \<open>
  A Firestore collection that behaves as documented: a table of documents that is filtered and, for
  an ordered query, sorted by the field's timestamp. It shows that \<open>firestore_ok\<close> can hold, and the
  contracts of the two repositories are interpreted on it.
\<close>

type_synonym table = "(string \<times> doc) list"

definition time_key :: "string \<Rightarrow> string \<times> doc \<Rightarrow> datetime" where
  "time_key field snap = (case map_of (snd snap) field of Some (FTime t) \<Rightarrow> t | _ \<Rightarrow> 0)"

definition table_where :: "(doc \<Rightarrow> bool) \<Rightarrow> string \<Rightarrow> table \<Rightarrow> table" where
  "table_where P ord t = sort_key (time_key ord) (filter (\<lambda>(_, d). P d \<and> map_of d ord \<noteq> None) (AList.clearjunk t))"

definition table_collection :: "table firestore_collection" where
  "table_collection =
     \<lparr>fc_get = map_of,
      fc_set = (\<lambda>k d t. AList.update k d t),
      fc_where_eq_ordered = (\<lambda>t f v ord. table_where (\<lambda>d. map_of d f = Some v) ord t),
      fc_where_in_ordered = (\<lambda>t f vs ord. table_where (\<lambda>d. map_of d f \<in> Some ` set vs) ord t),
      fc_where_eq_limit1 = (\<lambda>t f v. take 1 (filter (\<lambda>(_, d). map_of d f = Some v) (AList.clearjunk t)))\<rparr>"

lemma clearjunk_entry: "(k, d) \<in> set (AList.clearjunk t) \<longleftrightarrow> map_of t k = Some d"
proof -
  have "map_of (AList.clearjunk t) k = Some d \<longleftrightarrow> (k, d) \<in> set (AList.clearjunk t)"
    by (intro map_of_eq_Some_iff distinct_clearjunk)
  then show ?thesis by (simp add: map_of_clearjunk)
qed

lemma table_where_streams:
  "streams (map_of t) (\<lambda>d. P d \<and> map_of d ord \<noteq> None) (table_where P ord t)"
proof -
  have "distinct (map fst (filter (\<lambda>(_, d). P d \<and> map_of d ord \<noteq> None) (AList.clearjunk t)))"
    by (intro distinct_map_filterI distinct_clearjunk)
  then show ?thesis
    by (auto simp: streams_def table_where_def clearjunk_entry)
qed

lemma table_where_ordered: "ordered_by ord (table_where P ord t)"
proof -
  have "(\<lambda>(_ :: string, d). case map_of d ord of Some (FTime t) \<Rightarrow> t | _ \<Rightarrow> 0) = time_key ord"
    by (simp add: time_key_def fun_eq_iff)
  then show ?thesis by (simp add: ordered_by_def table_where_def)
qed

lemma table_collection_ok: "firestore_ok table_collection map_of"
proof -
  have limit1: "case take 1 (filter (\<lambda>(_, d). map_of d f = Some v) (AList.clearjunk t)) of
        [] \<Rightarrow> \<forall>k d. map_of t k = Some d \<longrightarrow> map_of d f \<noteq> Some v
      | (k, d) # rest \<Rightarrow> rest = [] \<and> map_of t k = Some d \<and> map_of d f = Some v" for t :: table and f v
  proof (cases "filter (\<lambda>(_, d). map_of d f = Some v) (AList.clearjunk t)")
    case Nil
    then show ?thesis by (auto simp: filter_empty_conv clearjunk_entry)
  next
    case (Cons s rest)
    then have "s \<in> set (filter (\<lambda>(_, d). map_of d f = Some v) (AList.clearjunk t))" by simp
    then have "case s of (k, d) \<Rightarrow> map_of t k = Some d \<and> map_of d f = Some v" by (auto simp: clearjunk_entry)
    with Cons show ?thesis by (cases s) simp
  qed
  show ?thesis
    unfolding firestore_ok_def table_collection_def
    using table_where_streams table_where_ordered limit1
    by (simp add: Let_def finite_dom_map_of update_conv')
qed

interpretation tabj: job_store "firestore_job_repository table_collection" "stored_job map_of" "holds_jobs map_of"
  by (rule firestore_job_store [OF table_collection_ok])

interpretation tabu: user_store "firestore_user_repository table_collection" "stored_user map_of" "holds_users map_of"
  by (rule firestore_user_store [OF table_collection_ok])

lemma empty_table [simp]: "holds_jobs map_of ([] :: table)" "holds_users map_of ([] :: table)"
  "stored_job map_of ([] :: table) = Map.empty" "stored_user map_of ([] :: table) = Map.empty"
  by (auto simp: holds_jobs_def holds_users_def stored_job_def stored_user_def)

subsection \<open>A history of writes\<close>

lemma firestore_writes:
  assumes ok: "firestore_ok C docs_of" and wf: "holds_jobs docs_of c"
  shows "holds_jobs docs_of (fold (jr_update (firestore_job_repository C)) ws c) \<and>
    stored_job docs_of (fold (jr_update (firestore_job_repository C)) ws c) =
      stored_job docs_of c ++ map_of (rev (map (\<lambda>j. (j_id j, j)) ws))"
  using wf
proof (induction ws arbitrary: c)
  case (Cons j ws)
  note R = firestore_job_store [OF ok]
  from Cons.IH [OF job_store.update_job_wf [OF R Cons.prems, of j]] job_store.update_job_law [OF R Cons.prems, of j]
  show ?case by (simp add: map_add_def fun_eq_iff split: option.splits)
qed simp

text \<open>
  C26: Firestore holds jobs and nothing else. Whatever jobs the service has written, in whatever order and
  with whatever field missing, every document decodes to the job that was last written under its name: no
  read raises, a job is read as it was written, and the lists hold exactly the jobs of the user and of the
  statuses asked for, each once, by status oldest first.
\<close>

theorem firestore_typed:
  assumes ok: "firestore_ok C docs_of" and empty: "docs_of c = Map.empty"
  shows "\<exists>mine listed. jr_get (firestore_job_repository C) (fold (jr_update (firestore_job_repository C)) ws c) k =
      Inr (map_of (rev (map (\<lambda>j. (j_id j, j)) ws)) k) \<and>
    jr_list_for_user (firestore_job_repository C) (fold (jr_update (firestore_job_repository C)) ws c) u = Inr mine \<and>
    distinct mine \<and> set mine = {j. map_of (rev (map (\<lambda>j. (j_id j, j)) ws)) (j_id j) = Some j \<and> j_user_id j = u} \<and>
    jr_list_by_statuses (firestore_job_repository C) (fold (jr_update (firestore_job_repository C)) ws c) sts = Inr listed \<and>
    distinct listed \<and> sorted (map j_created_at listed) \<and>
    set listed = {j. map_of (rev (map (\<lambda>j. (j_id j, j)) ws)) (j_id j) = Some j \<and> j_status j \<in> set sts}"
proof -
  let ?R = "firestore_job_repository C" and ?c = "fold (jr_update (firestore_job_repository C)) ws c"
  note R = firestore_job_store [OF ok]
  have "holds_jobs docs_of c" "stored_job docs_of c = Map.empty"
    using empty by (simp_all add: holds_jobs_def stored_job_def fun_eq_iff)
  with firestore_writes [OF ok this(1), of ws]
  have wf: "holds_jobs docs_of ?c" and jobs: "stored_job docs_of ?c = map_of (rev (map (\<lambda>j. (j_id j, j)) ws))" by simp_all
  obtain mine where "jr_list_for_user ?R ?c u = Inr mine"
    and mine: "enumerates j_id (stored_job docs_of ?c) (\<lambda>j. j_user_id j = u) mine"
    using job_store.list_for_user_law [OF R wf] by blast
  moreover obtain listed where "jr_list_by_statuses ?R ?c sts = Inr listed" "sorted (map j_created_at listed)"
    and listed: "enumerates j_id (stored_job docs_of ?c) (\<lambda>j. j_status j \<in> set sts) listed"
    using job_store.list_by_statuses_law [OF R wf] by blast
  moreover have "distinct xs \<and> set xs = {j. stored_job docs_of ?c (j_id j) = Some j \<and> P j}"
    if "enumerates j_id (stored_job docs_of ?c) P xs" for P xs
    using that by (auto simp: enumerates_def distinct_map)
  note this [OF mine] this [OF listed]
  moreover have "jr_get ?R ?c k = Inr (stored_job docs_of ?c k)" by (rule job_store.get_job_law [OF R wf])
  ultimately show ?thesis unfolding jobs by blast
qed

definition written_job :: "JobStatus \<Rightarrow> Job" where
  "written_job st = \<lparr>j_id = ''j1'', j_user_id = ''u1'', j_policy = SMOLVLA, j_source_type = HF_HUB, j_source_ref = ''org/repo'',
     j_training_steps = 100, j_status = st, j_container_id = None, j_heartbeat_at = None,
     j_progress = Some \<lparr>p_step = 1, p_total_steps = 100, p_loss = NaN, p_updated_at = 7\<rparr>, j_cancel_requested = False,
     j_checkpoint_gcs_path = None, j_error_message = None, j_created_at = 0, j_updated_at = 5\<rparr>"

theorem firestore_typed_witness:
  "jr_list_by_statuses (firestore_job_repository table_collection)
     (fold (jr_update (firestore_job_repository table_collection)) [written_job QUEUED, written_job TRAINING] []) [TRAINING] =
   Inr [written_job TRAINING]"
proof -
  have fields: "j_id (written_job st) = ''j1''" "j_status (written_job st) = st" for st by (simp_all add: written_job_def)
  obtain listed where l: "jr_list_by_statuses (firestore_job_repository table_collection)
     (fold (jr_update (firestore_job_repository table_collection)) [written_job QUEUED, written_job TRAINING] []) [TRAINING] = Inr listed"
    and d: "distinct listed" and
    s: "set listed = {j. map_of (rev (map (\<lambda>j. (j_id j, j)) [written_job QUEUED, written_job TRAINING])) (j_id j) = Some j \<and>
      j_status j \<in> set [TRAINING]}"
    using firestore_typed [OF table_collection_ok, of "[]" "[written_job QUEUED, written_job TRAINING]" "''j1''" "''u1''" "[TRAINING]"]
    by auto
  have "set listed = {written_job TRAINING}" unfolding s by (auto simp: fields split: if_splits)
  with d have "listed = [written_job TRAINING]" by (cases listed; cases "tl listed") auto
  with l show ?thesis by simp
qed

end
