(* ===== verification/Worker_Main.thy ===== *)
theory Worker_Main
  imports Worker_Refinement Worker_Lock Disk_Manager Firestore_Reference Gcs_Adapter Web_Adapters
begin

text \<open>
  The worker process: the wiring of \<open>worker/deps.py\<close> and the entry point \<open>worker/main.py\<close>. The poll
  loop has no end, so \<open>poll_loop\<close> runs a given number of rounds; \<open>Inr ()\<close> says that the loop is still
  running after them, \<open>Inl e\<close> that an exception ended the process. \<open>clock i n\<close> is the \<open>n\<close>-th reading
  of the clock in round \<open>i\<close>. Logging is left out.
\<close>

subsection \<open>Wiring\<close>

definition build_worker_dependencies ::
    "(zip_member list \<Rightarrow> int) \<Rightarrow> WorkerSettings \<Rightarrow> 'j job_repository \<Rightarrow> 'u user_repository \<Rightarrow> 'd docker_client \<Rightarrow>
     'o object_storage \<Rightarrow> hf_hub_client \<Rightarrow> ('j, 'u, 'o, 'd) WorkerDependencies" where
  "build_worker_dependencies deflated_size settings job_repository user_repository docker_client object_storage
       hf_hub_client =
     \<lparr>wd_settings = settings, wd_job_repository = job_repository, wd_user_repository = user_repository,
      wd_docker_client = docker_client, wd_object_storage = object_storage, wd_hf_hub_client = hf_hub_client,
      wd_upload_retries = 2, wd_deflated_size = deflated_size\<rparr>"

definition fake_worker_dependencies ::
    "(zip_member list \<Rightarrow> int) \<Rightarrow> 'd docker_api \<Rightarrow> int \<Rightarrow> int \<Rightarrow> WorkerSettings \<Rightarrow>
     (mem_jobs, mem_users, mem_objects, 'd) WorkerDependencies" where
  "fake_worker_dependencies deflated_size A uid gid settings =
     build_worker_dependencies deflated_size settings memory_job_repository memory_user_repository
       (docker_runner A uid gid) (memory_object_storage ''http://localhost:8000'') (memory_hf_hub_client [])"

definition real_worker_dependencies ::
    "(zip_member list \<Rightarrow> int) \<Rightarrow> 'd docker_api \<Rightarrow> int \<Rightarrow> int \<Rightarrow> 'j firestore_collection \<Rightarrow> 'u firestore_collection \<Rightarrow>
     'o gcs_bucket \<Rightarrow> hub_api \<Rightarrow> WorkerSettings \<Rightarrow> ('j, 'u, 'o, 'd) WorkerDependencies" where
  "real_worker_dependencies deflated_size A uid gid JC UC G H settings =
     build_worker_dependencies deflated_size settings (firestore_job_repository JC) (firestore_user_repository UC)
       (docker_runner A uid gid) (gcs_object_storage G) (real_hf_hub_client H)"

lemma build_worker_dependencies_fields [simp]:
  "wd_settings (build_worker_dependencies z s R U D S H) = s"
  "wd_job_repository (build_worker_dependencies z s R U D S H) = R"
  "wd_user_repository (build_worker_dependencies z s R U D S H) = U"
  "wd_docker_client (build_worker_dependencies z s R U D S H) = D"
  "wd_object_storage (build_worker_dependencies z s R U D S H) = S"
  "wd_hf_hub_client (build_worker_dependencies z s R U D S H) = H"
  "wd_upload_retries (build_worker_dependencies z s R U D S H) = 2"
  "wd_deflated_size (build_worker_dependencies z s R U D S H) = z"
  by (simp_all add: build_worker_dependencies_def)

subsection \<open>The process\<close>

definition worker_tick ::
    "('j, 'u, 'o, 'd) WorkerDependencies \<Rightarrow> (nat \<Rightarrow> datetime) \<Rightarrow> ('j, 'u, 'o, 'd) world \<Rightarrow>
     (('j, 'u, 'o, 'd) world, unit) outcome" where
  "worker_tick E now w =
     then_do (JobPoller_tick E now w) (\<lambda>_ w1.
     then_do (JobCompletionMonitor_tick E (\<lambda>n. now (3 + n)) w1) (\<lambda>_ w2. (Inr (), w2)))"

fun poll_loop ::
    "('j, 'u, 'o, 'd) WorkerDependencies \<Rightarrow> (nat \<Rightarrow> nat \<Rightarrow> datetime) \<Rightarrow> nat \<Rightarrow> ('j, 'u, 'o, 'd) world \<Rightarrow>
     (('j, 'u, 'o, 'd) world, unit) outcome" where
  "poll_loop E clock 0 w = (Inr (), w)"
| "poll_loop E clock (Suc rounds) w =
     then_do (worker_tick E (clock 0) w) (\<lambda>_. poll_loop E (\<lambda>i. clock (Suc i)) rounds)"

definition worker_startup ::
    "('j, 'u, 'o, 'd) WorkerDependencies \<Rightarrow> int \<Rightarrow> ('j, 'u, 'o, 'd) world \<Rightarrow>
     (('j, 'u, 'o, 'd) world, ReconciliationResult) outcome" where
  "worker_startup E time w =
     (let settings = wd_settings E;
          (_, fs) = cleanup_stale_tmp_dirs (path_of_string (ws_hf_cache_dir settings))
            (ws_tmp_stale_after_seconds settings) time (w_fs w)
      in reconcile (wd_docker_client E) (wd_job_repository E) (w\<lparr>w_fs := fs\<rparr>))"

definition run_forever ::
    "('j, 'u, 'o, 'd) WorkerDependencies \<Rightarrow> int \<Rightarrow> (nat \<Rightarrow> nat \<Rightarrow> datetime) \<Rightarrow> nat \<Rightarrow> ('j, 'u, 'o, 'd) world \<Rightarrow>
     (('j, 'u, 'o, 'd) world, unit) outcome" where
  "run_forever E time clock rounds w =
     then_do (worker_startup E time w) (\<lambda>_. poll_loop E clock rounds)"

text \<open>The \<open>finally\<close> clause releases the lock when an exception ends the loop.\<close>

definition worker_main ::
    "('j, 'u, 'o, 'd) WorkerDependencies \<Rightarrow> int \<Rightarrow> (nat \<Rightarrow> nat \<Rightarrow> datetime) \<Rightarrow> nat \<Rightarrow>
     (WorkerLock \<times> flock_os) \<times> ('j, 'u, 'o, 'd) world \<Rightarrow>
     ((WorkerLock \<times> flock_os) \<times> ('j, 'u, 'o, 'd) world, unit) outcome" where
  "worker_main E time clock rounds s =
     (case s of (lock, w) \<Rightarrow>
        (case lock_acquire lock of
           (Inl (LockAcquisitionError _), lock') \<Rightarrow> (Inl (SystemExit 1), (lock', w))
         | (Inl e, lock') \<Rightarrow> (Inl e, (lock', w))
         | (Inr _, lock') \<Rightarrow>
             (case run_forever E time clock rounds w of
                (Inl e, w') \<Rightarrow> (Inl e, (lock_release lock', w'))
              | (Inr _, w') \<Rightarrow> (Inr (), (lock', w')))))"

subsection \<open>The wirings keep the contracts\<close>

lemma training_systemI:
  assumes "job_store (wd_job_repository E) jobs_of wf_jobs" and "user_store (wd_user_repository E) users_of wf_users"
    and "object_store (wd_object_storage E) objects_of" and "container_host (wd_docker_client E) running"
  shows "training_system E jobs_of wf_jobs users_of wf_users objects_of running"
  using assms by (simp add: training_system_def)

lemma fake_worker_system:
  assumes "docker_ok A view"
  shows "training_system (fake_worker_dependencies z A uid gid settings) map_of mem_jobs_ok map_of mem_users_ok
    map_of (running_view view)"
  using docker_runner_host [OF assms] memj.job_store_axioms memu.user_store_axioms memo.object_store_axioms
  by (intro training_systemI) (simp_all add: fake_worker_dependencies_def)

lemma real_worker_system:
  assumes "docker_ok A view" and "firestore_ok JC jdocs" and "firestore_ok UC udocs" and "gcs_ok G objects_of"
  shows "training_system (real_worker_dependencies z A uid gid JC UC G H settings) (stored_job jdocs) (holds_jobs jdocs)
    (stored_user udocs) (holds_users udocs) objects_of (running_view view)"
  using docker_runner_host [OF assms(1)] firestore_job_store [OF assms(2)] firestore_user_store [OF assms(3)]
    gcs_object_store [OF assms(4)]
  by (intro training_systemI) (simp_all add: real_worker_dependencies_def)

interpretation fakew: training_system "fake_worker_dependencies z reference_daemon uid gid settings" map_of mem_jobs_ok
  map_of mem_users_ok map_of "running_view map_of" for z uid gid settings
  by (rule fake_worker_system [OF reference_daemon_ok])

interpretation refw: training_system
  "real_worker_dependencies z reference_daemon uid gid table_collection table_collection reference_bucket H settings"
  "stored_job map_of" "holds_jobs map_of" "stored_user map_of" "holds_users map_of" map_of "running_view map_of"
  for z uid gid H settings
  by (rule real_worker_system [OF reference_daemon_ok table_collection_ok table_collection_ok reference_bucket_ok])

subsection \<open>A round and a run as abstract steps\<close>

context training_system begin

abbreviation "tick_events \<equiv> poller_events \<union> completion_events"

lemma worker_tick_refines:
  assumes ok: "world_ok w" and inv: "sys_ok (view w t)" and time: "t \<le> now 0" "mono now"
    and run: "worker_tick E now w = (r, w')"
  shows "world_ok w' \<and> sys_steps tick_events (view w t) (view w' (now 6))"
proof -
  have le: "now i \<le> now j" if "i \<le> j" for i j using time(2) that by (rule monoD)
  obtain q w1 where q: "JobPoller_tick E now w = (q, w1)" by fastforce
  from poller_tick_refines [OF ok inv time(1) le le q] have
    p: "world_ok w1" "sys_steps poller_events (view w t) (view w1 (now 2))" by simp_all
  have a: "sys_steps tick_events (view w t) (view w1 (now 2))" by (rule sys_steps_mono [OF p(2)]) simp
  show ?thesis
  proof (cases q)
    case (Inl e)
    with run q have "w' = w1" by (simp add: worker_tick_def)
    moreover have "sys_steps tick_events (view w1 (now 2)) (view w1 (now 6))" using le by (intro pass_view) auto
    ultimately show ?thesis using p(1) sys_steps_trans [OF _ a] by simp
  next
    case (Inr x)
    obtain c w2 where c: "JobCompletionMonitor_tick E (\<lambda>n. now (3 + n)) w1 = (c, w2)" by fastforce
    with run q Inr have w': "w' = w2" by (cases c) (simp_all add: worker_tick_def)
    from completion_tick_refines [OF p(1), of "now 2" "\<lambda>n. now (3 + n)", OF le le le le c] have
      d: "world_ok w2" "sys_steps completion_events (view w1 (now 2)) (view w2 (now 6))" by simp_all
    have "sys_steps tick_events (view w1 (now 2)) (view w2 (now 6))" by (rule sys_steps_mono [OF d(2)]) simp
    with d(1) w' sys_steps_trans [OF _ a] show ?thesis by simp
  qed
qed

lemma worker_startup_refines:
  assumes ok: "world_ok w" and run: "worker_startup E time w = (r, w')"
  shows "world_ok w' \<and> sys_steps {Stop} (view w t) (view w' t) \<and> (\<forall>res. r = Inr res \<longrightarrow> tracked (view w' t))"
proof -
  obtain removed fs where fs: "cleanup_stale_tmp_dirs (path_of_string (ws_hf_cache_dir (wd_settings E)))
      (ws_tmp_stale_after_seconds (wd_settings E)) time (w_fs w) = (removed, fs)" by fastforce
  have run': "reconcile D R (w\<lparr>w_fs := fs\<rparr>) = (r, w')" using run fs by (simp add: worker_startup_def)
  have ok': "world_ok (w\<lparr>w_fs := fs\<rparr>)" using ok by (simp add: world_ok_def)
  have "view (w\<lparr>w_fs := fs\<rparr>) t = view w t" by (rule view_cong) simp_all
  with reconcile_refines(1) [OF ok' run', of t] reconcile_tracked [OF ok', of _ w' t] run' show ?thesis by auto
qed

text \<open>A schedule: each round's readings of the clock are in order, and so are the rounds.\<close>

definition clock_ok :: "(nat \<Rightarrow> nat \<Rightarrow> datetime) \<Rightarrow> datetime \<Rightarrow> bool" where
  "clock_ok clock t \<longleftrightarrow> (\<forall>i. mono (clock i)) \<and> t \<le> clock 0 0 \<and> (\<forall>i. clock i 6 \<le> clock (Suc i) 0)"

lemma poll_loop_refines:
  assumes "world_ok w" and "sys_ok (view w t)" and "clock_ok clock t" and "poll_loop E clock rounds w = (r, w')"
  shows "world_ok w' \<and> (\<exists>t'. t \<le> t' \<and> sys_steps tick_events (view w t) (view w' t'))"
  using assms
proof (induction rounds arbitrary: w t clock)
  case 0
  then show ?case by (auto intro: steps_refl)
next
  case (Suc n)
  have time: "t \<le> clock 0 0" "mono (clock 0)" "clock_ok (\<lambda>i. clock (Suc i)) (clock 0 6)"
    using Suc.prems(3) by (simp_all add: clock_ok_def)
  have le: "t \<le> clock 0 6" using time(1) monoD [OF time(2), of 0 6] by simp
  obtain q w1 where q: "worker_tick E (clock 0) w = (q, w1)" by fastforce
  from worker_tick_refines [OF Suc.prems(1,2) time(1,2) q] have
    a: "world_ok w1" "sys_steps tick_events (view w t) (view w1 (clock 0 6))" by simp_all
  have inv: "sys_ok (view w1 (clock 0 6))" using a(2) Suc.prems(2) by (rule steps_sys_ok)
  show ?case
  proof (cases q)
    case (Inl e)
    with Suc.prems(4) q have "w' = w1" by simp
    with a le show ?thesis by blast
  next
    case (Inr x)
    with Suc.prems(4) q have "poll_loop E (\<lambda>i. clock (Suc i)) n w1 = (r, w')" by simp
    from Suc.IH [OF a(1) inv time(3) this] obtain t' where
      "world_ok w'" "clock 0 6 \<le> t'" "sys_steps tick_events (view w1 (clock 0 6)) (view w' t')" by blast
    with le sys_steps_trans [OF _ a(2)] show ?thesis by (intro conjI exI [of _ t']) simp_all
  qed
qed

end

end
