(* ===== verification/System.thy ===== *)
theory System
  imports Backend_Refinement Worker_Main
begin

text \<open>
  The running service: one persistent state, the world of the worker, on which requests, timeout
  sweeps, worker rounds and worker restarts act one after the other, while clients upload to the
  signed URLs, the bucket's lifecycle rule removes uploads and containers write their files and
  stop. The steps interleave in any order; within a step the code's reads and writes are not
  interrupted. Every such step is a sequence of abstract steps, so what is proved of the abstract
  system holds in every reachable state.
\<close>

definition backend_of :: "('j, 'u, 'o, 'd) world \<Rightarrow> ('j, 'u, 'o) backend" where
  "backend_of w = \<lparr>b_jobs = w_jobs w, b_users = w_users w, b_objects = w_objects w\<rparr>"

definition with_backend :: "('j, 'u, 'o) backend \<Rightarrow> ('j, 'u, 'o, 'd) world \<Rightarrow> ('j, 'u, 'o, 'd) world" where
  "with_backend b w = w\<lparr>w_jobs := b_jobs b, w_users := b_users b, w_objects := b_objects b\<rparr>"

datatype action = Serve request | ClientUpload | Expiry | WorkerRound | WorkerRestart | ContainerEffect

inductive system_step ::
    "('j, 'u, 'o) Dependencies \<Rightarrow> ('j, 'u, 'o, 'd) WorkerDependencies \<Rightarrow>
     ('j \<Rightarrow> string \<rightharpoonup> Job) \<Rightarrow> ('u \<Rightarrow> string \<rightharpoonup> User) \<Rightarrow> ('o \<Rightarrow> string \<rightharpoonup> blob) \<Rightarrow>
     ('d \<Rightarrow> string \<rightharpoonup> (string \<times> string) list) \<Rightarrow> action \<Rightarrow>
     ('j, 'u, 'o, 'd) world \<times> datetime \<Rightarrow> ('j, 'u, 'o, 'd) world \<times> datetime \<Rightarrow> bool"
  for P E jobs_of users_of objects_of running where
  serves: "t \<le> now 0 \<Longrightarrow> now 0 \<le> now 1 \<Longrightarrow>
    (\<And>i. drawn_id q = Some i \<Longrightarrow> jobs_of (w_jobs w) i = None \<and> users_of (w_users w) i = None) \<Longrightarrow>
    system_step P E jobs_of users_of objects_of running (Serve q) (w, t)
      (with_backend (serve P now q (backend_of w)) w, now 1)"
| client_upload: "upload_path p \<Longrightarrow> objects_of objects = (objects_of (w_objects w))(p \<mapsto> b) \<Longrightarrow>
    system_step P E jobs_of users_of objects_of running ClientUpload (w, t) (w\<lparr>w_objects := objects\<rparr>, t)"
| expiry: "upload_path p \<Longrightarrow> objects_of objects = (objects_of (w_objects w))(p := None) \<Longrightarrow>
    system_step P E jobs_of users_of objects_of running Expiry (w, t) (w\<lparr>w_objects := objects\<rparr>, t)"
| worker_round: "t \<le> now 0 \<Longrightarrow> mono now \<Longrightarrow>
    system_step P E jobs_of users_of objects_of running WorkerRound (w, t) (snd (worker_tick E now w), now 6)"
| worker_restart:
    "system_step P E jobs_of users_of objects_of running WorkerRestart (w, t) (snd (worker_startup E time w), t)"
| container_effect: "running d = running (w_docker w) \<or> running d = (running (w_docker w))(c := None) \<Longrightarrow>
    system_step P E jobs_of users_of objects_of running ContainerEffect (w, t) (w\<lparr>w_docker := d, w_fs := fs\<rparr>, t)"

inductive system_run ::
    "('j, 'u, 'o) Dependencies \<Rightarrow> ('j, 'u, 'o, 'd) WorkerDependencies \<Rightarrow>
     ('j \<Rightarrow> string \<rightharpoonup> Job) \<Rightarrow> ('u \<Rightarrow> string \<rightharpoonup> User) \<Rightarrow> ('o \<Rightarrow> string \<rightharpoonup> blob) \<Rightarrow>
     ('d \<Rightarrow> string \<rightharpoonup> (string \<times> string) list) \<Rightarrow> (action \<Rightarrow> bool) \<Rightarrow>
     ('j, 'u, 'o, 'd) world \<times> datetime \<Rightarrow> ('j, 'u, 'o, 'd) world \<times> datetime \<Rightarrow> bool"
  for P E jobs_of users_of objects_of running allowed where
  run_refl: "system_run P E jobs_of users_of objects_of running allowed s s"
| run_step: "system_run P E jobs_of users_of objects_of running allowed s s' \<Longrightarrow>
    system_step P E jobs_of users_of objects_of running a s' s'' \<Longrightarrow> allowed a \<Longrightarrow>
    system_run P E jobs_of users_of objects_of running allowed s s''"

lemma with_backend_fields [simp]:
  "w_jobs (with_backend b w) = b_jobs b" "w_users (with_backend b w) = b_users b"
  "w_objects (with_backend b w) = b_objects b" "w_docker (with_backend b w) = w_docker w"
  "b_jobs (backend_of w) = w_jobs w" "b_users (backend_of w) = w_users w" "b_objects (backend_of w) = w_objects w"
  by (simp_all add: with_backend_def backend_of_def)

text \<open>Two ways to look at the backend's part of the world agree.\<close>

lemma with_backend_of [simp]: "with_backend (backend_of w) w = w"
  by (simp add: with_backend_def backend_of_def)

lemma backend_world_view:
  "backend_view jo uo oo (run (w_docker w)) (backend_of w) t = world_view jo uo oo run w t"
  "backend_view jo uo oo (run (w_docker w)) b t = world_view jo uo oo run (with_backend b w) t"
  by (simp_all add: backend_view_def world_view_def)

locale whole_system =
  worker: training_system E jobs_of wf_jobs users_of wf_users objects_of running +
  backend: backend_system P jobs_of wf_jobs users_of wf_users objects_of
  for P :: "('j, 'u, 'o) Dependencies"
    and E :: "('j, 'u, 'o, 'd) WorkerDependencies"
    and jobs_of :: "'j \<Rightarrow> string \<rightharpoonup> Job" and wf_jobs
    and users_of :: "'u \<Rightarrow> string \<rightharpoonup> User" and wf_users
    and objects_of :: "'o \<Rightarrow> string \<rightharpoonup> blob"
    and running :: "'d \<Rightarrow> string \<rightharpoonup> (string \<times> string) list"
begin

abbreviation "step \<equiv> system_step P E jobs_of users_of objects_of running"
abbreviation "run \<equiv> system_run P E jobs_of users_of objects_of running"
abbreviation "view \<equiv> world_view jobs_of users_of objects_of running"

definition good :: "('j, 'u, 'o, 'd) world \<times> datetime \<Rightarrow> bool" where
  "good s \<longleftrightarrow> worker.world_ok (fst s) \<and> sys_ok (view (fst s) (snd s))"

fun action_events :: "action \<Rightarrow> event set" where
  "action_events (Serve q) = request_events q"
| "action_events ClientUpload = {PutUpload}"
| "action_events Expiry = {DropUpload}"
| "action_events WorkerRound = worker.tick_events"
| "action_events WorkerRestart = {Stop}"
| "action_events ContainerEffect = {Stop}"

text \<open>What happens beside the worker needs no more of the state than that the stores are well formed.\<close>

lemma environment_refines:
  assumes "step a s s'" and "worker.world_ok (fst s)" and "a \<noteq> WorkerRound" and "a \<noteq> WorkerRestart"
  shows "worker.world_ok (fst s') \<and> sys_steps (action_events a) (view (fst s) (snd s)) (view (fst s') (snd s'))"
  using assms(1)
proof (cases rule: system_step.cases)
  case (serves t now q w)
  have ok: "backend.backend_ok (backend_of w)"
    using assms(2) serves by (simp add: worker.world_ok_def backend.backend_ok_def)
  have "backend.backend_ok (serve P now q (backend_of w)) \<and>
      sys_steps (request_events q)
        (backend_view jobs_of users_of objects_of (running (w_docker w)) (backend_of w) t)
        (backend_view jobs_of users_of objects_of (running (w_docker w)) (serve P now q (backend_of w)) (now 1))"
    using serves(6) by (intro backend.serve_refines [OF ok serves(4,5)]) simp_all
  then have "backend.backend_ok (serve P now q (backend_of w)) \<and>
      sys_steps (request_events q) (view w t) (view (with_backend (serve P now q (backend_of w)) w) (now 1))"
    unfolding backend_world_view(2) by simp
  then show ?thesis using serves by (simp add: worker.world_ok_def backend.backend_ok_def)
next
  case (client_upload p objects w b t)
  have "view (w\<lparr>w_objects := objects\<rparr>) t = (view w t)\<lparr>s_objects := (s_objects (view w t))(p \<mapsto> b)\<rparr>"
    using client_upload by (simp add: world_view_def)
  then have "sys_step PutUpload (view w t) (view (w\<lparr>w_objects := objects\<rparr>) t)"
    using sys_step.put_upload [OF client_upload(4), of "view w t" b] by simp
  then have "sys_steps {PutUpload} (view w t) (view (w\<lparr>w_objects := objects\<rparr>) t)" by (rule sys_steps_one) simp
  then show ?thesis using client_upload assms(2) by (simp add: worker.world_ok_def)
next
  case (expiry p objects w t)
  have "view (w\<lparr>w_objects := objects\<rparr>) t = (view w t)\<lparr>s_objects := (s_objects (view w t))(p := None)\<rparr>"
    using expiry by (simp add: world_view_def)
  then have "sys_step DropUpload (view w t) (view (w\<lparr>w_objects := objects\<rparr>) t)"
    using sys_step.drop_upload [OF expiry(4), of "view w t"] by simp
  then have "sys_steps {DropUpload} (view w t) (view (w\<lparr>w_objects := objects\<rparr>) t)" by (rule sys_steps_one) simp
  then show ?thesis using expiry assms(2) by (simp add: worker.world_ok_def)
next
  case (container_effect d w c t fs)
  let ?w = "w\<lparr>w_docker := d, w_fs := fs\<rparr>"
  from container_effect(4) have "sys_steps {Stop} (view w t) (view ?w t)"
  proof
    assume "running d = running (w_docker w)"
    then have "view ?w t = view w t" by (simp add: world_view_def)
    then show ?thesis by (simp add: steps_refl)
  next
    assume "running d = (running (w_docker w))(c := None)"
    then have "view ?w t = (view w t)\<lparr>s_running := (s_running (view w t))(c := None)\<rparr>" by (simp add: world_view_def)
    then have "sys_step Stop (view w t) (view ?w t)" using sys_step.stop [of "view w t" c] by simp
    then show ?thesis by (rule sys_steps_one) simp
  qed
  then show ?thesis using container_effect assms(2) by (simp add: worker.world_ok_def)
qed (use assms in simp_all)

lemma step_refines:
  assumes "step a s s'" and "good s"
  shows "worker.world_ok (fst s') \<and> sys_steps (action_events a) (view (fst s) (snd s)) (view (fst s') (snd s'))"
proof (cases "a = WorkerRound \<or> a = WorkerRestart")
  case False
  with environment_refines [OF assms(1)] assms(2) show ?thesis by (simp add: good_def)
next
  case True
  show ?thesis
    using assms(1)
  proof (cases rule: system_step.cases)
    case (worker_round t now w)
    obtain r w' where r: "worker_tick E now w = (r, w')" by fastforce
    have "worker.world_ok w" "sys_ok (view w t)" using assms(2) worker_round by (simp_all add: good_def)
    from worker.worker_tick_refines [OF this worker_round(4,5) r] show ?thesis using worker_round r by simp
  next
    case (worker_restart w t time)
    obtain r w' where r: "worker_startup E time w = (r, w')" by fastforce
    have "worker.world_ok w" using assms(2) worker_restart by (simp add: good_def)
    from worker.worker_startup_refines [OF this r, of t] show ?thesis using worker_restart r by simp
  qed (use True in simp_all)
qed

lemma step_good: "step a s s' \<Longrightarrow> good s \<Longrightarrow> good s'"
  using step_refines [of a s s'] steps_sys_ok unfolding good_def by blast

lemma run_refines:
  assumes "run allowed s s'" and "good s"
  shows "good s' \<and> sys_steps (\<Union>a \<in> Collect allowed. action_events a) (view (fst s) (snd s)) (view (fst s') (snd s'))"
  using assms
proof (induction rule: system_run.induct)
  case run_refl
  then show ?case by (simp add: steps_refl)
next
  case (run_step s s' a s'')
  then have ih: "good s'" "sys_steps (\<Union>a \<in> Collect allowed. action_events a) (view (fst s) (snd s)) (view (fst s') (snd s'))"
    by simp_all
  from step_refines [OF run_step.hyps(2) ih(1)] have
    "sys_steps (action_events a) (view (fst s') (snd s')) (view (fst s'') (snd s''))" by simp
  then have "sys_steps (\<Union>a \<in> Collect allowed. action_events a) (view (fst s') (snd s')) (view (fst s'') (snd s''))"
    by (rule sys_steps_mono) (use run_step.hyps(3) in auto)
  with sys_steps_trans [OF this ih(2)] step_good [OF run_step.hyps(2) ih(1)] show ?case by simp
qed

lemma run_good: "run allowed s s' \<Longrightarrow> good s \<Longrightarrow> good s'"
  using run_refines by blast

text \<open>Jobs only move along the state machine, whatever happens.\<close>

lemma run_evolves:
  assumes "run allowed s s'" and "good s" and "jobs_of (w_jobs (fst s)) k = Some j"
  shows "\<exists>j'. jobs_of (w_jobs (fst s')) k = Some j' \<and> evolves_to j j'"
proof -
  have keyed: "keyed j_id (s_jobs (view (fst s) (snd s)))" using assms(2) unfolding good_def sys_ok_def by blast
  have "sys_steps (\<Union>a \<in> Collect allowed. action_events a) (view (fst s) (snd s)) (view (fst s') (snd s'))"
    using run_refines [OF assms(1,2)] by blast
  from steps_evolve [OF this keyed, of k j] assms(3) show ?thesis by simp
qed

text \<open>Without timeouts every running container of the service stays the one of the active job.\<close>

lemma run_tracked:
  assumes "run allowed s s'" and "good s" and "tracked (view (fst s) (snd s))"
    and quiet: "\<And>secret. \<not> allowed (Serve (CheckTimeoutsRequest secret))"
  shows "tracked (view (fst s') (snd s'))"
proof -
  have no: "Timeout \<notin> action_events a" if "allowed a" for a
  proof (cases a)
    case (Serve q)
    with that quiet show ?thesis by (cases q) auto
  qed auto
  from run_refines [OF assms(1,2)] assms(2) show ?thesis
    by (intro steps_tracked [OF _ _ assms(3)]) (use no in \<open>auto simp: good_def\<close>)
qed

end

end
