(* ===== verification/Deployment.thy ===== *)
theory Deployment
  imports System
begin

text \<open>
  The service as it is deployed: the wirings of \<open>backend/main.py\<close> and \<open>worker/deps.py\<close> over one
  platform. A \<open>platform\<close> holds the packages and services the code calls; \<open>platform_ok\<close> collects what
  their documentation promises. The properties here are about every run of the wired service.
\<close>

record ('j, 'u, 'o, 'd) platform =
  pl_bcrypt :: bcrypt_api
  pl_jwt :: jwt_api
  pl_http :: http_client
  pl_float_of_text :: "string \<Rightarrow> exn + pyfloat"
  pl_repr :: "json \<Rightarrow> string"
  pl_hub :: hub_api
  pl_deflated_size :: "zip_member list \<Rightarrow> int"
  pl_uid :: int
  pl_gid :: int
  pl_job_collection :: "'j firestore_collection"
  pl_user_collection :: "'u firestore_collection"
  pl_bucket :: "'o gcs_bucket"
  pl_docker :: "'d docker_api"
  pl_job_docs :: "'j \<Rightarrow> string \<rightharpoonup> doc"
  pl_user_docs :: "'u \<Rightarrow> string \<rightharpoonup> doc"
  pl_objects :: "'o \<Rightarrow> string \<rightharpoonup> blob"
  pl_containers :: "'d \<Rightarrow> string \<rightharpoonup> container"

definition platform_ok :: "('j, 'u, 'o, 'd) platform \<Rightarrow> bool" where
  "platform_ok L \<longleftrightarrow>
     firestore_ok (pl_job_collection L) (pl_job_docs L) \<and> firestore_ok (pl_user_collection L) (pl_user_docs L) \<and>
     gcs_ok (pl_bucket L) (pl_objects L) \<and> docker_ok (pl_docker L) (pl_containers L)"

definition deployed_backend :: "('j, 'u, 'o, 'd) platform \<Rightarrow> Settings \<Rightarrow> ('j, 'u, 'o) Dependencies" where
  "deployed_backend L settings =
     real_dependencies (pl_bcrypt L) (pl_jwt L) (pl_user_collection L) (pl_job_collection L) (pl_bucket L) (pl_hub L)
       (pl_http L) (pl_float_of_text L) (pl_repr L) settings"

definition deployed_worker ::
    "('j, 'u, 'o, 'd) platform \<Rightarrow> WorkerSettings \<Rightarrow> ('j, 'u, 'o, 'd) WorkerDependencies" where
  "deployed_worker L settings =
     real_worker_dependencies (pl_deflated_size L) (pl_docker L) (pl_uid L) (pl_gid L) (pl_job_collection L)
       (pl_user_collection L) (pl_bucket L) (pl_hub L) settings"

text \<open>What the stores hold.\<close>

definition jobs_in :: "('j, 'u, 'o, 'd) platform \<Rightarrow> ('j, 'u, 'o, 'd) world \<Rightarrow> string \<rightharpoonup> Job" where
  "jobs_in L w = stored_job (pl_job_docs L) (w_jobs w)"

definition users_in :: "('j, 'u, 'o, 'd) platform \<Rightarrow> ('j, 'u, 'o, 'd) world \<Rightarrow> string \<rightharpoonup> User" where
  "users_in L w = stored_user (pl_user_docs L) (w_users w)"

definition objects_in :: "('j, 'u, 'o, 'd) platform \<Rightarrow> ('j, 'u, 'o, 'd) world \<Rightarrow> string \<rightharpoonup> blob" where
  "objects_in L w = pl_objects L (w_objects w)"

definition running_in :: "('j, 'u, 'o, 'd) platform \<Rightarrow> ('j, 'u, 'o, 'd) world \<Rightarrow> string \<rightharpoonup> (string \<times> string) list" where
  "running_in L w = running_view (pl_containers L) (w_docker w)"

definition service_view :: "('j, 'u, 'o, 'd) platform \<Rightarrow> ('j, 'u, 'o, 'd) world \<times> datetime \<Rightarrow> sys" where
  "service_view L s =
     \<lparr>s_jobs = jobs_in L (fst s), s_users = users_in L (fst s), s_objects = objects_in L (fst s),
      s_running = running_in L (fst s), s_now = snd s\<rparr>"

lemma service_view_fields [simp]:
  "s_jobs (service_view L s) = jobs_in L (fst s)" "s_users (service_view L s) = users_in L (fst s)"
  "s_objects (service_view L s) = objects_in L (fst s)" "s_running (service_view L s) = running_in L (fst s)"
  "s_now (service_view L s) = snd s"
  by (simp_all add: service_view_def)

text \<open>The service before its first request: no documents at all.\<close>

definition blank :: "('j, 'u, 'o, 'd) platform \<Rightarrow> ('j, 'u, 'o, 'd) world \<Rightarrow> bool" where
  "blank L w \<longleftrightarrow> pl_job_docs L (w_jobs w) = Map.empty \<and> pl_user_docs L (w_users w) = Map.empty"

definition service_run ::
    "('j, 'u, 'o, 'd) platform \<Rightarrow> Settings \<Rightarrow> WorkerSettings \<Rightarrow> (action \<Rightarrow> bool) \<Rightarrow>
     ('j, 'u, 'o, 'd) world \<times> datetime \<Rightarrow> ('j, 'u, 'o, 'd) world \<times> datetime \<Rightarrow> bool" where
  "service_run L st ws =
     system_run (deployed_backend L st) (deployed_worker L ws) (stored_job (pl_job_docs L)) (stored_user (pl_user_docs L))
       (pl_objects L) (running_view (pl_containers L))"

text \<open>Documents the adapters wrote, and the invariants of the abstract system.\<close>

definition consistent :: "('j, 'u, 'o, 'd) platform \<Rightarrow> ('j, 'u, 'o, 'd) world \<times> datetime \<Rightarrow> bool" where
  "consistent L s \<longleftrightarrow>
     holds_jobs (pl_job_docs L) (w_jobs (fst s)) \<and> holds_users (pl_user_docs L) (w_users (fst s)) \<and>
     sys_ok (service_view L s)"

subsection \<open>The deployed service is the whole system\<close>

text \<open>
  A backend and a worker wired over the same adapters: if the adapters keep the contracts of their ports,
  the two are the whole system, whatever the settings and the other clients.
\<close>

locale shared_adapters =
  job_store R jobs_of wf_jobs + user_store U users_of wf_users + object_store S objects_of + container_host D running
  for R :: "'j job_repository" and jobs_of :: "'j \<Rightarrow> string \<rightharpoonup> Job" and wf_jobs
    and U :: "'u user_repository" and users_of :: "'u \<Rightarrow> string \<rightharpoonup> User" and wf_users
    and S :: "'o object_storage" and objects_of :: "'o \<Rightarrow> string \<rightharpoonup> blob"
    and D :: "'d docker_client" and running :: "'d \<Rightarrow> string \<rightharpoonup> (string \<times> string) list"
begin

lemma wired_backend:
  "backend_system (build_dependencies B W st U R S H captcha oauth) jobs_of wf_jobs users_of wf_users objects_of"
  using job_store_axioms user_store_axioms object_store_axioms
  by (simp add: backend_system_def build_dependencies_def)

lemma wired_worker:
  "training_system (build_worker_dependencies z ws R U D S H) jobs_of wf_jobs users_of wf_users objects_of running"
  using job_store_axioms user_store_axioms object_store_axioms container_host_axioms
  by (simp add: training_system_def)

sublocale wired: whole_system "build_dependencies B W st U R S H captcha oauth"
  "build_worker_dependencies z ws R U D S H'" jobs_of wf_jobs users_of wf_users objects_of running
  for B W st H captcha oauth z ws H'
  unfolding whole_system_def using wired_backend wired_worker by blast

end

lemma fake_adapters: "docker_ok A view \<Longrightarrow>
    shared_adapters memory_job_repository map_of mem_jobs_ok memory_user_repository map_of mem_users_ok
      (memory_object_storage url) map_of (docker_runner A uid gid) (running_view view)"
  using docker_runner_host memj.job_store_axioms memu.user_store_axioms memo.object_store_axioms
  by (auto simp: shared_adapters_def)

lemma real_adapters: "platform_ok L \<Longrightarrow>
    shared_adapters (firestore_job_repository (pl_job_collection L)) (stored_job (pl_job_docs L)) (holds_jobs (pl_job_docs L))
      (firestore_user_repository (pl_user_collection L)) (stored_user (pl_user_docs L)) (holds_users (pl_user_docs L))
      (gcs_object_storage (pl_bucket L)) (pl_objects L)
      (docker_runner (pl_docker L) (pl_uid L) (pl_gid L)) (running_view (pl_containers L))"
  using docker_runner_host firestore_job_store firestore_user_store gcs_object_store
  unfolding platform_ok_def shared_adapters_def by blast

lemma fake_backend_system:
  "backend_system (fake_dependencies B W st) map_of mem_jobs_ok map_of mem_users_ok map_of"
  unfolding fake_dependencies_def by (rule shared_adapters.wired_backend [OF fake_adapters [OF reference_daemon_ok]])

lemma deployed_whole_system:
  assumes "platform_ok L"
  shows "whole_system (deployed_backend L st) (deployed_worker L ws) (stored_job (pl_job_docs L))
    (holds_jobs (pl_job_docs L)) (stored_user (pl_user_docs L)) (holds_users (pl_user_docs L)) (pl_objects L)
    (running_view (pl_containers L))"
  unfolding deployed_backend_def deployed_worker_def real_dependencies_def real_worker_dependencies_def whole_system_def
  by (intro conjI shared_adapters.wired_backend [OF real_adapters] shared_adapters.wired_worker [OF real_adapters] assms)

lemma deployed_backend_system:
  assumes "platform_ok L"
  shows "backend_system (deployed_backend L st) (stored_job (pl_job_docs L)) (holds_jobs (pl_job_docs L))
    (stored_user (pl_user_docs L)) (holds_users (pl_user_docs L)) (pl_objects L)"
  using deployed_whole_system [OF assms] unfolding whole_system_def by blast

interpretation devb: backend_system "fake_dependencies B W st" map_of mem_jobs_ok map_of mem_users_ok map_of
  for B W st
  by (rule fake_backend_system)

interpretation devw: whole_system "fake_dependencies B W st" "fake_worker_dependencies z reference_daemon uid gid ws"
  map_of mem_jobs_ok map_of mem_users_ok map_of "running_view map_of"
  for B W st z uid gid ws
  unfolding whole_system_def using fake_backend_system fake_worker_system [OF reference_daemon_ok] by blast

interpretation dev: shared_adapters memory_job_repository map_of mem_jobs_ok memory_user_repository map_of mem_users_ok
  "memory_object_storage url" map_of "docker_runner reference_daemon uid gid" "running_view map_of"
  for url uid gid
  by (rule fake_adapters [OF reference_daemon_ok])

lemma blank_consistent: "blank L w \<Longrightarrow> consistent L (w, t)"
  by (auto simp: blank_def consistent_def holds_jobs_def holds_users_def sys_ok_def jobs_in_def users_in_def
      stored_job_def stored_user_def users_keyed_def one_monitored_def one_active_def jobs_ok_def quota_ok_def keyed_def)

lemma service_view_world: "world_view (stored_job (pl_job_docs L)) (stored_user (pl_user_docs L)) (pl_objects L)
    (running_view (pl_containers L)) w t = service_view L (w, t)"
  by (simp add: world_view_def service_view_def jobs_in_def users_in_def objects_in_def running_in_def)

lemma consistent_good:
  assumes "platform_ok L"
  shows "whole_system.good (stored_job (pl_job_docs L)) (holds_jobs (pl_job_docs L)) (stored_user (pl_user_docs L))
    (holds_users (pl_user_docs L)) (pl_objects L) (running_view (pl_containers L)) s \<longleftrightarrow> consistent L s"
proof -
  have s: "service_view L (fst s, snd s) = service_view L s" by simp
  have "training_system (deployed_worker L default_worker_settings) (stored_job (pl_job_docs L)) (holds_jobs (pl_job_docs L))
      (stored_user (pl_user_docs L)) (holds_users (pl_user_docs L)) (pl_objects L) (running_view (pl_containers L))"
    using deployed_whole_system [OF assms, of default_settings default_worker_settings]
    unfolding whole_system_def by blast
  from training_system.world_ok_def [OF this, of "fst s"]
    whole_system.good_def [OF deployed_whole_system [OF assms, of default_settings default_worker_settings], of s]
  show ?thesis by (simp only: service_view_world s) (simp add: consistent_def)
qed

lemma service_run_consistent:
  assumes "platform_ok L" and "consistent L s" and "service_run L st ws allowed s s'"
  shows "consistent L s'"
  using whole_system.run_good [OF deployed_whole_system [OF assms(1)], of st ws allowed s s'] assms
  by (simp add: consistent_good service_run_def)

lemma reached_consistent:
  assumes "platform_ok L" and "blank L (fst s)" and "service_run L st ws allowed s s'"
  shows "consistent L s'"
  using service_run_consistent [OF assms(1) _ assms(3)] blank_consistent [OF assms(2), of "snd s"] by simp

end
