(* ===== verification/Reference_Platform.thy ===== *)
theory Reference_Platform
  imports Deployment
begin

text \<open>
  A platform that keeps \<open>platform_ok\<close> and one run of the deployed service on it: a registration and the
  submission of a Hugging Face dataset. The properties of the deployed service are applied to it.
\<close>

subsection \<open>A platform that behaves as documented\<close>

definition demo_info :: json where
  "demo_info = JObj [(''features'', JObj [(''observation.state'', JNull), (''action'', JNull),
     (''observation.environment_state'', JNull)])]"

definition demo_platform :: "(table, table, (string \<times> blob) list, daemon) platform" where
  "demo_platform =
     \<lparr>pl_bcrypt = reference_bcrypt, pl_jwt = reference_jwt,
      pl_http = \<lparr>hc_post = (\<lambda>_ _. Inr \<lparr>rs_status_code = 200, rs_text = '''',
          rs_json = Inr (JObj [(''success'', JBool True), (''score'', JInt 1)])\<rparr>),
        hc_get = (\<lambda>_ _. Inl (ExternalError ''not found''))\<rparr>,
      pl_float_of_text = (\<lambda>_. Inl (ValueError ''float'')), pl_repr = (\<lambda>_. ''repr''),
      pl_hub = \<lparr>ha_repo_exists = (\<lambda>_. Inr True), ha_list_repo_files = (\<lambda>_. Inr [''meta/info.json'', ''data/a'']),
        ha_file_bytes = (\<lambda>_ _. Inr (JsonText demo_info)), ha_snapshot_download = (\<lambda>_ _ fs. (Inr (), fs))\<rparr>,
      pl_deflated_size = (\<lambda>_. 1), pl_uid = 1000, pl_gid = 1000,
      pl_job_collection = table_collection, pl_user_collection = table_collection, pl_bucket = reference_bucket,
      pl_docker = reference_daemon, pl_job_docs = map_of, pl_user_docs = map_of, pl_objects = map_of,
      pl_containers = map_of\<rparr>"

lemma demo_platform_ok: "platform_ok demo_platform"
  by (simp add: platform_ok_def demo_platform_def table_collection_ok reference_bucket_ok reference_daemon_ok)

abbreviation "demo_backend \<equiv> deployed_backend demo_platform default_settings"

lemma demo_backend_fields:
  "dp_user_repository demo_backend = firestore_user_repository table_collection"
  "dp_job_repository demo_backend = firestore_job_repository table_collection"
  "dp_bcrypt demo_backend = reference_bcrypt" "dp_jwt demo_backend = reference_jwt"
  "dp_settings demo_backend = default_settings" "dp_hf_hub_client demo_backend = real_hf_hub_client (pl_hub demo_platform)"
  "dp_captcha_verifier demo_backend tok = Inr \<lparr>cap_success = True, cap_score = Fin 1\<rparr>"
  by (simp_all add: deployed_backend_def real_dependencies_def build_dependencies_def demo_platform_def recaptcha_verify_def)

definition demo_start :: "(table, table, (string \<times> blob) list, daemon) world" where
  "demo_start = \<lparr>w_jobs = [], w_users = [], w_objects = [], w_docker = [], w_fs = \<lparr>fs_nodes = [], fs_clock = 0\<rparr>\<rparr>"

definition demo_account :: User where
  "demo_account = email_user ''u1'' ''a@b.c'' (spell ''secret'') 1"

lemma demo_min_score: "st_min_captcha_score default_settings = Fin (1 / 2)"
  by (simp add: default_settings_def)

lemma demo_account_id: "u_id demo_account = ''u1''"
  by (simp add: demo_account_def)

lemma demo_register:
  "snd (api_register demo_backend 1 ''salt'' ''u1'' ''a@b.c'' ''secret'' ''token''
      \<lparr>b_jobs = [], b_users = [], b_objects = []\<rparr>) =
    \<lparr>b_jobs = [], b_users = [(''u1'', user_to_doc demo_account)], b_objects = []\<rparr>"
proof -
  have "AList.clearjunk ([] :: table) = []" by simp
  then have none: "ur_get_by_email (firestore_user_repository table_collection) [] e = Inr None" for e
    by (simp add: firestore_user_repository_def firestore_get_by_email_def table_collection_def first_snapshot_def)
  have hash: "hash_password reference_bcrypt ''salt'' ''secret'' = Inr (spell ''secret'')"
    by (simp add: hash_password_def reference_bcrypt_def decode_ascii_def spell_ascii
        password_bytes_def utf8_encode_def utf8_char_def MAX_PASSWORD_BYTES_def)
  have put: "ur_create (firestore_user_repository table_collection) u [] = [(u_id u, user_to_doc u)]" for u
    by (simp add: firestore_user_repository_def table_collection_def firestore_set_user_def)
  show ?thesis
    by (simp add: api_register_def demo_backend_fields none hash put Let_def demo_account_def 
        register_with_email_def demo_min_score)
qed


definition submitted_job :: Job where
  "submitted_job = new_job ''j1'' ''u1'' ACT HF_HUB ''org/repo'' 100 2"

definition demo_header :: "string option" where
  "demo_header = Some (''Bearer '' @ create_access_token reference_jwt 1 ''u1'' (st_jwt_secret default_settings) DEFAULT_EXPIRES_IN)"

lemma demo_header_accepted: "get_current_user_id reference_jwt default_settings 2 demo_header = Inr ''u1''"
proof -
  have "(2 :: datetime) < whole_seconds (1 + DEFAULT_EXPIRES_IN)"
    by (simp add: DEFAULT_EXPIRES_IN_def whole_seconds_def seconds_def)
  then show ?thesis
    using bearer_accepted [OF reference_jwt_ok, of 1 2 default_settings "''u1''" DEFAULT_EXPIRES_IN]
    unfolding demo_header_def by simp
qed

lemma demo_stored: "doc_to_user ''u1'' (user_to_doc demo_account) = Inr demo_account"
  using user_doc_roundtrip [of demo_account] by (simp add: demo_account_id)

lemma demo_inspect: "inspect_hf_dataset (real_hf_hub_client (pl_hub demo_platform)) ACT ''org/repo'' = Inr ()"
  unfolding inspect_hf_Inr_iff
  by (simp add: port_simps demo_platform_def real_repo_exists_def real_list_repo_files_def real_get_repo_file_bytes_def
      demo_info_def policy_accepts_def feature_names_def ENV_STATE_FEATURE_def)

definition demo_users :: table where "demo_users = [(''u1'', user_to_doc demo_account)]"

lemma demo_create:
  "JobService_create_job (firestore_job_repository table_collection) (firestore_user_repository table_collection)
     (\<lambda>_. 2) ''j1'' demo_users ''u1'' ACT HF_HUB ''org/repo'' 100 [] =
     (Inr submitted_job, jr_create (firestore_job_repository table_collection) submitted_job [])"
proof -
  have "ur_get (firestore_user_repository table_collection) demo_users ''u1'' = Inr (Some demo_account)"
    by (simp add: firestore_user_repository_def firestore_get_user_def demo_users_def table_collection_def demo_stored)
  from job_store.create_job_spec [OF tabj.job_store_axioms empty_table(1) this, of "\<lambda>_. 2" "''j1''" ACT HF_HUB "''org/repo''" 100]
  show ?thesis
    by (simp add: has_active_job_def submitted_job_def effective_daily_used_def demo_account_def MAX_DAILY_JOBS_def)
qed

lemma demo_submit:
  "snd (api_submit_hf_dataset demo_backend (\<lambda>_. 2) demo_header ''j1'' ''org/repo'' ACT 100
      \<lparr>b_jobs = [], b_users = demo_users, b_objects = []\<rparr>) =
    \<lparr>b_jobs = jr_create (firestore_job_repository table_collection) submitted_job [], b_users = demo_users, b_objects = []\<rparr>"
  by (simp add: api_submit_hf_dataset_def as_user_def demo_backend_fields demo_header_accepted submit_hf_dataset_def demo_inspect
      demo_create steps_field_ok_def MAX_TRAINING_STEPS_def)

text \<open>An account is registered and submits a job.\<close>

definition demo_state :: "(table, table, (string \<times> blob) list, daemon) world" where
  "demo_state = demo_start\<lparr>w_jobs := jr_create (firestore_job_repository table_collection) submitted_job [], w_users := demo_users\<rparr>"

definition demo_registered :: "(table, table, (string \<times> blob) list, daemon) world" where
  "demo_registered = demo_start\<lparr>w_users := demo_users\<rparr>"

lemma demo_views: "pl_job_docs demo_platform = map_of" "pl_user_docs demo_platform = map_of"
  "pl_objects demo_platform = map_of" "pl_containers demo_platform = map_of"
  by (simp_all add: demo_platform_def)

lemma demo_first_step:
  "system_step demo_backend (deployed_worker demo_platform ws) (stored_job map_of) (stored_user map_of) map_of
     (running_view map_of) (Serve (RegisterRequest ''salt'' ''u1'' ''a@b.c'' ''secret'' ''token''))
     (demo_start, 0) (demo_registered, 1)"
  using system_step.serves [of 0 "\<lambda>_. 1" "RegisterRequest ''salt'' ''u1'' ''a@b.c'' ''secret'' ''token''"
      "stored_job map_of" demo_start "stored_user map_of" demo_backend "deployed_worker demo_platform ws" map_of
      "running_view map_of"]
  by (simp add: demo_start_def backend_of_def demo_register with_backend_def demo_users_def demo_registered_def)

lemma demo_service_step:
  "system_step demo_backend (deployed_worker demo_platform ws) (stored_job (pl_job_docs demo_platform))
     (stored_user (pl_user_docs demo_platform)) (pl_objects demo_platform) (running_view (pl_containers demo_platform))
     (Serve (RegisterRequest ''salt'' ''u1'' ''a@b.c'' ''secret'' ''token'')) (demo_start, 0) (demo_registered, 1)"
  unfolding demo_views by (rule demo_first_step)

lemma demo_second_step:
  "system_step demo_backend (deployed_worker demo_platform ws) (stored_job map_of) (stored_user map_of) map_of
     (running_view map_of) (Serve (SubmitHFDatasetRequest demo_header ''j1'' ''org/repo'' ACT 100))
     (demo_registered, 1) (demo_state, 2)"
  using system_step.serves [of 1 "\<lambda>_. 2" "SubmitHFDatasetRequest demo_header ''j1'' ''org/repo'' ACT 100"
      "stored_job map_of" demo_registered "stored_user map_of" demo_backend "deployed_worker demo_platform ws" map_of
      "running_view map_of"]
  by (simp add: demo_start_def demo_registered_def backend_of_def demo_submit with_backend_def demo_state_def)
    (simp add: stored_user_def demo_users_def)

lemma demo_run:
  assumes "\<And>q. drawn_id q \<noteq> None \<Longrightarrow> allowed (Serve q)"
  shows "service_run demo_platform default_settings ws allowed (demo_start, 0) (demo_state, 2)"
  unfolding service_run_def demo_views
  by (rule run_step [OF run_step [OF run_refl demo_first_step] demo_second_step]) (simp_all add: assms)

lemma demo_facts:
  "blank demo_platform demo_start" "jobs_in demo_platform demo_state = [''j1'' \<mapsto> submitted_job]"
  "users_in demo_platform demo_state ''u1'' = Some demo_account"
proof -
  show "blank demo_platform demo_start" by (simp add: blank_def demo_platform_def demo_start_def)
  have "j_id submitted_job = ''j1''" by (simp add: submitted_job_def)
  with tabj.create_job_law [OF empty_table(1), of submitted_job]
  show "jobs_in demo_platform demo_state = [''j1'' \<mapsto> submitted_job]"
    by (simp add: jobs_in_def demo_platform_def demo_state_def)
  show "users_in demo_platform demo_state ''u1'' = Some demo_account"
    by (simp add: users_in_def demo_platform_def demo_state_def stored_user_def demo_users_def demo_stored)
qed

subsection \<open>A worker restarts over a stray container\<close>

definition training_job :: Job where
  "training_job = submitted_job\<lparr>j_status := TRAINING, j_container_id := Some ''c1'', j_heartbeat_at := Some 2\<rparr>"

definition demo_container :: "string \<Rightarrow> container" where
  "demo_container i = \<lparr>ct_status = ''running'', ct_exit_code = 0, ct_labels = [(LEROBOT_JOB_ID_LABEL, i)]\<rparr>"

definition demo_training :: "(table, table, (string \<times> blob) list, daemon) world" where
  "demo_training = demo_state\<lparr>w_jobs := jr_create (firestore_job_repository table_collection) training_job [],
     w_docker := [(''c1'', demo_container ''j1''), (''c2'', demo_container ''j0'')]\<rparr>"

lemma training_job_fields [simp]:
  "j_id training_job = ''j1''" "j_user_id training_job = ''u1''" "j_status training_job = TRAINING"
  "j_container_id training_job = Some ''c1''" "j_heartbeat_at training_job = Some 2"
  "j_training_steps training_job = 100" "j_source_type training_job = HF_HUB" "j_created_at training_job = 2"
  by (simp_all add: training_job_def submitted_job_def new_job_def)

lemma demo_training_jobs:
  "holds_jobs map_of (w_jobs demo_training)" "stored_job map_of (w_jobs demo_training) = [''j1'' \<mapsto> training_job]"
  using tabj.create_job_wf [OF empty_table(1), of training_job] tabj.create_job_law [OF empty_table(1), of training_job]
  by (simp_all add: demo_training_def)

lemma demo_training_users:
  "holds_users map_of (w_users demo_training)" "stored_user map_of (w_users demo_training) = [''u1'' \<mapsto> demo_account]"
  by (auto simp: demo_training_def demo_state_def demo_users_def holds_users_def stored_user_def demo_stored
      demo_account_id fun_eq_iff intro!: exI [of _ demo_account])

lemma demo_training_consistent: "consistent demo_platform (demo_training, 2)"
proof -
  have view: "service_view demo_platform (demo_training, 2) = \<lparr>s_jobs = [''j1'' \<mapsto> training_job],
      s_users = [''u1'' \<mapsto> demo_account], s_objects = Map.empty,
      s_running = running_in demo_platform demo_training, s_now = 2\<rparr>"
    using demo_training_jobs(2) demo_training_users(2)
    by (simp add: service_view_def jobs_in_def users_in_def objects_in_def demo_views)
      (simp add: demo_training_def demo_state_def demo_start_def)
  have "u_daily_quota_used demo_account = 0" "u_quota_reset_date demo_account = None"
    by (simp_all add: demo_account_def)
  then have "sys_ok (service_view demo_platform (demo_training, 2))"
    unfolding view
    by (simp add: sys_ok_def keyed_def users_keyed_def demo_account_id one_monitored_def one_active_def jobs_ok_def
        job_ok_def quota_ok_def MAX_DAILY_JOBS_def)
  then show ?thesis
    using demo_training_jobs(1) demo_training_users(1) by (simp add: consistent_def demo_views)
qed

lemma demo_restart:
  "\<exists>result w1. worker_startup (deployed_worker demo_platform default_worker_settings) 0 demo_training = (Inr result, w1)"
proof -
  let ?R = "firestore_job_repository table_collection" and ?D = "docker_runner reference_daemon 1000 1000"
  obtain js where js: "jr_list_by_statuses ?R (w_jobs demo_training) RECONCILED_STATUSES = Inr js"
    using demo_training_jobs(1) by (rule tabj.listed_by_statuses)
  have "set js = {training_job}"
  proof -
    have "j = training_job" if "j \<in> set js" for j
      using tabj.list_by_statuses_mem(1) [OF demo_training_jobs(1) js that] demo_training_jobs(2) by (simp split: if_splits)
    moreover have "training_job \<in> set js"
      using tabj.list_by_statuses_complete [OF demo_training_jobs(1) js, of "''j1''" training_job] demo_training_jobs(2)
      by (simp add: RECONCILED_STATUSES_def)
    ultimately show ?thesis by blast
  qed
  then have ids: "set (tracked_container_ids js) = {''c1''}" by (auto simp: tracked_container_ids_def)
  have listed: "dc_list_running_container_ids ?D (w_docker demo_training) = Inr [''c1'', ''c2'']"
    by (simp add: port_simps DockerRunner_list_running_container_ids_def reference_daemon_def daemon_list_def
        demo_training_def demo_container_def)
  have "\<exists>d. kill_all ?D [''c2''] (w_docker demo_training) = (Inr (), d)"
    by (simp add: port_simps DockerRunner_kill_def reference_daemon_def daemon_kill_def demo_training_def demo_container_def)
  moreover have "cleanup_stale_tmp_dirs p n t (w_fs demo_training) = ([], w_fs demo_training)" for p n t
    by (simp add: cleanup_stale_tmp_dirs_def demo_training_def demo_state_def demo_start_def fs_exists_def fs_lookup_def)
  ultimately show ?thesis
    using js ids listed
    by (auto simp: worker_startup_def reconcile_def deployed_worker_def real_worker_dependencies_def demo_platform_def Let_def)
qed

subsection \<open>A cancellation and a start\<close>

lemma single_listed:
  assumes "holds_jobs map_of jobs" and "stored_job map_of jobs = [j_id j \<mapsto> j]" and "j_status j \<in> set sts"
  shows "jr_list_by_statuses (firestore_job_repository table_collection) jobs sts = Inr [j]"
proof -
  obtain js where js: "jr_list_by_statuses (firestore_job_repository table_collection) jobs sts = Inr js"
    using assms(1) by (rule tabj.listed_by_statuses)
  have "i = j" if "i \<in> set js" for i
  proof -
    from tabj.list_by_statuses_mem(1) [OF assms(1) js that] have "[j_id j \<mapsto> j] (j_id i) = Some i" unfolding assms(2) .
    then show ?thesis by (cases "j_id i = j_id j") simp_all
  qed
  moreover have "j \<in> set js"
    by (rule tabj.list_by_statuses_complete [OF assms(1) js _ assms(3)]) (simp add: assms(2))
  ultimately have set: "set js = {j}" by blast
  have "distinct (map j_id js)" using assms(1) js by (rule tabj.list_by_statuses_distinct)
  then have "distinct js" by (simp add: distinct_map)
  then have "length js = 1" using distinct_card [of js] set by simp
  then obtain x where "js = [x]" by (auto simp: length_Suc_conv)
  with set js show ?thesis by simp
qed

definition cancelling_job :: Job where
  "cancelling_job = training_job\<lparr>j_cancel_requested := True\<rparr>"

definition demo_cancelling :: "(table, table, (string \<times> blob) list, daemon) world" where
  "demo_cancelling = demo_training\<lparr>w_jobs := jr_create (firestore_job_repository table_collection) cancelling_job []\<rparr>"

lemma cancelling_job_fields [simp]:
  "j_id cancelling_job = ''j1''" "j_status cancelling_job = TRAINING" "j_cancel_requested cancelling_job"
  "j_container_id cancelling_job = Some ''c1''"
  by (simp_all add: cancelling_job_def)

lemma demo_cancelling_jobs: "stored_job map_of (w_jobs demo_cancelling) = [''j1'' \<mapsto> cancelling_job]"
  using tabj.create_job_law [OF empty_table(1), of cancelling_job] by (simp add: demo_cancelling_def)

lemma demo_cancelling_wf: "holds_jobs map_of (w_jobs demo_cancelling)" "holds_users map_of (w_users demo_cancelling)"
  using tabj.create_job_wf [OF empty_table(1), of cancelling_job] demo_training_users(1)
  by (simp_all add: demo_cancelling_def)

lemma demo_cancellation:
  "\<exists>cancelled w'. process_cancellations (firestore_job_repository table_collection)
     (docker_runner reference_daemon 1000 1000) ''/jobs'' 9 demo_cancelling = (Inr cancelled, w')"
proof -
  have "jr_list_by_statuses (firestore_job_repository table_collection) (w_jobs demo_cancelling) CANCELLABLE_STATUSES =
      Inr [cancelling_job]"
    by (rule single_listed) (simp_all add: demo_cancelling_wf demo_cancelling_jobs CANCELLABLE_STATUSES_def)
  moreover have "\<exists>d. dc_kill (docker_runner reference_daemon 1000 1000) ''c1'' (w_docker demo_cancelling) = (Inr (), d)"
    by (simp add: port_simps DockerRunner_kill_def reference_daemon_def daemon_kill_def demo_cancelling_def
        demo_training_def demo_container_def)
  moreover have "can_transition TRAINING CANCELLED" by (simp add: status_simps)
  ultimately show ?thesis by (auto simp: process_cancellations_def stop_container_def)
qed

definition all_dirs :: "fsys \<Rightarrow> bool" where
  "all_dirs fs \<longleftrightarrow> (\<forall>p i. fs_lookup fs p = Some i \<longrightarrow> is_dir_inode i)"

lemma all_dirs_stamp: "all_dirs fs \<Longrightarrow> all_dirs (fs_stamp p fs)"
  by (auto simp: all_dirs_def lookup_stamp is_dir_inode_def split: if_splits)

lemma all_dirs_mkdir1: "all_dirs fs \<Longrightarrow> all_dirs (fs_mkdir1 p fs)"
proof -
  assume "all_dirs fs"
  then have "all_dirs (fs_put p \<lparr>i_node = DirNode, i_mtime = fs_clock fs\<rparr> fs)"
    by (auto simp: all_dirs_def is_dir_inode_def)
  with \<open>all_dirs fs\<close> show ?thesis by (simp add: fs_mkdir1_def all_dirs_stamp)
qed

lemma all_dirs_makedirs: "all_dirs fs \<Longrightarrow> \<exists>fs'. fs_makedirs p fs = (Inr (), fs') \<and> all_dirs fs'"
proof -
  assume dirs: "all_dirs fs"
  then have "\<not> fs_is_file fs q" for q by (auto simp: fs_is_file_def all_dirs_def split: option.splits)
  moreover have "all_dirs (fold (\<lambda>n. fs_mkdir1 (take n p)) ns fs)" for ns
    using dirs by (induction ns arbitrary: fs) (simp_all add: all_dirs_mkdir1)
  ultimately show ?thesis by (simp add: fs_makedirs_def list_ex_iff fs_mkdir_def)
qed

lemma all_dirs_host_paths: "all_dirs fs \<Longrightarrow> \<exists>fs'. create_host_paths ps fs = (Inr (), fs')"
proof (induction ps arbitrary: fs)
  case (Cons p ps)
  obtain fs1 where "fs_makedirs (path_of_string p) fs = (Inr (), fs1)" "all_dirs fs1"
    using all_dirs_makedirs [OF Cons.prems] by blast
  with Cons.IH [of fs1] show ?case by simp
qed simp

abbreviation "demo_worker \<equiv> deployed_worker demo_platform default_worker_settings"

lemma demo_worker_system:
  "training_system demo_worker (stored_job map_of) (holds_jobs map_of) (stored_user map_of) (holds_users map_of) map_of
     (running_view map_of)"
  using deployed_whole_system [OF demo_platform_ok, of default_settings default_worker_settings]
  unfolding whole_system_def demo_views by blast

lemma demo_worker_fields:
  "wd_job_repository demo_worker = firestore_job_repository table_collection"
  "wd_user_repository demo_worker = firestore_user_repository table_collection"
  "wd_docker_client demo_worker = docker_runner reference_daemon 1000 1000"
  "wd_object_storage demo_worker = gcs_object_storage reference_bucket"
  "wd_settings demo_worker = default_worker_settings"
  "wd_upload_retries demo_worker = 2"
  by (simp_all add: deployed_worker_def real_worker_dependencies_def demo_platform_def)

definition demo_cached :: path where
  "demo_cached = final_path_for (path_of_string (ws_hf_cache_dir default_worker_settings)) ''org/repo''"

definition demo_queue :: "(table, table, (string \<times> blob) list, daemon) world" where
  "demo_queue = demo_state\<lparr>w_fs := \<lparr>fs_nodes = [(demo_cached, \<lparr>i_node = DirNode, i_mtime = 0\<rparr>)], fs_clock = 0\<rparr>\<rparr>"

lemma submitted_job_fields [simp]:
  "j_id submitted_job = ''j1''" "j_user_id submitted_job = ''u1''" "j_status submitted_job = QUEUED"
  "j_cancel_requested submitted_job = False" "j_source_type submitted_job = HF_HUB"
  "j_source_ref submitted_job = ''org/repo''" "j_policy submitted_job = ACT"
  by (simp_all add: submitted_job_def new_job_def)

lemma demo_queue_jobs: "holds_jobs map_of (w_jobs demo_queue)" "holds_users map_of (w_users demo_queue)"
  "stored_job map_of (w_jobs demo_queue) = [''j1'' \<mapsto> submitted_job]"
  using tabj.create_job_wf [OF empty_table(1), of submitted_job] tabj.create_job_law [OF empty_table(1), of submitted_job]
    demo_training_users(1)
  by (simp_all add: demo_queue_def demo_state_def demo_training_def)

definition demo_claimed :: Job where
  "demo_claimed = submitted_job\<lparr>j_status := INITIALIZING, j_updated_at := 3, j_heartbeat_at := Some 3\<rparr>"

lemma demo_fetch:
  "\<exists>fs. fetch_for_job (wd_hf_hub_client demo_worker) S (path_of_string (ws_hf_cache_dir default_worker_settings)) cap
     demo_claimed d (objects, w_fs demo_queue) =
     (Inr \<lparr>fd_input_dir = demo_cached, fd_read_only = True\<rparr>, (objects, fs)) \<and> all_dirs fs"
proof -
  have "all_dirs (fs_touch demo_cached (w_fs demo_queue))"
    by (auto simp: all_dirs_def fs_touch_def demo_queue_def fs_lookup_def is_dir_inode_def fs_put_def split: if_splits)
  moreover have "fs_exists (w_fs demo_queue) demo_cached"
    by (simp add: fs_exists_def fs_lookup_def demo_queue_def)
  ultimately show ?thesis
    by (simp add: fetch_for_job_def fetch_hf_dataset_def demo_cached_def [symmetric] demo_claimed_def)
qed

lemma demo_begin: "\<exists>w1. begin_start demo_worker 3 demo_queue = (Inr (Some demo_claimed), w1) \<and>
    w_fs w1 = w_fs demo_queue \<and> w_docker w1 = []"
proof -
  have "jr_list_by_statuses (firestore_job_repository table_collection) (w_jobs demo_queue) [QUEUED] = Inr [submitted_job]"
    by (rule single_listed) (simp_all add: demo_queue_jobs)
  moreover have "ur_get (firestore_user_repository table_collection) (w_users demo_queue) ''u1'' = Inr (Some demo_account)"
    by (simp add: firestore_user_repository_def firestore_get_user_def demo_users_def table_collection_def demo_stored
        demo_queue_def demo_state_def)
  moreover have "can_transition QUEUED INITIALIZING" by (simp add: status_simps)
  moreover have "w_docker demo_queue = []" by (simp add: demo_queue_def demo_state_def demo_start_def)
  ultimately show ?thesis by (simp add: begin_start_def demo_worker_fields demo_claimed_def Let_def)
qed

lemma demo_run_container:
  assumes "all_dirs (w_fs w)" and "w_docker w = []" and "cs_image spec \<noteq> []"
  shows "\<exists>c w2. run_container demo_worker spec w = (Inr c, w2)"
  using all_dirs_host_paths [OF assms(1), of "map fst (cs_volumes spec)"] assms(2,3)
  by (auto simp: run_container_def demo_worker_fields port_simps DockerRunner_run_def reference_daemon_def
      daemon_run_def run_args_def)

lemma demo_tick: "\<exists>started w'. JobPoller_tick demo_worker (\<lambda>_. 3) demo_queue = (Inr (Some started), w') \<and> j_id started = ''j1''"
proof -
  let ?R = "firestore_job_repository table_collection"
  have all: "jr_list_by_statuses ?R (w_jobs demo_queue) CANCELLABLE_STATUSES = Inr [submitted_job]"
    by (rule single_listed) (simp_all add: demo_queue_jobs CANCELLABLE_STATUSES_def)
  have none: "jr_list_by_statuses ?R (w_jobs demo_queue) ACTIVE_CONTAINER_STATUSES = Inr []"
    by (simp add: tabj.list_by_statuses_empty_iff demo_queue_jobs ACTIVE_CONTAINER_STATUSES_def)
  obtain w1 where b: "begin_start demo_worker 3 demo_queue = (Inr (Some demo_claimed), w1)"
    and w1: "w_fs w1 = w_fs demo_queue" "w_docker w1 = []" using demo_begin by blast
  let ?dir = "path_of_string (job_dir_text (ws_workdir default_worker_settings) demo_claimed)"
  obtain fs where "fetch_for_job (wd_hf_hub_client demo_worker) (wd_object_storage demo_worker)
      (path_of_string (ws_hf_cache_dir default_worker_settings)) (ws_hf_cache_max_bytes default_worker_settings)
      demo_claimed ?dir (w_objects w1, w_fs demo_queue) =
      (Inr \<lparr>fd_input_dir = demo_cached, fd_read_only = True\<rparr>, (w_objects w1, fs))" and fs: "all_dirs fs"
    by (rule exE [OF demo_fetch [of "wd_object_storage demo_worker" "ws_hf_cache_max_bytes default_worker_settings" ?dir "w_objects w1"]]) auto
  then have f: "fetch_dataset demo_worker demo_claimed w1 =
      (Inr \<lparr>fd_input_dir = demo_cached, fd_read_only = True\<rparr>, w1\<lparr>w_objects := w_objects w1, w_fs := fs\<rparr>)"
    by (simp add: fetch_dataset_def demo_worker_fields(5) w1)
  let ?w2 = "w1\<lparr>w_objects := w_objects w1, w_fs := fs\<rparr>"
  let ?spec = "build_container_spec default_worker_settings demo_claimed
      (job_dir_text (ws_workdir default_worker_settings) demo_claimed) \<lparr>fd_input_dir = demo_cached, fd_read_only = True\<rparr>"
  have "cs_image ?spec \<noteq> []"
    by (simp add: build_container_spec_def Let_def policy_image_def default_worker_settings_def demo_claimed_def)
  then obtain c w3 where c: "run_container demo_worker ?spec ?w2 = (Inr c, w3)"
    using demo_run_container [of ?w2 ?spec] fs w1 by auto
  have fin: "finish_start demo_worker 3 demo_claimed w1 =
      (Inr (demo_claimed\<lparr>j_container_id := Some c\<rparr>), write_job ?R (demo_claimed\<lparr>j_container_id := Some c\<rparr>) w3)"
    unfolding finish_start_def f Let_def by (simp only: prod.case sum.case demo_worker_fields c)
  have "j_id (demo_claimed\<lparr>j_container_id := Some c\<rparr>) = ''j1''" by (simp add: demo_claimed_def)
  then show ?thesis
    using all none b fin
    by (simp add: JobPoller_tick_def process_cancellations_def demo_worker_fields start_next_queued_job_def)
qed

end
