(* ===== verification/Worker_Steps.thy ===== *)
theory Worker_Steps
  imports Worker_Main
begin

text \<open>
  The worker process between two accesses to what it shares with others: \<open>worker_pc\<close> says where in its
  round the process stands and which copies of stored documents it holds there, and \<open>worker_step\<close> is what
  it does up to the next place where a request, a sweep or a container may act. A step makes at most one
  access to the jobs, the users or the objects; \<open>t\<close> is the clock if the step reads it. The round of
  \<open>worker_tick\<close> is what these steps do when nothing acts in between (\<open>round_of_steps\<close>).
\<close>

datatype worker_pc =
    Idle
  | Cancelling datetime "Job list"
  | Stopped datetime Job "Job list"
  | Choosing
  | Selecting
  | Selected datetime Job
  | Claiming datetime Job User
  | Charging datetime Job User
  | Fetching Job
  | Launching Job FetchedDataset
  | Recording Job
  | FailingStart Job string
  | Monitoring
  | Observing Job
  | Watching Job "Progress option"
  | Observed Job "Progress option" "int option"
  | Reporting Job Progress "int option"
  | Finalizing Job int
  | Ending Job int
  | Uploading Job
  | Completing Job
  | Failing Job string bool
  | Dead exn

text \<open>A container without an exit code ends the round.\<close>

fun after_observation :: "Job \<Rightarrow> int option \<Rightarrow> worker_pc" where
  "after_observation job None = Idle"
| "after_observation job (Some exit_code) = Finalizing job exit_code"

fun worker_step ::
    "('j, 'u, 'o, 'd) WorkerDependencies \<Rightarrow> datetime \<Rightarrow> worker_pc \<Rightarrow> ('j, 'u, 'o, 'd) world \<Rightarrow>
     worker_pc \<times> ('j, 'u, 'o, 'd) world" where
  "worker_step E t Idle w =
     (case jr_list_by_statuses (wd_job_repository E) (w_jobs w) CANCELLABLE_STATUSES of
        Inl e \<Rightarrow> (Dead e, w)
      | Inr candidates \<Rightarrow> (Cancelling t candidates, w))"
| "worker_step E t (Cancelling now []) w = (Choosing, w)"
| "worker_step E t (Cancelling now (job # candidates)) w =
     (if \<not> j_cancel_requested job then (Cancelling now candidates, w)
      else
        (case stop_container (wd_docker_client E) (ws_workdir (wd_settings E)) job w of
           (Inl e, w1) \<Rightarrow> (Dead e, w1)
         | (Inr _, w1) \<Rightarrow> (Stopped now job candidates, w1)))"
| "worker_step E t (Stopped now job candidates) w =
     (case transition job CANCELLED now of
        Inl e \<Rightarrow> (Dead e, w)
      | Inr updated \<Rightarrow> (Cancelling now candidates, write_job (wd_job_repository E) updated w))"
| "worker_step E t Choosing w =
     (case jr_list_by_statuses (wd_job_repository E) (w_jobs w) ACTIVE_CONTAINER_STATUSES of
        Inl e \<Rightarrow> (Dead e, w)
      | Inr active \<Rightarrow> (if active \<noteq> [] then Monitoring else Selecting, w))"
| "worker_step E t Selecting w =
     (case jr_list_by_statuses (wd_job_repository E) (w_jobs w) [QUEUED] of
        Inl e \<Rightarrow> (Dead e, w)
      | Inr [] \<Rightarrow> (Monitoring, w)
      | Inr (job # _) \<Rightarrow> (Selected t job, w))"
| "worker_step E t (Selected now job) w =
     (case ur_get (wd_user_repository E) (w_users w) (j_user_id job) of
        Inl e \<Rightarrow> (Dead e, w)
      | Inr None \<Rightarrow> (Dead (UserMissingError (j_user_id job)), w)
      | Inr (Some user) \<Rightarrow>
          (case transition job INITIALIZING now of
             Inl e \<Rightarrow> (Dead e, w)
           | Inr moved \<Rightarrow> (Claiming now (moved\<lparr>j_heartbeat_at := Some now\<rparr>) user, w)))"
| "worker_step E t (Claiming now job user) w = (Charging now job user, write_job (wd_job_repository E) job w)"
| "worker_step E t (Charging now job user) w =
     (Fetching job,
      w\<lparr>w_users := ur_update (wd_user_repository E) (record_job_started user (date_of now)) (w_users w)\<rparr>)"
| "worker_step E t (Fetching job) w =
     (case fetch_dataset E job w of
        (Inl (DatasetFetchError m), w1) \<Rightarrow> (FailingStart job (''Failed to fetch dataset: '' @ m), w1)
      | (Inl e, w1) \<Rightarrow> (Dead e, w1)
      | (Inr dataset, w1) \<Rightarrow> (Launching job dataset, w1))"
| "worker_step E t (Launching job dataset) w =
     (case run_container E (build_container_spec (wd_settings E) job
             (job_dir_text (ws_workdir (wd_settings E)) job) dataset) w of
        (Inl e, w1) \<Rightarrow> (FailingStart job (''Failed to start training container: '' @ exn_text e), w1)
      | (Inr container_id, w1) \<Rightarrow> (Recording (job\<lparr>j_container_id := Some container_id\<rparr>), w1))"
| "worker_step E t (Recording job) w = (Monitoring, write_job (wd_job_repository E) job w)"
| "worker_step E t (FailingStart job m) w =
     (case fail_during_start (wd_job_repository E) t job m w of
        (Inl e, w1) \<Rightarrow> (Dead e, w1)
      | (Inr _, w1) \<Rightarrow> (Monitoring, w1))"
| "worker_step E t Monitoring w =
     (case jr_list_by_statuses (wd_job_repository E) (w_jobs w) COMPLETION_MONITORED_STATUSES of
        Inl e \<Rightarrow> (Dead e, w)
      | Inr [] \<Rightarrow> (Idle, w)
      | Inr (job # _) \<Rightarrow> (Observing job, w))"
| "worker_step E t (Observing job) w =
     (case read_progress (output_dir (ws_workdir (wd_settings E)) job) (w_fs w) of
        Inl e \<Rightarrow> (Dead e, w)
      | Inr progress \<Rightarrow> (Watching job progress, w))"
| "worker_step E t (Watching job progress) w =
     (case (if truthy (j_container_id job)
            then dc_get_exit_code (wd_docker_client E) (w_docker w) (the (j_container_id job)) else Inr None) of
        Inl e \<Rightarrow> (Dead e, w)
      | Inr exit_code \<Rightarrow> (Observed job progress exit_code, w))"
| "worker_step E t (Observed job (Some p) exit_code) w =
     (case start_training (wd_job_repository E) t job w of
        (Inl e, w1) \<Rightarrow> (Dead e, w1)
      | (Inr job, w1) \<Rightarrow> (Reporting job p exit_code, w1))"
| "worker_step E t (Observed job None exit_code) w =
     (if j_status job = INITIALIZING \<and> exit_code = None
      then (case mark_container_alive (wd_job_repository E) t job (w_jobs w) of
              (job, jobs) \<Rightarrow> (Idle, w\<lparr>w_jobs := jobs\<rparr>))
      else (after_observation job exit_code, w))"
| "worker_step E t (Reporting job p exit_code) w =
     (case record_progress (wd_job_repository E) t job p (w_jobs w) of
        (job, jobs) \<Rightarrow> (after_observation job exit_code, w\<lparr>w_jobs := jobs\<rparr>))"
| "worker_step E t (Finalizing job exit_code) w =
     (case start_training (wd_job_repository E) t job w of
        (Inl e, w1) \<Rightarrow> (Dead e, w1)
      | (Inr job, w1) \<Rightarrow> (Ending job exit_code, w1))"
| "worker_step E t (Ending job exit_code) w =
     (if exit_code \<noteq> 0
      then
        (case (if truthy (j_container_id job)
               then dc_get_logs (wd_docker_client E) (w_docker w) (the (j_container_id job)) 50 else Inr []) of
           Inl e \<Rightarrow> (Dead e, w)
         | Inr logs \<Rightarrow> (Failing job (exit_message exit_code logs) True, w))
      else
        (case package_checkpoint (wd_deflated_size E) (checkpoint_dir (ws_workdir (wd_settings E)) job)
                (output_dir (ws_workdir (wd_settings E)) job @ [''checkpoint.zip'']) (w_fs w) of
           (Inl e, fs) \<Rightarrow> (Failing job (''Failed to package checkpoint: '' @ exn_text e) True, w\<lparr>w_fs := fs\<rparr>)
         | (Inr _, fs) \<Rightarrow> (Uploading job, w\<lparr>w_fs := fs\<rparr>)))"
| "worker_step E t (Uploading job) w =
     (case upload_with_retries (wd_object_storage E) (wd_upload_retries E) (checkpoint_object_path job)
             (output_dir (ws_workdir (wd_settings E)) job @ [''checkpoint.zip'']) (w_fs w) (w_objects w) of
        (uploaded, objects) \<Rightarrow>
          (if uploaded then Completing job else Failing job UPLOAD_FAILED_MESSAGE False,
           w\<lparr>w_objects := objects\<rparr>))"
| "worker_step E t (Completing job) w =
     (case mark_completed (wd_job_repository E) (ws_workdir (wd_settings E)) t job (checkpoint_object_path job) w of
        (Inl e, w1) \<Rightarrow> (Dead e, w1)
      | (Inr _, w1) \<Rightarrow> (Idle, w1))"
| "worker_step E t (Failing job m cleanup) w =
     (case mark_failed (wd_job_repository E) (ws_workdir (wd_settings E)) t job m cleanup w of
        (Inl e, w1) \<Rightarrow> (Dead e, w1)
      | (Inr _, w1) \<Rightarrow> (Idle, w1))"
| "worker_step E t (Dead e) w = (Dead e, w)"

text \<open>Steps without anything in between, each with its reading of the clock.\<close>

fun worker_steps ::
    "('j, 'u, 'o, 'd) WorkerDependencies \<Rightarrow> datetime list \<Rightarrow> worker_pc \<times> ('j, 'u, 'o, 'd) world \<Rightarrow>
     worker_pc \<times> ('j, 'u, 'o, 'd) world" where
  "worker_steps E [] x = x"
| "worker_steps E (t # ts) x = worker_steps E ts (worker_step E t (fst x) (snd x))"

subsection \<open>An uninterrupted round\<close>

definition walks ::
    "('j, 'u, 'o, 'd) WorkerDependencies \<Rightarrow> datetime set \<Rightarrow> worker_pc \<times> ('j, 'u, 'o, 'd) world \<Rightarrow>
     worker_pc \<times> ('j, 'u, 'o, 'd) world \<Rightarrow> bool" where
  "walks E T x y \<longleftrightarrow> (\<exists>ts. set ts \<subseteq> T \<and> worker_steps E ts x = y)"

lemma worker_steps_append: "worker_steps E (ts @ us) x = worker_steps E us (worker_steps E ts x)"
  by (induction ts arbitrary: x) simp_all

lemma walks_refl: "walks E T x x"
  unfolding walks_def by (rule exI [of _ "[]"]) simp

lemma walks_step: "worker_step E t pc w = x \<Longrightarrow> t \<in> T \<Longrightarrow> walks E T x y \<Longrightarrow> walks E T (pc, w) y"
  unfolding walks_def by (elim exE conjE) (rule_tac x = "t # ts" in exI, simp)

lemma walks_next: "t \<in> T \<Longrightarrow> walks E T (worker_step E t pc w) y \<Longrightarrow> walks E T (pc, w) y"
  by (rule walks_step [OF refl])

lemma walks_trans: "walks E T x y \<Longrightarrow> walks E T y z \<Longrightarrow> walks E T x z"
  unfolding walks_def by (elim exE conjE) (rule_tac x = "ts @ tsa" in exI, simp add: worker_steps_append)

text \<open>Where a part of the round ends.\<close>

abbreviation continue_at :: "worker_pc \<Rightarrow> exn + 'a \<Rightarrow> worker_pc" where
  "continue_at pc r \<equiv> (case r of Inl e \<Rightarrow> Dead e | Inr _ \<Rightarrow> pc)"

lemma option_answer:
  obtains e where "q = Inl e" | "q = Inr None" | x where "q = Inr (Some x)"
proof (cases q)
  case (Inr y)
  then show thesis using that by (cases y) simp_all
qed (rule that(1))

lemma list_answer:
  obtains e where "q = Inl e" | "q = Inr []" | x xs where "q = Inr (x # xs)"
proof (cases q)
  case (Inr y)
  then show thesis using that by (cases y) simp_all
qed (rule that(1))

lemma walks_cancel:
  assumes "t \<in> T"
    and "cancel_requested_jobs (wd_job_repository E) (wd_docker_client E) (ws_workdir (wd_settings E)) now js w = (r, w')"
  shows "walks E T (Cancelling now js, w) (continue_at Choosing r, w')"
  using assms(2)
proof (induction js arbitrary: w r)
  case Nil
  then show ?case by (auto intro!: walks_step [OF _ assms(1)] walks_refl)
next
  case (Cons j js)
  show ?case
  proof (cases "j_cancel_requested j")
    case False
    with Cons show ?thesis by (auto intro: walks_step [OF _ assms(1)])
  next
    case True
    obtain q w1 where q: "stop_container (wd_docker_client E) (ws_workdir (wd_settings E)) j w = (q, w1)" by fastforce
    show ?thesis
    proof (cases q)
      case (Inl e)
      with True q Cons.prems show ?thesis by (auto intro!: walks_step [OF _ assms(1)] walks_refl)
    next
      case (Inr u)
      have stop: "walks E T (Cancelling now (j # js), w) y" if "walks E T (Stopped now j js, w1) y" for y
        using True q Inr that by (intro walks_step [OF _ assms(1)]) simp_all
      show ?thesis
      proof (cases "transition j CANCELLED now")
        case (Inl e)
        with True q Inr Cons.prems have "r = Inl e" "w' = w1" by (auto split: if_splits)
        with Inl show ?thesis by (intro stop) (auto intro!: walks_step [OF _ assms(1)] walks_refl split: if_splits)
      next
        case (Inr j')
        obtain r' w2 where rec: "cancel_requested_jobs (wd_job_repository E) (wd_docker_client E)
            (ws_workdir (wd_settings E)) now js (write_job (wd_job_repository E) j' w1) = (r', w2)" by fastforce
        with True q \<open>q = Inr u\<close> Inr Cons.prems have "w' = w2" "continue_at Choosing r = continue_at Choosing r'"
          by (cases r'; auto split: if_splits)+
        with Cons.IH [of "write_job (wd_job_repository E) j' w1" r'] rec Inr show ?thesis
          by (intro stop) (auto intro!: walks_step [OF _ assms(1)] split: if_splits)
      qed
    qed
  qed
qed

lemma walks_launch:
  assumes "t \<in> T" and run: "finish_start E t j w = (r, w')"
  shows "walks E T (Fetching j, w) (continue_at Monitoring r, w')"
proof -
  note step = walks_step [OF _ assms(1)]
  have failing: "walks E T (FailingStart j m, w1) (continue_at Monitoring r, w')"
    if "fail_during_start (wd_job_repository E) t j m w1 = (r, w')" for m w1
    using that by (cases r) (auto intro!: step walks_refl)
  obtain q w1 where q: "fetch_dataset E j w = (q, w1)" by fastforce
  show ?thesis
  proof (cases q)
    case (Inl e)
    show ?thesis
    proof (cases "\<exists>m. e = DatasetFetchError m")
      case True
      with Inl q run show ?thesis by (intro step) (auto simp: finish_start_def intro!: failing)
    next
      case False
      then have "worker_step E t (Fetching j) w = (Dead e, w1)" "finish_start E t j w = (Inl e, w1)"
        using Inl q by (cases e; simp add: finish_start_def Let_def)+
      with run show ?thesis by (intro step) (auto intro: walks_refl)
    qed
  next
    case (Inr ds)
    let ?spec = "build_container_spec (wd_settings E) j (job_dir_text (ws_workdir (wd_settings E)) j) ds"
    obtain p w2 where p: "run_container E ?spec w1 = (p, w2)" by fastforce
    have "walks E T (Launching j ds, w1) (continue_at Monitoring r, w')"
    proof (cases p)
      case (Inl e)
      with run q Inr p show ?thesis by (intro step) (auto simp: finish_start_def Let_def intro!: failing)
    next
      case (Inr c)
      with run q \<open>q = Inr ds\<close> p show ?thesis
        by (intro step) (auto simp: finish_start_def Let_def intro!: step walks_refl)
    qed
    with Inr q show ?thesis by (intro step) simp_all
  qed
qed

lemma walks_begin:
  assumes "t \<in> T" and run: "begin_start E t w = (r, w')"
  shows "walks E T (Selecting, w) (case r of Inl e \<Rightarrow> Dead e | Inr None \<Rightarrow> Monitoring | Inr (Some j) \<Rightarrow> Fetching j, w')"
proof -
  note step = walks_step [OF _ assms(1)]
  let ?R = "wd_job_repository E" and ?U = "wd_user_repository E"
  consider e where "jr_list_by_statuses ?R (w_jobs w) [QUEUED] = Inl e" | "jr_list_by_statuses ?R (w_jobs w) [QUEUED] = Inr []"
    | j js where "jr_list_by_statuses ?R (w_jobs w) [QUEUED] = Inr (j # js)"
    by (rule list_answer)
  then show ?thesis
  proof cases
    case (3 j js)
    have "walks E T (Selected t j, w) (case r of Inl e \<Rightarrow> Dead e | Inr None \<Rightarrow> Monitoring | Inr (Some j) \<Rightarrow> Fetching j, w')"
    proof (cases "\<exists>usr moved. ur_get ?U (w_users w) (j_user_id j) = Inr (Some usr) \<and> transition j INITIALIZING t = Inr moved")
      case True
      then obtain usr moved where u: "ur_get ?U (w_users w) (j_user_id j) = Inr (Some usr)" "transition j INITIALIZING t = Inr moved"
        by blast
      have "walks E T (Claiming t (moved\<lparr>j_heartbeat_at := Some t\<rparr>) usr, w) (Fetching (moved\<lparr>j_heartbeat_at := Some t\<rparr>), w')"
        using run 3 u by (intro step) (auto simp: begin_start_def Let_def intro!: step walks_refl)
      moreover have "r = Inr (Some (moved\<lparr>j_heartbeat_at := Some t\<rparr>))" using run 3 u by (auto simp: begin_start_def Let_def)
      ultimately show ?thesis using u by (intro step) simp_all
    next
      case False
      with run 3 show ?thesis
        by (intro step) (auto simp: begin_start_def intro!: walks_refl split: sum.splits option.splits)
    qed
    with 3 show ?thesis by (intro step) simp_all
  qed (use run in \<open>auto simp: begin_start_def intro!: step walks_refl\<close>)
qed

lemma walks_choose:
  assumes run: "(case jr_list_by_statuses (wd_job_repository E) (w_jobs w) ACTIVE_CONTAINER_STATUSES of
      Inl e \<Rightarrow> (Inl e, w)
    | Inr active \<Rightarrow> if active \<noteq> [] then (Inr None, w) else start_next_queued_job E now w) = (r, w')"
  shows "walks E (range now) (Choosing, w) (continue_at Monitoring r, w')"
proof (rule walks_next [OF rangeI [of now 0]])
  let ?goal = "walks E (range now) (worker_step E (now 0) Choosing w) (continue_at Monitoring r, w')"
  show ?goal
  proof (cases "jr_list_by_statuses (wd_job_repository E) (w_jobs w) ACTIVE_CONTAINER_STATUSES = Inr []")
    case True
    then have here: "worker_step E (now 0) Choosing w = (Selecting, w)" by simp
    obtain q w1 where q: "begin_start E (now 1) w = (q, w1)" by fastforce
    note first = walks_begin [OF rangeI [of now 1] q]
    from option_answer [of q] show ?thesis
    proof cases
      case (1 e)
      with run True q have "r = Inl e" "w' = w1" by (simp_all add: start_next_queued_job_def)
      with first 1 here show ?thesis by simp
    next
      case 2
      with run True q have "r = Inr None" "w' = w1" by (simp_all add: start_next_queued_job_def)
      with first 2 here show ?thesis by simp
    next
      case (3 j)
      obtain p w2 where p: "finish_start E (now 2) j w1 = (p, w2)" by fastforce
      have "w' = w2 \<and> continue_at Monitoring r = continue_at Monitoring p"
        using run True q 3 p by (cases p) (auto simp: start_next_queued_job_def)
      moreover have "walks E (range now) (Selecting, w) (Fetching j, w1)" using first 3 by simp
      ultimately show ?thesis using walks_trans [OF _ walks_launch [OF rangeI [of now 2] p]] here by simp
    qed
  next
    case False
    show ?thesis
    proof (cases "jr_list_by_statuses (wd_job_repository E) (w_jobs w) ACTIVE_CONTAINER_STATUSES")
      case (Inl e)
      with run show ?thesis by (auto intro: walks_refl)
    next
      case (Inr js)
      with run False show ?thesis by (auto intro: walks_refl)
    qed
  qed
qed

lemma walks_poller:
  assumes run: "JobPoller_tick E now w = (r, w')"
  shows "walks E (range now) (Idle, w) (continue_at Monitoring r, w')"
proof -
  note step = walks_step [where T = "range now" and t = "now 0", OF _ rangeI]
  let ?R = "wd_job_repository E"
  show ?thesis
  proof (cases "jr_list_by_statuses ?R (w_jobs w) CANCELLABLE_STATUSES")
    case (Inl e)
    with run show ?thesis by (auto simp: JobPoller_tick_def process_cancellations_def intro!: step walks_refl)
  next
    case (Inr js)
    obtain q w1 where q: "cancel_requested_jobs ?R (wd_docker_client E) (ws_workdir (wd_settings E)) (now 0) js w = (q, w1)"
      by fastforce
    have first: "walks E (range now) (Idle, w) (continue_at Choosing q, w1)"
      using Inr by (intro step) (auto intro: walks_cancel [OF rangeI [of now 0] q])
    show ?thesis
    proof (cases q)
      case Inl
      with run \<open>_ = Inr js\<close> q have "r = Inl (projl q)" "w' = w1"
        by (auto simp: JobPoller_tick_def process_cancellations_def)
      with first Inl show ?thesis by simp
    next
      case (Inr cs)
      have tick: "(case jr_list_by_statuses ?R (w_jobs w1) ACTIVE_CONTAINER_STATUSES of
          Inl e \<Rightarrow> (Inl e, w1)
        | Inr active \<Rightarrow> if active \<noteq> [] then (Inr None, w1) else start_next_queued_job E now w1) = (r, w')"
        using run \<open>_ = Inr js\<close> q Inr by (simp add: JobPoller_tick_def process_cancellations_def)
      have "walks E (range now) (Choosing, w1) (continue_at Monitoring r, w')"
        using tick by (rule walks_choose)
      with first Inr show ?thesis by (auto intro: walks_trans)
    qed
  qed
qed

lemma walks_after:
  assumes "t \<in> T" and "finalize_job E now j code w = (r, w')" and "{now 2, now 3} \<subseteq> T"
  shows "walks E T (Finalizing j code, w) (continue_at Idle r, w')"
proof -
  note step = walks_step [OF _ assms(1)]
  let ?R = "wd_job_repository E" and ?d = "ws_workdir (wd_settings E)"
  have failing: "walks E T (Failing i m b, w1) (continue_at Idle q, w2)"
    if "mark_failed ?R ?d (now 3) i m b w1 = (q, w2)" for i m b w1 q w2
    using that assms(3) by (cases q) (auto intro!: walks_step [of _ "now 3"] walks_refl)
  have completing: "walks E T (Completing i, w1) (continue_at Idle q, w2)"
    if "mark_completed ?R ?d (now 3) i (checkpoint_object_path i) w1 = (q, w2)" for i w1 q w2
    using that assms(3) by (cases q) (auto intro!: walks_step [of _ "now 3"] walks_refl)
  have good: "walks E T (Ending i code, w1) (continue_at Idle q, w2)"
    if run: "finish_successful_container E (now 3) i w1 = (q, w2)" and code: "code = 0" for i w1 q w2
  proof -
    obtain p fs where p: "package_checkpoint (wd_deflated_size E) (checkpoint_dir ?d i)
        (output_dir ?d i @ [''checkpoint.zip'']) (w_fs w1) = (p, fs)" by fastforce
    show ?thesis
    proof (cases p)
      case (Inl e)
      with p run code show ?thesis by (intro step) (auto simp: finish_successful_container_def Let_def intro!: failing)
    next
      case (Inr u)
      obtain b os where b: "upload_with_retries (wd_object_storage E) (wd_upload_retries E) (checkpoint_object_path i)
          (output_dir ?d i @ [''checkpoint.zip'']) fs (w_objects w1) = (b, os)" by fastforce
      have "walks E T (Uploading i, w1\<lparr>w_fs := fs\<rparr>) (continue_at Idle q, w2)"
        using run p Inr b
        by (intro step) (auto simp: finish_successful_container_def Let_def intro!: failing completing split: if_splits)
      with p Inr code show ?thesis by (intro step) simp_all
    qed
  qed
  have bad: "walks E T (Ending i code, w1) (continue_at Idle q, w2)"
    if run: "finish_failed_container E (now 3) i code w1 = (q, w2)" and code: "code \<noteq> 0" for i w1 q w2
  proof (cases "if truthy (j_container_id i) then dc_get_logs (wd_docker_client E) (w_docker w1) (the (j_container_id i)) 50 else Inr []")
    case (Inl e)
    with run code show ?thesis by (intro step) (auto simp: finish_failed_container_def intro: walks_refl)
  next
    case (Inr logs)
    with run code show ?thesis by (intro step) (auto simp: finish_failed_container_def intro!: failing)
  qed
  obtain q w1 where q: "start_training ?R (now 2) j w = (q, w1)" by fastforce
  have enter: "walks E T (Finalizing j code, w) y" if "walks E T (case q of Inl e \<Rightarrow> Dead e | Inr i \<Rightarrow> Ending i code, w1) y" for y
    using that q assms(3) by (intro walks_step [of _ "now 2"]) (auto split: sum.splits)
  show ?thesis
  proof (cases q)
    case (Inl e)
    with assms(2) q show ?thesis by (intro enter) (auto simp: finalize_job_def intro: walks_refl)
  next
    case (Inr i)
    show ?thesis
    proof (cases "code = 0")
      case True
      with assms(2) q Inr have "finish_successful_container E (now 3) i w1 = (r, w')" by (simp add: finalize_job_def)
      from good [OF this True] Inr show ?thesis by (intro enter) simp
    next
      case False
      with assms(2) q Inr have "finish_failed_container E (now 3) i code w1 = (r, w')" by (simp add: finalize_job_def)
      from bad [OF this False] Inr show ?thesis by (intro enter) simp
    qed
  qed
qed

lemma walks_observe:
  assumes run: "observe_job (wd_job_repository E) now j p code w = (q, w1)" and in_T: "\<And>n. now n \<in> T"
  shows "walks E T (Observed j p code, w) (case q of Inl e \<Rightarrow> Dead e | Inr i \<Rightarrow> after_observation i code, w1)"
proof (cases p)
  case None
  with run show ?thesis
    by (intro walks_step [OF _ in_T [of 1]])
      (auto simp: observe_job_def intro: walks_refl split: if_splits prod.splits)
next
  case (Some prog)
  obtain x w2 where x: "start_training (wd_job_repository E) (now 0) j w = (x, w2)" by fastforce
  have enter: "walks E T (Observed j p code, w) y" if "walks E T (case x of Inl e \<Rightarrow> Dead e | Inr i \<Rightarrow> Reporting i prog code, w2) y" for y
    using that x Some by (intro walks_step [OF _ in_T [of 0]]) (auto split: sum.splits)
  show ?thesis
  proof (cases x)
    case (Inl e)
    with run x Some show ?thesis by (intro enter) (auto simp: observe_job_def intro: walks_refl)
  next
    case (Inr i)
    with run x Some show ?thesis
      by (intro enter) (auto simp: observe_job_def intro!: walks_step [OF _ in_T [of 1]] walks_refl split: prod.splits)
  qed
qed

lemma walks_observed:
  assumes in_T: "\<And>n. now n \<in> T" and obs: "observe_job (wd_job_repository E) now j p code w = (q, w1)"
    and rest: "then_do (q, w1) (\<lambda>job w1. case code of
        None \<Rightarrow> (Inr (Some job), w1)
      | Some c \<Rightarrow> then_do (finalize_job E now job c w1) (\<lambda>job w2. (Inr (Some job), w2))) = (r, w')"
  shows "walks E T (Observed j p code, w) (continue_at Idle r, w')"
proof (rule walks_trans [OF walks_observe [OF obs in_T]])
  show "walks E T (case q of Inl e \<Rightarrow> Dead e | Inr i \<Rightarrow> after_observation i code, w1) (continue_at Idle r, w')"
  proof (cases q)
    case (Inl e)
    with rest show ?thesis by (auto intro: walks_refl)
  next
    case (Inr i)
    show ?thesis
    proof (cases code)
      case None
      with rest Inr show ?thesis by (auto intro: walks_refl)
    next
      case (Some n)
      obtain x w2 where x: "finalize_job E now i n w1 = (x, w2)" by fastforce
      have "w' = w2 \<and> continue_at Idle r = continue_at Idle x" using rest Inr Some x by (cases x) auto
      with walks_after [OF in_T [of 0] x] in_T Inr Some show ?thesis by simp
    qed
  qed
qed

lemma walks_monitor:
  assumes run: "JobCompletionMonitor_tick E now w = (r, w')" and T: "range now \<subseteq> T"
  shows "walks E T (Monitoring, w) (continue_at Idle r, w')"
proof (rule walks_next)
  have in_T: "now n \<in> T" for n using T by blast
  then show "now 0 \<in> T" .
  let ?R = "wd_job_repository E" and ?d = "ws_workdir (wd_settings E)"
  from list_answer [of "jr_list_by_statuses ?R (w_jobs w) COMPLETION_MONITORED_STATUSES"]
  show "walks E T (worker_step E (now 0) Monitoring w) (continue_at Idle r, w')"
  proof cases
    case (1 e)
    with run show ?thesis by (auto simp: JobCompletionMonitor_tick_def intro: walks_refl)
  next
    case 2
    with run show ?thesis by (auto simp: JobCompletionMonitor_tick_def intro: walks_refl)
  next
    case (3 j js)
    have "walks E T (worker_step E (now 0) (Observing j) w) (continue_at Idle r, w')"
    proof (cases "read_progress (output_dir ?d j) (w_fs w)")
      case (Inl e)
      with run 3 show ?thesis by (auto simp: JobCompletionMonitor_tick_def intro: walks_refl)
    next
      case (Inr p)
      note p = this
      have "walks E T (worker_step E (now 0) (Watching j p) w) (continue_at Idle r, w')"
      proof (cases "if truthy (j_container_id j) then dc_get_exit_code (wd_docker_client E) (w_docker w) (the (j_container_id j))
          else Inr None")
        case (Inl e)
        with run 3 p show ?thesis by (auto simp: JobCompletionMonitor_tick_def intro: walks_refl)
      next
        case (Inr code)
        obtain q w1 where q: "observe_job ?R now j p code w = (q, w1)" by fastforce
        have "walks E T (Observed j p code, w) (continue_at Idle r, w')"
          using run 3 p Inr q by (intro walks_observed [OF in_T q]) (simp add: JobCompletionMonitor_tick_def)
        with Inr show ?thesis by simp
      qed
      then have "walks E T (Watching j p, w) (continue_at Idle r, w')" by (rule walks_next [OF in_T])
      with p show ?thesis by simp
    qed
    then have "walks E T (Observing j, w) (continue_at Idle r, w')" by (rule walks_next [OF in_T])
    with 3 show ?thesis by simp
  qed
qed

text \<open>Under the readings of \<open>now\<close>, an uninterrupted round is the round of \<open>worker_tick\<close>.\<close>

lemma walks_tick:
  assumes "worker_tick E now w = (r, w')"
  shows "walks E (range now) (Idle, w) (continue_at Idle r, w')"
proof -
  obtain q w1 where q: "JobPoller_tick E now w = (q, w1)" by fastforce
  note first = walks_poller [OF q]
  show ?thesis
  proof (cases q)
    case (Inl e)
    with assms q have "r = Inl e" "w' = w1" by (simp_all add: worker_tick_def)
    with first Inl show ?thesis by simp
  next
    case (Inr x)
    obtain p w2 where p: "JobCompletionMonitor_tick E (\<lambda>n. now (3 + n)) w1 = (p, w2)" by fastforce
    have "w' = w2 \<and> continue_at Idle r = continue_at Idle p"
      using assms q Inr p by (cases p) (auto simp: worker_tick_def)
    moreover have "range (\<lambda>n. now (3 + n)) \<subseteq> range now" by blast
    ultimately show ?thesis using walks_trans [OF first] walks_monitor [OF p, of "range now"] Inr by simp
  qed
qed

subsection \<open>Properties\<close>


end
