(* ===== verification/Interleaving.thy ===== *)
theory Interleaving
  imports System Worker_Steps
begin

text \<open>
  The running service with the worker's round taken apart: requests, timeout sweeps, uploads and containers
  act between any two steps of the worker, in particular while it fetches a data set, waits for
  \<open>docker run\<close> or uploads a checkpoint, and the process may die at any of them and start again. A request
  or a sweep itself runs to its end. The worker then holds copies of jobs that may be out of date; what is
  true nevertheless is stated per place of the worker (\<open>at_pc\<close>).
\<close>

type_synonym ('j, 'u, 'o, 'd) live = "(('j, 'u, 'o, 'd) world \<times> datetime) \<times> worker_pc"

inductive live_step ::
    "('j, 'u, 'o) Dependencies \<Rightarrow> ('j, 'u, 'o, 'd) WorkerDependencies \<Rightarrow>
     ('j \<Rightarrow> string \<rightharpoonup> Job) \<Rightarrow> ('u \<Rightarrow> string \<rightharpoonup> User) \<Rightarrow> ('o \<Rightarrow> string \<rightharpoonup> blob) \<Rightarrow>
     ('d \<Rightarrow> string \<rightharpoonup> (string \<times> string) list) \<Rightarrow> ('j, 'u, 'o, 'd) live \<Rightarrow> ('j, 'u, 'o, 'd) live \<Rightarrow> bool"
  for P E jobs_of users_of objects_of running where
  environment: "system_step P E jobs_of users_of objects_of running a s s' \<Longrightarrow> a \<noteq> WorkerRound \<Longrightarrow> a \<noteq> WorkerRestart \<Longrightarrow>
    live_step P E jobs_of users_of objects_of running (s, pc) (s', pc)"
| worker: "t \<le> t' \<Longrightarrow> worker_step E t' pc w = (pc', w') \<Longrightarrow>
    live_step P E jobs_of users_of objects_of running ((w, t), pc) ((w', t'), pc')"
| restart: "worker_startup E time w = (r, w') \<Longrightarrow>
    live_step P E jobs_of users_of objects_of running ((w, t), pc) ((w', t), continue_at Idle r)"

inductive live_run ::
    "('j, 'u, 'o) Dependencies \<Rightarrow> ('j, 'u, 'o, 'd) WorkerDependencies \<Rightarrow>
     ('j \<Rightarrow> string \<rightharpoonup> Job) \<Rightarrow> ('u \<Rightarrow> string \<rightharpoonup> User) \<Rightarrow> ('o \<Rightarrow> string \<rightharpoonup> blob) \<Rightarrow>
     ('d \<Rightarrow> string \<rightharpoonup> (string \<times> string) list) \<Rightarrow> ('j, 'u, 'o, 'd) live \<Rightarrow> ('j, 'u, 'o, 'd) live \<Rightarrow> bool"
  for P E jobs_of users_of objects_of running where
  live_refl: "live_run P E jobs_of users_of objects_of running x x"
| live_more: "live_run P E jobs_of users_of objects_of running x y \<Longrightarrow>
    live_step P E jobs_of users_of objects_of running y z \<Longrightarrow> live_run P E jobs_of users_of objects_of running x z"

subsection \<open>What acts beside the worker\<close>

definition timed_out :: "Job \<Rightarrow> bool" where
  "timed_out j \<longleftrightarrow> j_status j = FAILED \<and> j_error_message j = Some TIMEOUT_ERROR_MESSAGE"

text \<open>A job under the hands of requests and sweeps, and the whole of jobs and containers.\<close>

definition env_job :: "Job \<Rightarrow> Job \<Rightarrow> bool" where
  "env_job i i' \<longleftrightarrow> same_submission i i' \<and> j_container_id i' = j_container_id i \<and>
     (j_status i' = j_status i \<or> monitored (j_status i) \<and> timed_out i') \<and>
     (j_status i \<in> set TERMINAL_STATUSES \<longrightarrow> i' = i)"

definition env_change ::
    "(string \<rightharpoonup> Job) \<Rightarrow> (string \<rightharpoonup> (string \<times> string) list) \<Rightarrow> (string \<rightharpoonup> Job) \<Rightarrow>
     (string \<rightharpoonup> (string \<times> string) list) \<Rightarrow> bool" where
  "env_change J run J' run' \<longleftrightarrow>
     (\<forall>k i. J k = Some i \<longrightarrow> (\<exists>i'. J' k = Some i' \<and> env_job i i')) \<and>
     (\<forall>k i'. J k = None \<longrightarrow> J' k = Some i' \<longrightarrow> j_status i' = QUEUED \<and> j_container_id i' = None) \<and>
     (\<forall>c ls. run' c = Some ls \<longrightarrow> run c = Some ls)"

definition env_events :: "event set" where
  "env_events = {Pass, Submit, RequestCancel, Timeout, Stop, DropUpload, PutUpload, Register, EditUser}"

lemma same_submission_trans: "same_submission i j \<Longrightarrow> same_submission j k \<Longrightarrow> same_submission i k"
  by (simp add: same_submission_def)

lemma env_job_refl [simp]: "env_job i i"
  by (simp add: env_job_def)

lemma env_job_trans: "env_job i j \<Longrightarrow> env_job j k \<Longrightarrow> env_job i k"
  by (auto simp: env_job_def timed_out_def status_simps dest: same_submission_trans)

lemma env_change_refl [simp]: "env_change J run J run"
  by (auto simp: env_change_def)

lemma env_change_jobs [simp]: "(\<And>c ls. run' c = Some ls \<Longrightarrow> run c = Some ls) \<Longrightarrow> env_change J run J run'"
  by (auto simp: env_change_def)

lemma env_change_trans:
  assumes ab: "env_change J run J1 run1" and bc: "env_change J1 run1 J2 run2"
  shows "env_change J run J2 run2"
  unfolding env_change_def
proof (intro conjI allI impI)
  fix k i assume "J k = Some i"
  with ab obtain i1 where i1: "J1 k = Some i1" "env_job i i1" unfolding env_change_def by blast
  with bc obtain i2 where "J2 k = Some i2" "env_job i1 i2" unfolding env_change_def by blast
  with i1 show "\<exists>i'. J2 k = Some i' \<and> env_job i i'" using env_job_trans by blast
next
  fix k i2 assume none: "J k = None" and i2: "J2 k = Some i2"
  show "j_status i2 = QUEUED" "j_container_id i2 = None"
  proof (atomize (full), cases "J1 k")
    case None
    with bc i2 show "j_status i2 = QUEUED \<and> j_container_id i2 = None" unfolding env_change_def by blast
  next
    case (Some i1)
    with ab none have "j_status i1 = QUEUED" "j_container_id i1 = None" unfolding env_change_def by blast+
    moreover from bc Some i2 have "env_job i1 i2" unfolding env_change_def by fastforce
    ultimately show "j_status i2 = QUEUED \<and> j_container_id i2 = None" by (auto simp: env_job_def)
  qed
next
  fix c ls assume "run2 c = Some ls"
  with ab bc show "run c = Some ls" unfolding env_change_def by blast
qed

lemma env_change_write:
  assumes "J (j_id j) = Some j" and "env_job j j'"
  shows "env_change J run (J(j_id j' \<mapsto> j')) run"
proof -
  have "j_id j' = j_id j" using assms(2) by (simp add: env_job_def same_submission_def)
  with assms show ?thesis by (auto simp: env_change_def)
qed

lemma step_env_change:
  assumes step: "sys_step e s s'" and e: "e \<in> env_events"
  shows "env_change (s_jobs s) (s_running s) (s_jobs s') (s_running s')"
  using step
proof (cases rule: sys_step.cases)
  case (submit t0 t i u usr n st ref p)
  then have "s_jobs s' = (s_jobs s)(i \<mapsto> new_job i u p st ref n t)" "s_running s' = s_running s" "s_jobs s i = None"
    by simp_all
  then show ?thesis by (auto simp: env_change_def new_job_def)
next
  case (request_cancel t j j')
  have "env_job j j'" using request_cancel(5)
    by (auto simp: request_cancel_Inr_iff env_job_def same_submission_def status_simps)
  with env_change_write [where J = "s_jobs s", OF request_cancel(4) this] request_cancel(2) show ?thesis by simp
next
  case (timeout t j)
  have "monitored (j_status j)" using timeout(5) is_timed_out_monitored
    by (auto simp: timed_out_job_def monitored_def)
  then have "env_job j (timeout_version t j)"
    by (auto simp: env_job_def timed_out_def timeout_version_def same_submission_def monitored_def status_simps)
  with env_change_write [where J = "s_jobs s", OF timeout(4) this] timeout(2) show ?thesis by simp
next
  case (stop c)
  then show ?thesis by (auto simp: env_change_def split: if_splits)
qed (use e in \<open>simp_all add: env_events_def\<close>)

lemma steps_env_change:
  "sys_steps A s s' \<Longrightarrow> A \<subseteq> env_events \<Longrightarrow> env_change (s_jobs s) (s_running s) (s_jobs s') (s_running s')"
  by (induction rule: sys_steps.induct) (auto intro: env_change_trans [OF _ step_env_change])

text \<open>A user has one queued job.\<close>

definition one_queued :: "(string \<rightharpoonup> Job) \<Rightarrow> bool" where
  "one_queued J \<longleftrightarrow> (\<forall>k k' i j. J k = Some i \<longrightarrow> J k' = Some j \<longrightarrow> j_user_id i = j_user_id j \<longrightarrow>
     j_status i = QUEUED \<longrightarrow> j_status j = QUEUED \<longrightarrow> k = k')"

lemma one_queued_write:
  assumes one: "one_queued J" and j': "j_status j' = QUEUED \<Longrightarrow> \<exists>j. J k = Some j \<and> j_status j = QUEUED \<and> j_user_id j' = j_user_id j"
  shows "one_queued (J(k \<mapsto> j'))"
  unfolding one_queued_def
proof (intro allI impI)
  fix l l' a b
  assume ab: "(J(k \<mapsto> j')) l = Some a" "(J(k \<mapsto> j')) l' = Some b" "j_user_id a = j_user_id b" "j_status a = QUEUED" "j_status b = QUEUED"
  have old: "\<exists>a'. J m = Some a' \<and> j_status a' = QUEUED \<and> j_user_id a' = j_user_id x"
    if "(J(k \<mapsto> j')) m = Some x" "j_status x = QUEUED" for m x
    using that j' by (cases "m = k") auto
  from old [OF ab(1,4)] old [OF ab(2,5)] ab(3) one show "l = l'" unfolding one_queued_def by metis
qed

lemma one_queued_new:
  assumes one: "one_queued J" and "\<not> has_active_job J (j_user_id j')"
  shows "one_queued (J(k \<mapsto> j'))"
proof -
  have no: "j_user_id i \<noteq> j_user_id j'" if "J l = Some i" "j_status i = QUEUED" for l i
    using assms(2) that unfolding has_active_job_def by (auto simp: status_simps)
  show ?thesis
    unfolding one_queued_def
  proof (intro allI impI)
    fix l l' a b
    assume "(J(k \<mapsto> j')) l = Some a" "(J(k \<mapsto> j')) l' = Some b" "j_user_id a = j_user_id b" "j_status a = QUEUED" "j_status b = QUEUED"
    with one no show "l = l'" unfolding one_queued_def by (cases "l = k"; cases "l' = k") (auto, metis+)
  qed
qed

lemma step_one_queued:
  assumes step: "sys_step e s s'" and e: "e \<in> env_events" and one: "one_queued (s_jobs s)"
  shows "one_queued (s_jobs s')"
  using step
proof (cases rule: sys_step.cases)
  case (submit t0 t i u usr n st ref p)
  then show ?thesis using one_queued_new [OF one, of "new_job i u p st ref n t" i] by (simp add: new_job_def)
next
  case (request_cancel t j j')
  have "one_queued ((s_jobs s)(j_id j' \<mapsto> j'))"
    by (rule one_queued_write [OF one]) (use request_cancel in \<open>auto simp: request_cancel_Inr_iff\<close>)
  with request_cancel(2) show ?thesis by simp
next
  case (timeout t j)
  then show ?thesis using one_queued_write [OF one, of "timeout_version t j"] by simp
qed (use e one in \<open>simp_all add: env_events_def\<close>)

lemma steps_one_queued:
  "sys_steps A s s' \<Longrightarrow> A \<subseteq> env_events \<Longrightarrow> one_queued (s_jobs s) \<Longrightarrow> one_queued (s_jobs s')"
  by (induction rule: sys_steps.induct) (auto intro: step_one_queued)

subsection \<open>What the worker may rely on, place by place\<close>

text \<open>
  A copy the worker holds: the job is stored with the container the copy has, and has failed in the
  meantime or is not ahead of the copy.
\<close>

definition copy_of :: "(string \<rightharpoonup> Job) \<Rightarrow> Job \<Rightarrow> bool" where
  "copy_of J h \<longleftrightarrow> (\<exists>i. J (j_id h) = Some i \<and> same_submission i h \<and> j_container_id i = j_container_id h \<and>
     (j_status i = FAILED \<or> j_status i \<notin> set TERMINAL_STATUSES \<and> status_reaches (j_status i) (j_status h)))"

text \<open>No job, or no job but \<open>k\<close>, has the GPU.\<close>

definition gpu_free :: "(string \<rightharpoonup> Job) \<Rightarrow> bool" where
  "gpu_free J \<longleftrightarrow> (\<forall>k i. J k = Some i \<longrightarrow> \<not> monitored (j_status i))"

definition gpu_only :: "(string \<rightharpoonup> Job) \<Rightarrow> string \<Rightarrow> bool" where
  "gpu_only J k \<longleftrightarrow> (\<forall>k' i. J k' = Some i \<longrightarrow> monitored (j_status i) \<longrightarrow> k' = k)"

definition gpu_one :: "(string \<rightharpoonup> Job) \<Rightarrow> bool" where
  "gpu_one J \<longleftrightarrow> (\<forall>k. (\<exists>i. J k = Some i \<and> monitored (j_status i)) \<longrightarrow> gpu_only J k)"

definition queued_bare :: "(string \<rightharpoonup> Job) \<Rightarrow> bool" where
  "queued_bare J \<longleftrightarrow> (\<forall>k i. J k = Some i \<longrightarrow> j_status i = QUEUED \<longrightarrow> j_container_id i = None)"

definition jobs_core :: "(string \<rightharpoonup> Job) \<Rightarrow> bool" where
  "jobs_core J \<longleftrightarrow> gpu_one J \<and> one_queued J \<and> queued_bare J"

text \<open>The candidates of a cancellation round.\<close>

definition candidates_ok :: "(string \<rightharpoonup> Job) \<Rightarrow> Job list \<Rightarrow> bool" where
  "candidates_ok J js \<longleftrightarrow> distinct (map j_id js) \<and>
     (\<forall>h \<in> set js. copy_of J h \<and> j_status h \<in> set ACTIVE_STATUSES \<and> (j_status h = QUEUED \<longrightarrow> j_container_id h = None))"

fun at_pc :: "(string \<rightharpoonup> Job) \<Rightarrow> (string \<rightharpoonup> (string \<times> string) list) \<Rightarrow> worker_pc \<Rightarrow> bool" where
  "at_pc J run (Cancelling now js) \<longleftrightarrow> candidates_ok J js"
| "at_pc J run (Stopped now j js) \<longleftrightarrow> candidates_ok J (j # js) \<and> container_stopped run j"
| "at_pc J run Selecting \<longleftrightarrow> gpu_free J"
| "at_pc J run (Selected now j) \<longleftrightarrow> gpu_free J \<and> copy_of J j \<and> j_status j = QUEUED \<and> j_container_id j = None"
| "at_pc J run (Claiming now j u) \<longleftrightarrow> gpu_free J \<and> copy_of J j \<and> j_status j = INITIALIZING \<and> j_container_id j = None"
| "at_pc J run (Charging now j u) \<longleftrightarrow> gpu_only J (j_id j) \<and> copy_of J j \<and> j_status j = INITIALIZING \<and> j_container_id j = None"
| "at_pc J run (Fetching j) \<longleftrightarrow> gpu_only J (j_id j) \<and> copy_of J j \<and> j_status j = INITIALIZING \<and> j_container_id j = None"
| "at_pc J run (Launching j d) \<longleftrightarrow> gpu_only J (j_id j) \<and> copy_of J j \<and> j_status j = INITIALIZING \<and> j_container_id j = None"
| "at_pc J run (FailingStart j m) \<longleftrightarrow> gpu_only J (j_id j) \<and> copy_of J j \<and> j_status j = INITIALIZING \<and> j_container_id j = None"
| "at_pc J run (Recording j) \<longleftrightarrow> gpu_only J (j_id j) \<and> copy_of J (j\<lparr>j_container_id := None\<rparr>) \<and> j_status j = INITIALIZING"
| "at_pc J run (Observing j) \<longleftrightarrow> gpu_only J (j_id j) \<and> copy_of J j \<and> monitored (j_status j)"
| "at_pc J run (Watching j p) \<longleftrightarrow> gpu_only J (j_id j) \<and> copy_of J j \<and> monitored (j_status j)"
| "at_pc J run (Observed j p code) \<longleftrightarrow> gpu_only J (j_id j) \<and> copy_of J j \<and> monitored (j_status j) \<and>
     (code \<noteq> None \<longrightarrow> container_stopped run j)"
| "at_pc J run (Reporting j p code) \<longleftrightarrow> gpu_only J (j_id j) \<and> copy_of J j \<and> j_status j = TRAINING \<and>
     (code \<noteq> None \<longrightarrow> container_stopped run j)"
| "at_pc J run (Finalizing j code) \<longleftrightarrow> gpu_only J (j_id j) \<and> copy_of J j \<and> monitored (j_status j) \<and> container_stopped run j"
| "at_pc J run (Ending j code) \<longleftrightarrow> gpu_only J (j_id j) \<and> copy_of J j \<and> j_status j = TRAINING \<and> container_stopped run j"
| "at_pc J run (Uploading j) \<longleftrightarrow> gpu_only J (j_id j) \<and> copy_of J j \<and> j_status j = TRAINING \<and> container_stopped run j"
| "at_pc J run (Completing j) \<longleftrightarrow> gpu_only J (j_id j) \<and> copy_of J j \<and> j_status j = TRAINING \<and> container_stopped run j"
| "at_pc J run (Failing j m b) \<longleftrightarrow> gpu_only J (j_id j) \<and> copy_of J j \<and> j_status j = TRAINING \<and> container_stopped run j"
| "at_pc J run Idle \<longleftrightarrow> True"
| "at_pc J run Choosing \<longleftrightarrow> True"
| "at_pc J run Monitoring \<longleftrightarrow> True"
| "at_pc J run (Dead e) \<longleftrightarrow> True"

text \<open>The places from which the worker writes a job or starts a container, and the copies it holds.\<close>

fun acts :: "worker_pc \<Rightarrow> bool" where
  "acts (Stopped now j js) = True"
| "acts (Claiming now j u) = True"
| "acts (Launching j d) = True"
| "acts (Recording j) = True"
| "acts (FailingStart j m) = True"
| "acts (Observed j p code) = True"
| "acts (Reporting j p code) = True"
| "acts (Finalizing j code) = True"
| "acts (Completing j) = True"
| "acts (Failing j m b) = True"
| "acts _ = False"

fun held :: "worker_pc \<Rightarrow> Job list" where
  "held (Cancelling now js) = js"
| "held (Stopped now j js) = j # js"
| "held (Selected now j) = [j]"
| "held (Claiming now j u) = [j]"
| "held (Charging now j u) = [j]"
| "held (Fetching j) = [j]"
| "held (Launching j d) = [j]"
| "held (Recording j) = [j]"
| "held (FailingStart j m) = [j]"
| "held (Observing j) = [j]"
| "held (Watching j p) = [j]"
| "held (Observed j p code) = [j]"
| "held (Reporting j p code) = [j]"
| "held (Finalizing j code) = [j]"
| "held (Ending j code) = [j]"
| "held (Uploading j) = [j]"
| "held (Completing j) = [j]"
| "held (Failing j m b) = [j]"
| "held _ = []"

text \<open>
  A later version of a job, and a version that may replace the stored one: no running container is lost
  from sight with it.
\<close>

definition version :: "Job \<Rightarrow> Job \<Rightarrow> bool" where
  "version h v \<longleftrightarrow> same_submission h v \<and> status_reaches (j_status h) (j_status v)"

definition settles :: "(string \<rightharpoonup> Job) \<Rightarrow> (string \<rightharpoonup> (string \<times> string) list) \<Rightarrow> Job \<Rightarrow> bool" where
  "settles J run v \<longleftrightarrow> (\<exists>i. J (j_id v) = Some i \<and> same_submission i v \<and>
     (j_container_id i = None \<or> monitored (j_status v) \<and> j_container_id v = j_container_id i \<or> container_stopped run i))"

definition updates ::
    "(string \<rightharpoonup> Job) \<Rightarrow> (string \<rightharpoonup> (string \<times> string) list) \<Rightarrow> worker_pc \<Rightarrow> (string \<rightharpoonup> Job) \<Rightarrow> bool" where
  "updates J run pc J' \<longleftrightarrow> (\<exists>h \<in> set (held pc). \<exists>v. version h v \<and> settles J run v \<and> J' = J(j_id v \<mapsto> v) \<and>
     (\<forall>j. pc = Recording j \<longrightarrow> v = j))"

lemma version_refl [simp]: "version h h"
  by (simp add: version_def reaches_refl)

lemma version_trans: "version h i \<Longrightarrow> version i v \<Longrightarrow> version h v"
  unfolding version_def using same_submission_trans status_reaches_trans by blast

lemma version_id: "version h v \<Longrightarrow> j_id v = j_id h"
  by (simp add: version_def same_submission_def)

lemma settlesI:
  assumes "copy_of J h" and "same_submission h v"
    and "j_container_id h = None \<or> monitored (j_status v) \<and> j_container_id v = j_container_id h \<or> container_stopped run h"
  shows "settles J run v"
proof -
  obtain i where i: "J (j_id h) = Some i" "same_submission i h" "j_container_id i = j_container_id h"
    using assms(1) unfolding copy_of_def by blast
  then have "J (j_id v) = Some i" "same_submission i v"
    using assms(2) same_submission_trans by (auto simp: same_submission_def)
  with i(3) assms(3) show ?thesis unfolding settles_def container_stopped_def by auto
qed

text \<open>None of this is disturbed from outside.\<close>

lemma env_change_monitored:
  assumes "env_change J run J' run'" and "J' k = Some i'" and "monitored (j_status i')"
  shows "\<exists>i. J k = Some i \<and> monitored (j_status i)"
proof (cases "J k")
  case None
  with assms show ?thesis by (auto simp: env_change_def)
next
  case (Some i)
  with assms(1,2) have "env_job i i'" by (fastforce simp: env_change_def)
  with Some assms(3) show ?thesis by (auto simp: env_job_def timed_out_def)
qed

lemma env_gpu:
  assumes "env_change J run J' run'"
  shows "gpu_free J \<Longrightarrow> gpu_free J'" and "gpu_only J k \<Longrightarrow> gpu_only J' k" and "gpu_one J \<Longrightarrow> gpu_one J'"
  using env_change_monitored [OF assms] unfolding gpu_free_def gpu_only_def gpu_one_def by blast+

lemma env_copy:
  assumes "env_change J run J' run'" and "copy_of J h"
  shows "copy_of J' h"
proof -
  obtain i where i: "J (j_id h) = Some i" "same_submission i h" "j_container_id i = j_container_id h"
      "j_status i = FAILED \<or> j_status i \<notin> set TERMINAL_STATUSES \<and> status_reaches (j_status i) (j_status h)"
    using assms(2) unfolding copy_of_def by blast
  with assms(1) obtain i' where i': "J' (j_id h) = Some i'" "env_job i i'" unfolding env_change_def by blast
  then have "j_status i' = FAILED \<or> j_status i' \<notin> set TERMINAL_STATUSES \<and> status_reaches (j_status i') (j_status h)"
    using i(4) by (auto simp: env_job_def timed_out_def)
  moreover have "same_submission i' h" "j_container_id i' = j_container_id h"
    using i i' by (simp_all add: env_job_def same_submission_def)
  ultimately show ?thesis using i' unfolding copy_of_def by blast
qed

lemma env_stopped: "env_change J run J' run' \<Longrightarrow> container_stopped run j \<Longrightarrow> container_stopped run' j"
  by (auto simp: env_change_def container_stopped_def) (metis not_None_eq)

lemma env_bare:
  assumes "env_change J run J' run'" and "queued_bare J"
  shows "queued_bare J'"
  unfolding queued_bare_def
proof (intro allI impI)
  fix k i' assume i': "J' k = Some i'" "j_status i' = QUEUED"
  show "j_container_id i' = None"
  proof (cases "J k")
    case None
    with assms(1) i' show ?thesis by (auto simp: env_change_def)
  next
    case (Some i)
    with assms(1) i' have "env_job i i'" by (fastforce simp: env_change_def)
    with assms(2) Some i' show ?thesis by (auto simp: env_job_def timed_out_def queued_bare_def)
  qed
qed

lemma env_candidates: "env_change J run J' run' \<Longrightarrow> candidates_ok J js \<Longrightarrow> candidates_ok J' js"
  by (auto simp: candidates_ok_def intro: env_copy)

lemma env_at: "env_change J run J' run' \<Longrightarrow> at_pc J run pc \<Longrightarrow> at_pc J' run' pc"
  by (cases pc) (auto intro: env_gpu env_copy env_stopped env_candidates)

text \<open>What a write of the worker does to it.\<close>

lemma write_core:
  assumes "jobs_core J" and "j_status j \<noteq> QUEUED" and "monitored (j_status j) \<Longrightarrow> gpu_only J (j_id j)"
  shows "jobs_core (J(j_id j \<mapsto> j))"
proof -
  have "one_queued (J(j_id j \<mapsto> j))" using assms by (intro one_queued_write) (auto simp: jobs_core_def)
  then show ?thesis using assms by (auto simp: jobs_core_def gpu_one_def gpu_only_def queued_bare_def)
qed

lemma write_copy: "j_id j = k \<Longrightarrow> j_status j \<notin> {COMPLETED, CANCELLED} \<Longrightarrow> copy_of (J(k \<mapsto> j)) j"
  by (cases "j_status j") (simp_all add: copy_of_def status_simps reaches_refl)

lemma write_only: "gpu_only J (j_id j) \<Longrightarrow> gpu_only (J(j_id j \<mapsto> j)) (j_id j)"
  by (simp add: gpu_only_def)

lemma free_only: "gpu_free J \<Longrightarrow> gpu_only J k"
  by (simp add: gpu_only_def gpu_free_def)

lemma write_candidates:
  "candidates_ok J js \<Longrightarrow> j_id j \<notin> j_id ` set js \<Longrightarrow> candidates_ok (J(j_id j \<mapsto> j)) js"
  by (auto simp: candidates_ok_def copy_of_def image_iff)

lemma stored_copy: "J (j_id j) = Some j \<Longrightarrow> j_status j \<notin> {COMPLETED, CANCELLED} \<Longrightarrow> copy_of J j"
  by (cases "j_status j") (simp_all add: copy_of_def status_simps reaches_refl)

text \<open>The next version of a copy is a copy.\<close>

lemma copy_version:
  assumes "copy_of J h" and "same_submission h h'" and "status_reaches (j_status h) (j_status h')"
    and "j_container_id h' = j_container_id h"
  shows "copy_of J h'"
  using assms status_reaches_trans [OF assms(3)] unfolding copy_of_def same_submission_def by auto

subsection \<open>The steps of the worker\<close>

context training_system
begin

definition sound :: "worker_pc \<Rightarrow> ('j, 'u, 'o, 'd) world \<Rightarrow> bool" where
  "sound pc w \<longleftrightarrow> world_ok w \<and> jobs_core (jobs_of (w_jobs w)) \<and> at_pc (jobs_of (w_jobs w)) (running (w_docker w)) pc"

lemma jobs_write:
  "world_ok w \<Longrightarrow> jobs_of (jr_update R j (w_jobs w)) = (jobs_of (w_jobs w))(j_id j \<mapsto> j)"
  by (simp add: world_ok_def update_job_law)

lemma listed:
  assumes "world_ok w"
  obtains js where "jr_list_by_statuses R (w_jobs w) sts = Inr js" and "distinct (map j_id js)"
    and "\<And>j. j \<in> set js \<Longrightarrow> jobs_of (w_jobs w) (j_id j) = Some j \<and> j_status j \<in> set sts"
    and "\<And>k j. jobs_of (w_jobs w) k = Some j \<Longrightarrow> j_status j \<in> set sts \<Longrightarrow> j \<in> set js"
proof -
  have wf: "wf_jobs (w_jobs w)" using assms by (simp add: world_ok_def)
  obtain js where js: "jr_list_by_statuses R (w_jobs w) sts = Inr js" using wf by (rule listed_by_statuses)
  show thesis
    by (rule that [OF js list_by_statuses_distinct [OF wf js]])
      (use list_by_statuses_mem [OF wf js] list_by_statuses_complete [OF wf js] in auto)
qed

text \<open>A write of a version of the job that has the GPU keeps everything.\<close>

lemma write_sound:
  assumes "world_ok w" and "jobs_core (jobs_of (w_jobs w))" and "j_status j \<noteq> QUEUED"
    and "monitored (j_status j) \<Longrightarrow> gpu_only (jobs_of (w_jobs w)) (j_id j)"
    and "at_pc ((jobs_of (w_jobs w))(j_id j \<mapsto> j)) (running (w_docker w)) pc"
  shows "sound pc (write_job R j w)"
  using assms write_core [OF assms(2,3,4)] by (simp add: sound_def jobs_write)

lemma sound_files [simp]:
  "sound pc (w\<lparr>w_fs := fs\<rparr>) = sound pc w" "sound pc (w\<lparr>w_objects := objects\<rparr>) = sound pc w"
  "sound pc (cleanup_job_dir d j w) = sound pc w"
  by (simp_all add: sound_def world_ok_def cleanup_job_dir_def)

lemma soundD: "sound pc w \<Longrightarrow> world_ok w \<and> jobs_core (jobs_of (w_jobs w)) \<and> at_pc (jobs_of (w_jobs w)) (running (w_docker w)) pc"
  by (simp add: sound_def)

lemma sound_move: "sound pc w \<Longrightarrow> at_pc (jobs_of (w_jobs w)) (running (w_docker w)) pc' \<Longrightarrow> sound pc' w"
  by (simp add: sound_def)

text \<open>Steps that change no more than files, objects and containers.\<close>

lemma sound_beside:
  assumes "sound pc w" and "w_jobs w' = w_jobs w" and "w_users w' = w_users w"
    and "at_pc (jobs_of (w_jobs w)) (running (w_docker w')) pc'"
  shows "sound pc' w'"
  using assms by (simp add: sound_def world_ok_def)

lemma sound_cancelling:
  assumes s: "sound (Cancelling now js) w" and step: "worker_step E t (Cancelling now js) w = (pc', w')"
  shows "sound pc' w'"
proof (cases js)
  case Nil
  with s step show ?thesis by (auto simp: sound_def)
next
  case (Cons j rest)
  have c: "candidates_ok (jobs_of (w_jobs w)) js" using soundD [OF s] by simp
  show ?thesis
  proof (cases "j_cancel_requested j")
    case False
    with Cons step have "pc' = Cancelling now rest" "w' = w" by simp_all
    with c Cons s show ?thesis by (auto simp: sound_def candidates_ok_def)
  next
    case True
    obtain q w1 where q: "stop_container D (ws_workdir (wd_settings E)) j w = (q, w1)" by fastforce
    note st = stop_container_refines [OF q]
    show ?thesis
    proof (cases q)
      case (Inl e)
      with step Cons True q st show ?thesis by (auto intro!: sound_beside [OF s])
    next
      case (Inr u)
      have "container_stopped (running (w_docker w1)) j"
      proof (cases "monitored (j_status j)")
        case True
        then show ?thesis by (rule st(5) [OF Inr])
      next
        case False
        with c Cons have "j_container_id j = None" by (auto simp: candidates_ok_def status_simps)
        then show ?thesis by (rule container_stopped_None)
      qed
      with step Cons True q st c Inr show ?thesis by (auto intro!: sound_beside [OF s])
    qed
  qed
qed

lemma sound_stopped:
  assumes s: "sound (Stopped now j js) w" and step: "worker_step E t (Stopped now j js) w = (pc', w')"
  shows "sound pc' w'"
proof (cases "transition j CANCELLED now")
  case (Inl e)
  with step s show ?thesis by (auto simp: sound_def split: if_splits)
next
  case (Inr j')
  then have j': "j_id j' = j_id j" "j_status j' = CANCELLED" by (auto simp: transition_Inr_iff)
  have c: "candidates_ok (jobs_of (w_jobs w)) (j # js)" using soundD [OF s] by simp
  then have "candidates_ok (jobs_of (w_jobs w)) js" "j_id j' \<notin> j_id ` set js" using j' by (auto simp: candidates_ok_def)
  from write_candidates [OF this] have "sound (Cancelling now js) (write_job R j' w)"
    using soundD [OF s] j' by (intro write_sound) simp_all
  with step Inr show ?thesis by auto
qed

lemma sound_choosing:
  assumes s: "sound Choosing w" and step: "worker_step E t Choosing w = (pc', w')"
  shows "sound pc' w'"
proof -
  obtain js where js: "jr_list_by_statuses R (w_jobs w) ACTIVE_CONTAINER_STATUSES = Inr js"
    and all: "\<And>k j. jobs_of (w_jobs w) k = Some j \<Longrightarrow> j_status j \<in> set ACTIVE_CONTAINER_STATUSES \<Longrightarrow> j \<in> set js"
    by (rule listed [of w ACTIVE_CONTAINER_STATUSES]) (use soundD [OF s] in auto)
  have "gpu_free (jobs_of (w_jobs w))" if "js = []"
    using all that by (auto simp: gpu_free_def monitored_def ACTIVE_CONTAINER_STATUSES_def)
  with step js s show ?thesis by (auto simp: sound_def)
qed

lemma sound_selecting:
  assumes s: "sound Selecting w" and step: "worker_step E t Selecting w = (pc', w')"
  shows "sound pc' w'"
proof -
  obtain js where js: "jr_list_by_statuses R (w_jobs w) [QUEUED] = Inr js"
    and mem: "\<And>j. j \<in> set js \<Longrightarrow> jobs_of (w_jobs w) (j_id j) = Some j \<and> j_status j \<in> set [QUEUED]"
    by (rule listed [of w "[QUEUED]"]) (use soundD [OF s] in auto)
  show ?thesis
  proof (cases js)
    case Nil
    with step js s show ?thesis by (auto simp: sound_def)
  next
    case (Cons j rest)
    with mem have j: "jobs_of (w_jobs w) (j_id j) = Some j" "j_status j = QUEUED" by auto
    then have "copy_of (jobs_of (w_jobs w)) j" by (intro stored_copy) simp_all
    moreover have "j_container_id j = None" using soundD [OF s] j by (auto simp: jobs_core_def queued_bare_def)
    ultimately show ?thesis using step js Cons j s by (auto simp: sound_def)
  qed
qed

lemma sound_selected:
  assumes s: "sound (Selected now j) w" and step: "worker_step E t (Selected now j) w = (pc', w')"
  shows "sound pc' w'"
proof -
  have j: "copy_of (jobs_of (w_jobs w)) j" "j_status j = QUEUED" using soundD [OF s] by simp_all
  have c: "copy_of (jobs_of (w_jobs w)) (j\<lparr>j_status := INITIALIZING, j_updated_at := x, j_heartbeat_at := y\<rparr>)" for x y
    by (rule copy_version [OF j(1)]) (simp_all add: j same_submission_def status_reaches_iff)
  let ?q = "ur_get (wd_user_repository E) (w_users w) (j_user_id j)"
  consider (dead) e where "pc' = Dead e" "w' = w"
    | (moved) moved u where "transition j INITIALIZING now = Inr moved" "w' = w"
        "pc' = Claiming now (moved\<lparr>j_heartbeat_at := Some now\<rparr>) u"
    using step by (cases ?q rule: option_answer; cases "transition j INITIALIZING now") auto
  then show ?thesis
  proof cases
    case dead
    with s show ?thesis by (simp add: sound_def)
  next
    case moved
    then have "moved = j\<lparr>j_status := INITIALIZING, j_updated_at := now\<rparr>" by (simp add: transition_Inr_iff)
    with s c moved show ?thesis by (simp add: sound_def)
  qed
qed

lemma sound_claiming:
  assumes s: "sound (Claiming now j u) w" and step: "worker_step E t (Claiming now j u) w = (pc', w')"
  shows "sound pc' w'"
proof -
  have "sound (Charging now j u) (write_job R j w)"
    using soundD [OF s] by (intro write_sound) (simp_all add: free_only write_only write_copy)
  with step show ?thesis by auto
qed

lemma sound_charging:
  assumes s: "sound (Charging now j u) w" and step: "worker_step E t (Charging now j u) w = (pc', w')"
  shows "sound pc' w'"
  using step soundD [OF s] by (auto simp: sound_def world_ok_def update_user_wf)

lemma fetch_beside:
  "fetch_dataset E j w = (r, w1) \<Longrightarrow> w_jobs w1 = w_jobs w \<and> w_users w1 = w_users w \<and> w_docker w1 = w_docker w"
  by (auto simp: fetch_dataset_def split: prod.splits)

lemma sound_fetching:
  assumes s: "sound (Fetching j) w" and step: "worker_step E t (Fetching j) w = (pc', w')"
  shows "sound pc' w'"
proof -
  obtain q w1 where q: "fetch_dataset E j w = (q, w1)" by fastforce
  note f = fetch_beside [OF q]
  show ?thesis
  proof (cases q)
    case (Inl e)
    with step q have "w' = w1 \<and> ((\<exists>m. pc' = FailingStart j m) \<or> pc' = Dead e)" by (cases e) auto
    with f soundD [OF s] show ?thesis by (auto intro!: sound_beside [OF s])
  next
    case (Inr d)
    with step q f soundD [OF s] show ?thesis by (auto intro!: sound_beside [OF s])
  qed
qed

lemma sound_launching:
  assumes s: "sound (Launching j d) w" and step: "worker_step E t (Launching j d) w = (pc', w')"
  shows "sound pc' w'"
proof -
  obtain q w1 where q: "run_container E (build_container_spec (wd_settings E) j
      (job_dir_text (ws_workdir (wd_settings E)) j) d) w = (q, w1)" by fastforce
  note f = run_container_refines [OF q]
  have same: "copy_of J (j\<lparr>j_container_id := c\<rparr>\<lparr>j_container_id := None\<rparr>) = copy_of J j"
    if "j_container_id j = None" for c J
    using that by (simp add: copy_of_def same_submission_def)
  have at: "gpu_only (jobs_of (w_jobs w)) (j_id j)" "copy_of (jobs_of (w_jobs w)) j" "j_status j = INITIALIZING"
    "j_container_id j = None" using soundD [OF s] by simp_all
  show ?thesis
  proof (cases q)
    case (Inl e)
    with step q have "w' = w1" "pc' = FailingStart j (''Failed to start training container: '' @ exn_text e)" by simp_all
    with f at show ?thesis by (intro sound_beside [OF s]) simp_all
  next
    case (Inr c)
    with step q have "w' = w1" "pc' = Recording (j\<lparr>j_container_id := Some c\<rparr>)" by simp_all
    with f at same show ?thesis by (intro sound_beside [OF s]) simp_all
  qed
qed

lemma sound_recording:
  assumes s: "sound (Recording j) w" and step: "worker_step E t (Recording j) w = (pc', w')"
  shows "sound pc' w'"
  using step soundD [OF s] by (auto intro!: write_sound)

lemma sound_ending_write:
  assumes "sound pc w" and "j_status j \<in> {COMPLETED, FAILED, CANCELLED}"
  shows "sound Idle (write_job R j w)" "sound Monitoring (write_job R j w)" "sound (Dead e) (write_job R j w)"
  using soundD [OF assms(1)] assms(2) by (auto intro!: write_sound)

lemma sound_failing_start:
  assumes s: "sound (FailingStart j m) w" and step: "worker_step E t (FailingStart j m) w = (pc', w')"
  shows "sound pc' w'"
proof (cases "transition j FAILED t")
  case (Inl e)
  with step s show ?thesis by (auto simp: sound_def fail_during_start_def)
next
  case (Inr j')
  then have "w' = write_job R (j'\<lparr>j_error_message := Some m\<rparr>) w" "pc' = Monitoring"
    using step by (auto simp: fail_during_start_def Let_def)
  with Inr show ?thesis using sound_ending_write [OF s] by (auto simp: transition_Inr_iff)
qed

lemma sound_monitoring:
  assumes s: "sound Monitoring w" and step: "worker_step E t Monitoring w = (pc', w')"
  shows "sound pc' w'"
proof -
  obtain js where js: "jr_list_by_statuses R (w_jobs w) COMPLETION_MONITORED_STATUSES = Inr js"
    and mem: "\<And>j. j \<in> set js \<Longrightarrow> jobs_of (w_jobs w) (j_id j) = Some j \<and> j_status j \<in> set COMPLETION_MONITORED_STATUSES"
    by (rule listed [of w COMPLETION_MONITORED_STATUSES]) (use soundD [OF s] in auto)
  show ?thesis
  proof (cases js)
    case Nil
    with step js s show ?thesis by (auto simp: sound_def)
  next
    case (Cons j rest)
    with mem have j: "jobs_of (w_jobs w) (j_id j) = Some j" "monitored (j_status j)"
      by (auto simp: COMPLETION_MONITORED_STATUSES_def monitored_def)
    then have "copy_of (jobs_of (w_jobs w)) j" by (intro stored_copy) (auto simp: monitored_def)
    moreover have "gpu_only (jobs_of (w_jobs w)) (j_id j)"
      using soundD [OF s] j unfolding jobs_core_def gpu_one_def by blast
    ultimately show ?thesis using step js Cons j s by (auto simp: sound_def)
  qed
qed

lemma sound_observing:
  assumes s: "sound (Observing j) w" and step: "worker_step E t (Observing j) w = (pc', w')"
  shows "sound pc' w'"
  using step s by (auto simp: sound_def split: sum.splits)

lemma sound_watching:
  assumes s: "sound (Watching j p) w" and step: "worker_step E t (Watching j p) w = (pc', w')"
  shows "sound pc' w'"
proof -
  have stopped: "container_stopped (running (w_docker w)) j"
    if "dc_get_exit_code D (w_docker w) c = Inr (Some n)" "j_container_id j = Some c" for c n
    using exit_law [OF that(1)] that(2) by (simp add: container_stopped_def)
  show ?thesis
    using step s stopped by (cases "j_container_id j") (auto simp: sound_def split: sum.splits if_splits)
qed

lemma start_training_effect:
  assumes "start_training R t j w = (r, w1)" and "monitored (j_status j)"
  obtains j1 where "r = Inr j1" and "same_submission j j1" and "j_container_id j1 = j_container_id j"
    and "j_status j1 = TRAINING" and "w1 = write_job R j1 w \<or> j1 = j \<and> w1 = w"
  using assms by (cases "j_status j")
    (auto simp: start_training_def transition_Inr_iff status_simps same_submission_def split: sum.splits if_splits)

lemma stopped_version: "j_container_id j1 = j_container_id j \<Longrightarrow> container_stopped run j1 = container_stopped run j"
  by (simp add: container_stopped_def)

lemma training_sound:
  assumes s: "sound pc w" and j: "gpu_only (jobs_of (w_jobs w)) (j_id j)" "copy_of (jobs_of (w_jobs w)) j"
      "monitored (j_status j)"
    and run: "start_training R t j w = (r, w1)"
  obtains j1 where "r = Inr j1" and "j_container_id j1 = j_container_id j" and "j_status j1 = TRAINING"
    and "gpu_only (jobs_of (w_jobs w1)) (j_id j1)" and "copy_of (jobs_of (w_jobs w1)) j1"
    and "sound Idle w1" and "w_docker w1 = w_docker w"
proof -
  obtain j1 where j1: "r = Inr j1" "same_submission j j1" "j_container_id j1 = j_container_id j"
    "j_status j1 = TRAINING" "w1 = write_job R j1 w \<or> j1 = j \<and> w1 = w"
    using start_training_effect [OF run j(3)] by blast
  have id: "j_id j1 = j_id j" using j1(2) by (simp add: same_submission_def)
  show thesis
  proof (rule that [OF j1(1,3,4)])
    show "gpu_only (jobs_of (w_jobs w1)) (j_id j1)" "copy_of (jobs_of (w_jobs w1)) j1" "w_docker w1 = w_docker w"
      using j1(5) j soundD [OF s] id j1(4) write_only [of "jobs_of (w_jobs w)" j1] by (auto simp: jobs_write write_copy)
    show "sound Idle w1"
      using j1(5)
    proof
      assume "w1 = write_job R j1 w"
      with soundD [OF s] j1(4) j id show ?thesis by (auto intro!: write_sound)
    next
      assume "j1 = j \<and> w1 = w"
      with s show ?thesis by (simp add: sound_def)
    qed
  qed
qed

lemma sound_after:
  "sound Idle w \<Longrightarrow> gpu_only (jobs_of (w_jobs w)) (j_id j) \<Longrightarrow> copy_of (jobs_of (w_jobs w)) j \<Longrightarrow> monitored (j_status j) \<Longrightarrow>
   (code \<noteq> None \<Longrightarrow> container_stopped (running (w_docker w)) j) \<Longrightarrow> sound (after_observation j code) w"
  by (cases code) (simp_all add: sound_def)

lemma sound_observed:
  assumes s: "sound (Observed j p code) w" and step: "worker_step E t (Observed j p code) w = (pc', w')"
  shows "sound pc' w'"
proof (cases p)
  case (Some x)
  obtain r w1 where r: "start_training R t j w = (r, w1)" by fastforce
  have j: "gpu_only (jobs_of (w_jobs w)) (j_id j)" "copy_of (jobs_of (w_jobs w)) j" "monitored (j_status j)"
    and code: "code \<noteq> None \<Longrightarrow> container_stopped (running (w_docker w)) j" using soundD [OF s] by simp_all
  from training_sound [OF s j r] obtain j1 where j1: "r = Inr j1" "j_container_id j1 = j_container_id j"
    "j_status j1 = TRAINING" "gpu_only (jobs_of (w_jobs w1)) (j_id j1)" "copy_of (jobs_of (w_jobs w1)) j1" "sound Idle w1"
    "w_docker w1 = w_docker w" by blast
  with Some step r have "pc' = Reporting j1 x code" "w' = w1" by simp_all
  with j1 code stopped_version [OF j1(2)] show ?thesis by (simp add: sound_def)
next
  case None
  have j: "gpu_only (jobs_of (w_jobs w)) (j_id j)" "copy_of (jobs_of (w_jobs w)) j" "monitored (j_status j)"
    and code: "code \<noteq> None \<Longrightarrow> container_stopped (running (w_docker w)) j" using soundD [OF s] by simp_all
  show ?thesis
  proof (cases "j_status j = INITIALIZING \<and> code = None")
    case True
    let ?j = "j\<lparr>j_heartbeat_at := Some t\<rparr>"
    have "pc' = Idle" "w' = write_job R ?j w"
      using None step True by (auto simp: mark_container_alive_def write_job_def Let_def)
    with soundD [OF s] True show ?thesis by (auto intro!: write_sound)
  next
    case False
    with None step have "pc' = after_observation j code" "w' = w" by auto
    moreover have "sound Idle w" using s by (simp add: sound_def)
    ultimately show ?thesis using j sound_after [OF _ _ _ _ code] by simp
  qed
qed

lemma sound_reporting:
  assumes s: "sound (Reporting j p code) w" and step: "worker_step E t (Reporting j p code) w = (pc', w')"
  shows "sound pc' w'"
proof -
  let ?j = "j\<lparr>j_progress := Some p, j_heartbeat_at := Some t\<rparr>"
  have j: "gpu_only (jobs_of (w_jobs w)) (j_id j)" "copy_of (jobs_of (w_jobs w)) j" "j_status j = TRAINING"
    and code: "code \<noteq> None \<Longrightarrow> container_stopped (running (w_docker w)) j" using soundD [OF s] by simp_all
  show ?thesis
  proof (cases "progress_changed (j_progress j) p")
    case True
    with step have "pc' = after_observation ?j code" "w' = write_job R ?j w"
      by (auto simp: record_progress_def write_job_def Let_def)
    moreover have "sound Idle (write_job R ?j w)" using soundD [OF s] j by (intro write_sound) simp_all
    ultimately show ?thesis using soundD [OF s] j code write_only [of "jobs_of (w_jobs w)" ?j]
      by (auto intro!: sound_after simp: jobs_write write_copy container_stopped_def)
  next
    case False
    with step have "pc' = after_observation j code" "w' = w" by (auto simp: record_progress_def)
    moreover have "sound Idle w" using s by (simp add: sound_def)
    ultimately show ?thesis using j sound_after [OF _ _ _ _ code] by simp
  qed
qed

lemma sound_finalizing:
  assumes s: "sound (Finalizing j code) w" and step: "worker_step E t (Finalizing j code) w = (pc', w')"
  shows "sound pc' w'"
proof -
  obtain r w1 where r: "start_training R t j w = (r, w1)" by fastforce
  have j: "gpu_only (jobs_of (w_jobs w)) (j_id j)" "copy_of (jobs_of (w_jobs w)) j" "monitored (j_status j)"
    and st: "container_stopped (running (w_docker w)) j" using soundD [OF s] by simp_all
  from training_sound [OF s j r] obtain j1 where j1: "r = Inr j1" "j_container_id j1 = j_container_id j"
    "j_status j1 = TRAINING" "gpu_only (jobs_of (w_jobs w1)) (j_id j1)" "copy_of (jobs_of (w_jobs w1)) j1" "sound Idle w1"
    "w_docker w1 = w_docker w" by blast
  with step r have "pc' = Ending j1 code" "w' = w1" by simp_all
  with j1 st stopped_version [OF j1(2)] show ?thesis by (simp add: sound_def)
qed

lemma sound_ending:
  assumes s: "sound (Ending j code) w" and step: "worker_step E t (Ending j code) w = (pc', w')"
  shows "sound pc' w'"
  using step s by (auto simp: sound_def world_ok_def split: sum.splits if_splits prod.splits)

lemma sound_uploading:
  assumes s: "sound (Uploading j) w" and step: "worker_step E t (Uploading j) w = (pc', w')"
  shows "sound pc' w'"
  using step s by (auto simp: sound_def world_ok_def split: prod.splits if_splits)

lemma sound_completing:
  assumes s: "sound (Completing j) w" and step: "worker_step E t (Completing j) w = (pc', w')"
  shows "sound pc' w'"
  using step s sound_ending_write [OF s]
  by (auto simp: mark_completed_def Let_def transition_Inr_iff split: sum.splits) (auto simp: sound_def)

lemma sound_failing:
  assumes s: "sound (Failing j m b) w" and step: "worker_step E t (Failing j m b) w = (pc', w')"
  shows "sound pc' w'"
  using step s sound_ending_write [OF s]
  by (auto simp: mark_failed_def Let_def transition_Inr_iff split: sum.splits) (auto simp: sound_def)

lemma sound_idle:
  assumes s: "sound Idle w" and step: "worker_step E t Idle w = (pc', w')"
  shows "sound pc' w'"
proof -
  obtain js where js: "jr_list_by_statuses R (w_jobs w) CANCELLABLE_STATUSES = Inr js" "distinct (map j_id js)"
    and mem: "\<And>j. j \<in> set js \<Longrightarrow> jobs_of (w_jobs w) (j_id j) = Some j \<and> j_status j \<in> set CANCELLABLE_STATUSES"
    by (rule listed [of w CANCELLABLE_STATUSES]) (use soundD [OF s] in auto)
  have "candidates_ok (jobs_of (w_jobs w)) js"
    unfolding candidates_ok_def
  proof (intro conjI ballI)
    fix j assume "j \<in> set js"
    then have j: "jobs_of (w_jobs w) (j_id j) = Some j" "j_status j \<in> set ACTIVE_STATUSES"
      using mem by (auto simp: CANCELLABLE_STATUSES_def status_simps)
    then show "copy_of (jobs_of (w_jobs w)) j" by (intro stored_copy) (auto simp: status_simps)
    show "j_status j \<in> set ACTIVE_STATUSES" by (rule j(2))
    show "j_status j = QUEUED \<longrightarrow> j_container_id j = None"
      using j(1) soundD [OF s] by (auto simp: jobs_core_def queued_bare_def)
  qed (rule js(2))
  with step js s show ?thesis by (auto simp: sound_def)
qed

lemma sound_dead: "sound (Dead e) w \<Longrightarrow> worker_step E t (Dead e) w = (pc', w') \<Longrightarrow> sound pc' w'"
  by (auto simp: sound_def)

lemmas sound_steps =
  sound_idle sound_cancelling sound_stopped sound_choosing sound_selecting sound_selected sound_claiming
  sound_charging sound_fetching sound_launching sound_recording sound_failing_start sound_monitoring
  sound_observing sound_watching sound_observed sound_reporting sound_finalizing sound_ending sound_uploading
  sound_completing sound_failing sound_dead

text \<open>Whatever the worker does next, it leaves the jobs in order and can rely on what it finds.\<close>

lemma worker_step_sound: "sound pc w \<Longrightarrow> worker_step E t pc w = (pc', w') \<Longrightarrow> sound pc' w'"
  by (cases pc) (auto intro: sound_steps simp del: worker_step.simps)

text \<open>The other steps write no job and start no container.\<close>

lemma quiet_step:
  assumes step: "worker_step E t pc w = (pc', w')" and pc: "\<not> acts pc"
  shows "w_jobs w' = w_jobs w" and "running (w_docker w') c = Some ls \<Longrightarrow> running (w_docker w) c = Some ls"
    and "pc' \<noteq> Recording h"
proof -
  have "w_jobs w' = w_jobs w \<and> (\<forall>c ls. running (w_docker w') c = Some ls \<longrightarrow> running (w_docker w) c = Some ls) \<and>
    (\<forall>h. pc' \<noteq> Recording h)"
  proof (cases pc)
    case (Cancelling now js)
    show ?thesis
    proof (cases js)
      case (Cons j rest)
      obtain q w1 where q: "stop_container D (ws_workdir (wd_settings E)) j w = (q, w1)" by fastforce
      have "env_change (s_jobs (view w t)) (s_running (view w t)) (s_jobs (view w1 t)) (s_running (view w1 t))"
        by (rule steps_env_change [OF stop_container_refines(4) [OF q]]) (simp add: env_events_def)
      then have "running (w_docker w1) c = Some ls \<Longrightarrow> running (w_docker w) c = Some ls" for c ls
        by (simp add: env_change_def)
      with step Cancelling Cons q stop_container_refines(1) [OF q] show ?thesis
        by (cases q) (auto split: if_splits)
    qed (use step Cancelling in auto)
  next
    case (Fetching j)
    obtain q w1 where q: "fetch_dataset E j w = (q, w1)" by fastforce
    have "w' = w1 \<and> (\<forall>h. pc' \<noteq> Recording h)"
    proof (cases q)
      case (Inl e)
      with step Fetching q show ?thesis by (cases e) auto
    qed (use step Fetching q in auto)
    with fetch_beside [OF q] show ?thesis by simp
  qed (use step pc in \<open>auto split: sum.splits option.splits list.splits prod.splits if_splits\<close>)
  then show "w_jobs w' = w_jobs w" "running (w_docker w') c = Some ls \<Longrightarrow> running (w_docker w) c = Some ls"
    "pc' \<noteq> Recording h" by blast+
qed

text \<open>What a writing step writes.\<close>

lemma updatesI:
  assumes "sound pc w" and "h \<in> set (held pc)" and "version h v" and "copy_of (jobs_of (w_jobs w)) h"
    and "\<And>j. pc \<noteq> Recording j"
    and "j_container_id h = None \<or> monitored (j_status v) \<and> j_container_id v = j_container_id h \<or>
      container_stopped (running (w_docker w)) h"
  shows "updates (jobs_of (w_jobs w)) (running (w_docker w)) pc (jobs_of (w_jobs (write_job R v w)))"
  unfolding updates_def using assms soundD [OF assms(1)] settlesI [OF assms(4) _ assms(6)]
  by (auto simp: jobs_write version_def)

lemma transition_version: "transition h s now = Inr v \<Longrightarrow> version h v"
  by (auto simp: transition_Inr_iff version_def same_submission_def intro: status_reaches_one)

lemma version_fields [simp]:
  "version h (v\<lparr>j_error_message := m\<rparr>) = version h v" "version h (v\<lparr>j_heartbeat_at := t\<rparr>) = version h v"
  "version h (v\<lparr>j_progress := p\<rparr>) = version h v" "version h (v\<lparr>j_checkpoint_gcs_path := g\<rparr>) = version h v"
  "version h (v\<lparr>j_container_id := c\<rparr>) = version h v"
  by (simp_all add: version_def same_submission_def)

lemma training_version:
  assumes "start_training R t j w = (r, w1)" and "monitored (j_status j)"
  obtains j1 where "r = Inr j1" and "version j j1" and "j_container_id j1 = j_container_id j"
    and "j_status j1 = TRAINING" and "w1 = write_job R j1 w \<or> j1 = j \<and> w1 = w"
proof -
  from start_training_effect [OF assms] obtain j1 where j1: "r = Inr j1" "same_submission j j1"
    "j_container_id j1 = j_container_id j" "j_status j1 = TRAINING" "w1 = write_job R j1 w \<or> j1 = j \<and> w1 = w" by blast
  moreover from j1(2,4) assms(2) have "version j j1" by (auto simp: version_def status_reaches_iff monitored_def)
  ultimately show thesis by (intro that [of j1])
qed

lemma after_not_recording [simp]: "after_observation j code \<noteq> Recording h"
  by (cases code) simp_all

lemma writing_step:
  assumes s: "sound pc w" and step: "worker_step E t pc w = (pc', w')" and pc: "acts pc" "\<And>j d. pc \<noteq> Launching j d"
  shows "running (w_docker w') = running (w_docker w) \<and> (\<forall>h. pc' \<noteq> Recording h) \<and>
    ((\<forall>j. pc \<noteq> Recording j) \<and> w_jobs w' = w_jobs w \<or>
     updates (jobs_of (w_jobs w)) (running (w_docker w)) pc (jobs_of (w_jobs w')))"
proof (cases pc)
  case (Stopped now j js)
  have at: "copy_of (jobs_of (w_jobs w)) j" "container_stopped (running (w_docker w)) j"
    using soundD [OF s] Stopped by (simp_all add: candidates_ok_def)
  show ?thesis
  proof (cases "transition j CANCELLED now")
    case (Inr v)
    with updatesI [OF s, of j v] transition_version [OF Inr] at Stopped step show ?thesis by auto
  qed (use step Stopped in \<open>auto split: if_splits\<close>)
next
  case (Claiming now j u)
  with updatesI [OF s, of j j] soundD [OF s] step show ?thesis by auto
next
  case (Recording j)
  have "settles (jobs_of (w_jobs w)) (running (w_docker w)) j"
    using soundD [OF s] Recording
    by (intro settlesI [of _ "j\<lparr>j_container_id := None\<rparr>"]) (simp_all add: same_submission_def)
  with Recording step soundD [OF s] show ?thesis by (auto simp: updates_def jobs_write)
next
  case (FailingStart j m)
  show ?thesis
  proof (cases "transition j FAILED t")
    case (Inr v)
    with updatesI [OF s, of j "v\<lparr>j_error_message := Some m\<rparr>"] transition_version [OF Inr] soundD [OF s] FailingStart step
    show ?thesis by (auto simp: fail_during_start_def Let_def)
  qed (use step FailingStart in \<open>auto simp: fail_during_start_def\<close>)
next
  case (Observed j p code)
  have at: "copy_of (jobs_of (w_jobs w)) j" "monitored (j_status j)" using soundD [OF s] Observed by simp_all
  show ?thesis
  proof (cases p)
    case (Some x)
    obtain r w1 where r: "start_training R t j w = (r, w1)" by fastforce
    from training_version [OF r at(2)] obtain v where v: "r = Inr v" "version j v" "j_container_id v = j_container_id j"
      "j_status v = TRAINING" "w1 = write_job R v w \<or> v = j \<and> w1 = w" by blast
    with updatesI [OF s, of j v] at Observed Some step r show ?thesis by auto
  next
    case None
    show ?thesis
    proof (cases "j_status j = INITIALIZING \<and> code = None")
      case True
      with updatesI [OF s, of j "j\<lparr>j_heartbeat_at := Some t\<rparr>"] at Observed None step show ?thesis
        by (auto simp: mark_container_alive_def write_job_def Let_def)
    next
      case False
      with Observed None step show ?thesis by auto
    qed
  qed
next
  case (Reporting j p code)
  have at: "copy_of (jobs_of (w_jobs w)) j" "j_status j = TRAINING" using soundD [OF s] Reporting by simp_all
  with updatesI [OF s, of j "j\<lparr>j_progress := Some p, j_heartbeat_at := Some t\<rparr>"] Reporting step show ?thesis
    by (cases "progress_changed (j_progress j) p") (auto simp: record_progress_def write_job_def Let_def)
next
  case (Finalizing j code)
  have at: "copy_of (jobs_of (w_jobs w)) j" "monitored (j_status j)" using soundD [OF s] Finalizing by simp_all
  obtain r w1 where r: "start_training R t j w = (r, w1)" by fastforce
  from training_version [OF r at(2)] obtain v where v: "r = Inr v" "version j v" "j_container_id v = j_container_id j"
    "j_status v = TRAINING" "w1 = write_job R v w \<or> v = j \<and> w1 = w" by blast
  with updatesI [OF s, of j v] at Finalizing step r show ?thesis by auto
next
  case (Completing j)
  have at: "copy_of (jobs_of (w_jobs w)) j" "container_stopped (running (w_docker w)) j"
    using soundD [OF s] Completing by simp_all
  show ?thesis
  proof (cases "transition j COMPLETED t")
    case (Inr v)
    with updatesI [OF s, of j "v\<lparr>j_checkpoint_gcs_path := Some (checkpoint_object_path j)\<rparr>"]
      transition_version [OF Inr] at Completing step
    show ?thesis by (auto simp: mark_completed_def Let_def cleanup_job_dir_def)
  qed (use step Completing in \<open>auto simp: mark_completed_def\<close>)
next
  case (Failing j m b)
  have at: "copy_of (jobs_of (w_jobs w)) j" "container_stopped (running (w_docker w)) j"
    using soundD [OF s] Failing by simp_all
  show ?thesis
  proof (cases "transition j FAILED t")
    case (Inr v)
    with updatesI [OF s, of j "v\<lparr>j_error_message := Some m\<rparr>"] transition_version [OF Inr] at Failing step
    show ?thesis by (cases b) (auto simp: mark_failed_def Let_def cleanup_job_dir_def)
  qed (use step Failing in \<open>auto simp: mark_failed_def\<close>)
qed (use pc in simp_all)

text \<open>The copies the worker holds come from the store, and it makes later versions of them.\<close>

lemma listed_held:
  assumes "world_ok w" and "jr_list_by_statuses R (w_jobs w) sts = Inr js" and "j \<in> set js" and "set sts \<subseteq> set ACTIVE_STATUSES"
  shows "jobs_of (w_jobs w) (j_id j) = Some j \<and> j_status j \<in> set ACTIVE_STATUSES"
  using assms list_by_statuses_mem [of "w_jobs w" sts js j] by (auto simp: world_ok_def)

lemma monitoring_statuses:
  "set CANCELLABLE_STATUSES \<subseteq> set ACTIVE_STATUSES" "set COMPLETION_MONITORED_STATUSES \<subseteq> set ACTIVE_STATUSES"
  by (auto simp: CANCELLABLE_STATUSES_def COMPLETION_MONITORED_STATUSES_def status_simps)

lemma held_after: "h \<in> set (held (after_observation j code)) \<Longrightarrow> h = j"
  by (cases code) simp_all

lemma step_held:
  assumes s: "sound pc w" and step: "worker_step E t pc w = (pc', w')" and h: "h \<in> set (held pc')"
  shows "(\<exists>g \<in> set (held pc). version g h) \<or> jobs_of (w_jobs w) (j_id h) = Some h \<and> j_status h \<in> set ACTIVE_STATUSES"
proof (cases pc)
  case Idle
  with step h listed_held [of w CANCELLABLE_STATUSES] soundD [OF s] monitoring_statuses show ?thesis
    by (auto split: sum.splits)
next
  case (Cancelling now js)
  have "h \<in> set js" using step h Cancelling by (cases js) (auto split: sum.splits prod.splits if_splits)
  with Cancelling show ?thesis by (auto intro: bexI [of _ h])
next
  case (Stopped now j js)
  with step h show ?thesis by (auto split: sum.splits intro: bexI [of _ h])
next
  case Selecting
  with step h listed_held [of w "[QUEUED]" _ h] soundD [OF s] show ?thesis
    by (auto simp: status_simps split: sum.splits list.splits)
next
  case (Selected now j)
  with step h show ?thesis by (auto split: sum.splits option.splits dest: transition_version)
next
  case (Fetching j)
  obtain q w1 where q: "fetch_dataset E j w = (q, w1)" by fastforce
  have "h = j" using step h Fetching q by (cases q rule: sum.exhaust; cases "projl q") auto
  with Fetching show ?thesis by simp
next
  case (Launching j d)
  with step h show ?thesis by (auto split: sum.splits prod.splits)
next
  case Monitoring
  with step h listed_held [of w COMPLETION_MONITORED_STATUSES] soundD [OF s] monitoring_statuses show ?thesis
    by (auto split: sum.splits list.splits)
next
  case (Observed j p code)
  have at: "monitored (j_status j)" using soundD [OF s] Observed by simp
  show ?thesis
  proof (cases p)
    case (Some x)
    obtain r w1 where r: "start_training R t j w = (r, w1)" by fastforce
    from training_version [OF r at] obtain v where "r = Inr v" "version j v" by blast
    with step h Observed Some r show ?thesis by auto
  next
    case None
    with step h Observed show ?thesis by (auto split: if_splits prod.splits dest: held_after)
  qed
next
  case (Reporting j p code)
  with step h show ?thesis
    by (auto simp: record_progress_def Let_def split: if_splits prod.splits dest!: held_after)
next
  case (Finalizing j code)
  have at: "monitored (j_status j)" using soundD [OF s] Finalizing by simp
  obtain r w1 where r: "start_training R t j w = (r, w1)" by fastforce
  from training_version [OF r at] obtain v where "r = Inr v" "version j v" by blast
  with step h Finalizing r show ?thesis by auto
qed (use step h in \<open>auto simp: fail_during_start_def mark_completed_def mark_failed_def Let_def
    split: sum.splits prod.splits if_splits\<close>)

end

subsection \<open>Containers in sight\<close>

definition in_sight :: "(string \<rightharpoonup> Job) \<Rightarrow> (string \<rightharpoonup> (string \<times> string) list) \<Rightarrow> worker_pc \<Rightarrow> bool" where
  "in_sight J run pc \<longleftrightarrow> (\<forall>c ls. run c = Some ls \<longrightarrow> labelled ls \<longrightarrow>
     c \<noteq> [] \<and> ((\<exists>k i. J k = Some i \<and> (monitored (j_status i) \<or> timed_out i) \<and> j_container_id i = Some c) \<or>
       (\<exists>j. pc = Recording j \<and> j_container_id j = Some c)))"

lemma in_sightD:
  "in_sight J run pc \<Longrightarrow> run c = Some ls \<Longrightarrow> labelled ls \<Longrightarrow>
   c \<noteq> [] \<and> ((\<exists>k i. J k = Some i \<and> (monitored (j_status i) \<or> timed_out i) \<and> j_container_id i = Some c) \<or>
     (\<exists>j. pc = Recording j \<and> j_container_id j = Some c))"
  unfolding in_sight_def by blast

lemma env_sight:
  assumes ch: "env_change J run J' run'" and sight: "in_sight J run pc"
  shows "in_sight J' run' pc"
  unfolding in_sight_def
proof (intro allI impI)
  fix c ls assume "run' c = Some ls" "labelled ls"
  with ch have "run c = Some ls" unfolding env_change_def by blast
  from in_sightD [OF sight this \<open>labelled ls\<close>] have c: "c \<noteq> []" "(\<exists>k i. J k = Some i \<and>
      (monitored (j_status i) \<or> timed_out i) \<and> j_container_id i = Some c) \<or> (\<exists>j. pc = Recording j \<and> j_container_id j = Some c)"
    by blast+
  have "\<exists>i'. J' k = Some i' \<and> (monitored (j_status i') \<or> timed_out i') \<and> j_container_id i' = Some c"
    if i: "J k = Some i" "monitored (j_status i) \<or> timed_out i" "j_container_id i = Some c" for k i
  proof -
    from ch i(1) obtain i' where "J' k = Some i'" "env_job i i'" unfolding env_change_def by blast
    with i show ?thesis by (auto simp: env_job_def timed_out_def status_simps)
  qed
  with c show "c \<noteq> [] \<and> ((\<exists>k i. J' k = Some i \<and> (monitored (j_status i) \<or> timed_out i) \<and> j_container_id i = Some c) \<or>
      (\<exists>j. pc = Recording j \<and> j_container_id j = Some c))" by metis
qed

lemma update_sight:
  assumes up: "updates J run pc J'" and sight: "in_sight J run pc" and rec: "\<And>j. pc = Recording j \<Longrightarrow> monitored (j_status j)"
  shows "in_sight J' run pc'"
proof -
  obtain v i where v: "J' = J(j_id v \<mapsto> v)" "\<forall>j. pc = Recording j \<longrightarrow> v = j" and i: "J (j_id v) = Some i"
      "j_container_id i = None \<or> monitored (j_status v) \<and> j_container_id v = j_container_id i \<or> container_stopped run i"
    using up unfolding updates_def settles_def by blast
  show ?thesis
    unfolding in_sight_def
  proof (intro allI impI)
    fix c ls assume run: "run c = Some ls" "labelled ls"
    from in_sightD [OF sight run] have c: "c \<noteq> []" "(\<exists>k i. J k = Some i \<and>
        (monitored (j_status i) \<or> timed_out i) \<and> j_container_id i = Some c) \<or> (\<exists>j. pc = Recording j \<and> j_container_id j = Some c)"
      by blast+
    from c(2) consider (launched) j where "pc = Recording j" "j_container_id j = Some c"
      | (stored) k x where "J k = Some x" "j_container_id x = Some c" "monitored (j_status x) \<or> timed_out x" by blast
    then have "\<exists>k x. J' k = Some x \<and> (monitored (j_status x) \<or> timed_out x) \<and> j_container_id x = Some c"
    proof cases
      case launched
      with v rec show ?thesis
        by (intro exI [of _ "j_id j"] exI [of _ j]) auto
    next
      case x: stored
      show ?thesis
      proof (cases "k = j_id v")
        case True
        with x(1,2) i run c(1) have "monitored (j_status v)" "j_container_id v = Some c" by (auto simp: container_stopped_def)
        with v(1) show ?thesis by (intro exI [of _ "j_id v"] exI [of _ v]) simp
      next
        case False
        with v(1) x show ?thesis by (intro exI [of _ k] exI [of _ x]) simp
      qed
    qed
    with c(1) show "c \<noteq> [] \<and> ((\<exists>k i. J' k = Some i \<and> (monitored (j_status i) \<or> timed_out i) \<and> j_container_id i = Some c) \<or>
        (\<exists>j. pc' = Recording j \<and> j_container_id j = Some c))" by blast
  qed
qed

text \<open>Of two running containers one belongs to a job that was timed out.\<close>

lemma sight_one:
  assumes core: "jobs_core J" and at: "at_pc J run pc" and sight: "in_sight J run pc"
    and two: "run c = Some ls" "labelled ls" "run c' = Some ls'" "labelled ls'" "c \<noteq> c'"
  shows "\<exists>k j. J k = Some j \<and> timed_out j \<and> j_container_id j \<in> {Some c, Some c'}"
proof (rule ccontr)
  assume none: "\<not> ?thesis"
  have "(\<exists>k i. J k = Some i \<and> monitored (j_status i) \<and> j_container_id i = Some x) \<or> (\<exists>j. pc = Recording j \<and> j_container_id j = Some x)"
    if "x \<in> {c, c'}" for x
    using that none in_sightD [OF sight two(1,2)] in_sightD [OF sight two(3,4)] by blast
  then have owner: "(\<exists>k i. J k = Some i \<and> monitored (j_status i) \<and> j_container_id i = Some c) \<or> (\<exists>j. pc = Recording j \<and> j_container_id j = Some c)"
    "(\<exists>k i. J k = Some i \<and> monitored (j_status i) \<and> j_container_id i = Some c') \<or> (\<exists>j. pc = Recording j \<and> j_container_id j = Some c')"
    by blast+
  have no: "\<not> (J k = Some i \<and> monitored (j_status i) \<and> j_container_id i = Some x)" if "pc = Recording j" for k i x j
  proof
    assume i: "J k = Some i \<and> monitored (j_status i) \<and> j_container_id i = Some x"
    from at that have "gpu_only J (j_id j)" "copy_of J (j\<lparr>j_container_id := None\<rparr>)" by simp_all
    with i show False unfolding gpu_only_def copy_of_def by fastforce
  qed
  show False
  proof (cases "\<exists>j. pc = Recording j")
    case True
    with owner no two(5) show False by fastforce
  next
    case False
    with owner obtain k i k' i' where "J k = Some i" "monitored (j_status i)" "j_container_id i = Some c"
      "J k' = Some i'" "monitored (j_status i')" "j_container_id i' = Some c'" by blast
    moreover from this core have "k' = k" unfolding jobs_core_def gpu_one_def gpu_only_def by blast
    ultimately show False using two(5) by simp
  qed
qed

subsection \<open>The history of a job\<close>

text \<open>The stored job and every copy of it descend from \<open>j\<close>; or it is \<open>j\<close> and no copy is left.\<close>

definition descends :: "Job \<Rightarrow> (string \<rightharpoonup> Job) \<Rightarrow> worker_pc \<Rightarrow> bool" where
  "descends j J pc \<longleftrightarrow> (\<exists>i. J (j_id j) = Some i \<and> version j i) \<and> (\<forall>h \<in> set (held pc). j_id h = j_id j \<longrightarrow> version j h)"

definition frozen :: "Job \<Rightarrow> (string \<rightharpoonup> Job) \<Rightarrow> worker_pc \<Rightarrow> bool" where
  "frozen j J pc \<longleftrightarrow> J (j_id j) = Some j \<and> j_status j \<in> set TERMINAL_STATUSES \<and> (\<forall>h \<in> set (held pc). j_id h \<noteq> j_id j)"

definition kept :: "Job \<Rightarrow> (string \<rightharpoonup> Job) \<Rightarrow> bool" where
  "kept j J \<longleftrightarrow> (\<exists>i. J (j_id j) = Some i \<and> same_submission j i)"

lemma env_job_version: "env_job i i' \<Longrightarrow> version i i'"
  by (auto simp: env_job_def version_def timed_out_def monitored_def status_reaches_iff status_simps)

lemma env_history:
  assumes ch: "env_change J run J' run'"
  shows "descends j J pc \<Longrightarrow> descends j J' pc" and "frozen j J pc \<Longrightarrow> frozen j J' pc" and "kept j J \<Longrightarrow> kept j J'"
proof -
  have later: "\<exists>i'. J' k = Some i' \<and> env_job i i'" if "J k = Some i" for k i using ch that unfolding env_change_def by blast
  show "descends j J pc \<Longrightarrow> descends j J' pc"
    using later env_job_version version_trans unfolding descends_def by metis
  show "frozen j J pc \<Longrightarrow> frozen j J' pc" using later unfolding frozen_def env_job_def by metis
  show "kept j J \<Longrightarrow> kept j J'" using later same_submission_trans unfolding kept_def env_job_def by metis
qed

text \<open>What the copies are to the stored jobs.\<close>

lemma held_copy:
  assumes "at_pc J run pc" and "h \<in> set (held pc)"
  shows "\<exists>i. J (j_id h) = Some i \<and> same_submission i h \<and> (j_status i = FAILED \<or> j_status i \<notin> set TERMINAL_STATUSES \<and> version i h)"
proof -
  have "copy_of J h \<or> copy_of J (h\<lparr>j_container_id := None\<rparr>)"
    using assms by (cases pc) (auto simp: candidates_ok_def)
  then show ?thesis by (auto simp: copy_of_def same_submission_def version_def)
qed

lemma history_starts:
  assumes at: "at_pc J run pc" and j: "J (j_id j) = Some j"
  shows "kept j J" and "j_status j \<notin> set TERMINAL_STATUSES \<Longrightarrow> descends j J pc"
    and "j_status j \<in> set TERMINAL_STATUSES \<Longrightarrow> \<not> (j_status j = FAILED \<and> j_id j \<in> j_id ` set (held pc)) \<Longrightarrow> frozen j J pc"
proof -
  show "kept j J" using j by (simp add: kept_def)
  have h: "j_status j = FAILED \<or> j_status j \<notin> set TERMINAL_STATUSES \<and> version j h" if "h \<in> set (held pc)" "j_id h = j_id j" for h
    using held_copy [OF at that(1)] j that(2) by auto
  show "j_status j \<notin> set TERMINAL_STATUSES \<Longrightarrow> descends j J pc" using h j by (auto simp: descends_def status_simps)
  show "j_status j \<in> set TERMINAL_STATUSES \<Longrightarrow> \<not> (j_status j = FAILED \<and> j_id j \<in> j_id ` set (held pc)) \<Longrightarrow> frozen j J pc"
    using h j by (auto simp: frozen_def image_iff)
qed

text \<open>A step of the worker, seen from a job.\<close>

lemma worker_history:
  assumes up: "J' = J \<or> updates J run pc J'"
    and held: "\<And>h. h \<in> set (held pc') \<Longrightarrow> (\<exists>g \<in> set (held pc). version g h) \<or> J (j_id h) = Some h \<and> j_status h \<in> set ACTIVE_STATUSES"
  shows "descends j J pc \<Longrightarrow> descends j J' pc'" and "frozen j J pc \<Longrightarrow> frozen j J' pc'" and "kept j J \<Longrightarrow> kept j J'"
proof -
  assume d: "descends j J pc"
  have "\<exists>i. J' (j_id j) = Some i \<and> version j i"
    using up
  proof
    assume "updates J run pc J'"
    then obtain h v where hv: "h \<in> set (held pc)" "version h v" "J' = J(j_id v \<mapsto> v)" unfolding updates_def by blast
    show ?thesis
    proof (cases "j_id v = j_id j")
      case True
      with hv(1,2) d have "version j h" by (auto simp: descends_def version_id)
      with True hv(2,3) show ?thesis by (auto intro: version_trans)
    qed (use hv(3) d in \<open>auto simp: descends_def\<close>)
  qed (use d in \<open>simp add: descends_def\<close>)
  moreover have "version j h" if "h \<in> set (held pc')" "j_id h = j_id j" for h
    using held [OF that(1)] d that(2) by (auto simp: descends_def version_id intro: version_trans)
  ultimately show "descends j J' pc'" by (simp add: descends_def)
next
  assume f: "frozen j J pc"
  have "J' (j_id j) = Some j" using up f by (auto simp: frozen_def updates_def version_id)
  moreover have "j_id h \<noteq> j_id j" if "h \<in> set (held pc')" for h
  proof
    assume "j_id h = j_id j"
    with held [OF that] f show False by (auto simp: frozen_def version_id active_iff_not_terminal)
  qed
  ultimately show "frozen j J' pc'" using f by (auto simp: frozen_def)
next
  assume k: "kept j J"
  show "kept j J'"
    using up
  proof
    assume "updates J run pc J'"
    then obtain v i where v: "J' = J(j_id v \<mapsto> v)" "J (j_id v) = Some i" "same_submission i v"
      unfolding updates_def settles_def by blast
    show ?thesis
    proof (cases "j_id v = j_id j")
      case True
      with k v show ?thesis by (auto simp: kept_def intro: same_submission_trans)
    qed (use k v in \<open>auto simp: kept_def\<close>)
  qed (use k in simp)
qed

subsection \<open>Runs\<close>

context whole_system begin

abbreviation "jobs_at x \<equiv> jobs_of (w_jobs (fst (fst x)))"
abbreviation "running_at x \<equiv> running (w_docker (fst (fst x)))"
abbreviation "live \<equiv> live_step P E jobs_of users_of objects_of running"
abbreviation "lives \<equiv> live_run P E jobs_of users_of objects_of running"

definition orderly :: "('j, 'u, 'o, 'd) live \<Rightarrow> bool" where
  "orderly x \<longleftrightarrow> worker.sound (snd x) (fst (fst x))"

lemma orderlyD:
  "orderly x \<Longrightarrow> worker.world_ok (fst (fst x)) \<and> jobs_core (jobs_at x) \<and> at_pc (jobs_at x) (running_at x) (snd x)"
  by (simp add: orderly_def worker.sound_def)

lemma action_env_events: "a \<noteq> WorkerRound \<Longrightarrow> action_events a \<subseteq> env_events"
proof (cases a)
  case (Serve q)
  then show ?thesis by (cases q) (auto simp: env_events_def)
qed (simp_all add: env_events_def)

text \<open>The changes that are not made by a step of the worker.\<close>

lemma beside_step:
  assumes "live x y" and "orderly x"
  obtains (beside) "worker.world_ok (fst (fst y))" "env_change (jobs_at x) (running_at x) (jobs_at y) (running_at y)"
      "one_queued (jobs_at y)" "snd y = snd x \<or> snd y = Idle \<and> tracked (view (fst (fst y)) 0) \<or> (\<exists>e. snd y = Dead e)"
  | (worker) t where "worker_step E t (snd x) (fst (fst x)) = (snd y, fst (fst y))"
  using assms(1)
proof (cases rule: live_step.cases)
  case (environment a s s' pc)
  have ok: "worker.world_ok (fst s)" "jobs_core (jobs_of (w_jobs (fst s)))" using orderlyD [OF assms(2)] environment by simp_all
  from environment_refines [OF environment(3) ok(1) environment(4,5)] have
    ref: "worker.world_ok (fst s')" "sys_steps (action_events a) (view (fst s) (snd s)) (view (fst s') (snd s'))" by blast+
  note ev = action_env_events [OF environment(4)]
  show thesis
    by (rule beside) (use environment ref(1) steps_env_change [OF ref(2) ev] steps_one_queued [OF ref(2) ev] ok(2)
      in \<open>simp_all add: jobs_core_def\<close>)
next
  case (worker t t' pc w pc' w')
  then show thesis by (intro that(2) [of t']) simp
next
  case (restart time w r w' t pc)
  have ok: "worker.world_ok w" "jobs_core (jobs_of (w_jobs w))" using orderlyD [OF assms(2)] restart by simp_all
  from worker.worker_startup_refines [OF ok(1) restart(3), of 0] have
    ref: "worker.world_ok w'" "sys_steps {Stop} (view w 0) (view w' 0)" and tr: "\<And>res. r = Inr res \<Longrightarrow> tracked (view w' 0)"
    by blast+
  have ev: "{Stop} \<subseteq> env_events" by (simp add: env_events_def)
  show thesis
    by (rule beside) (use restart ref(1) tr steps_env_change [OF ref(2) ev] steps_one_queued [OF ref(2) ev] ok(2)
      in \<open>auto simp: jobs_core_def split: sum.splits\<close>)
qed

lemma live_orderly:
  assumes "live x y" and "orderly x"
  shows "orderly y"
  using assms
proof (cases rule: beside_step)
  case beside
  note x = orderlyD [OF assms(2)]
  have "jobs_core (jobs_at y)"
    using x beside(3) env_gpu(3) [OF beside(2)] env_bare [OF beside(2)] unfolding jobs_core_def by blast
  moreover have "at_pc (jobs_at y) (running_at y) (snd y)" using beside(4) env_at [OF beside(2)] x by auto
  ultimately show ?thesis using beside(1) by (simp add: orderly_def worker.sound_def)
next
  case (worker t)
  from worker.worker_step_sound [OF _ this] assms(2) show ?thesis by (simp add: orderly_def)
qed

lemma lives_orderly: "lives x y \<Longrightarrow> orderly x \<Longrightarrow> orderly y"
  by (induction rule: live_run.induct) (auto intro: live_orderly)

text \<open>What a step of the worker does to the jobs, and to the containers in sight.\<close>

lemma worker_jobs:
  assumes "orderly x" and step: "worker_step E t (snd x) (fst (fst x)) = (snd y, fst (fst y))"
  shows "jobs_at y = jobs_at x \<or> updates (jobs_at x) (running_at x) (snd x) (jobs_at y)"
proof -
  have s: "worker.sound (snd x) (fst (fst x))" using assms(1) by (simp add: orderly_def)
  show ?thesis
  proof (cases "acts (snd x)")
    case False
    with worker.quiet_step(1) [OF step] show ?thesis by simp
  next
    case True
    show ?thesis
    proof (cases "\<exists>j d. snd x = Launching j d")
      case True
      then obtain j d where pc: "snd x = Launching j d" by blast
      have "w_jobs (fst (fst y)) = w_jobs (fst (fst x))"
        using step pc worker.run_container_refines(1) by (auto split: prod.splits sum.splits)
      then show ?thesis by simp
    next
      case False
      with worker.writing_step [OF s step True] show ?thesis by auto
    qed
  qed
qed

lemma launch_sight:
  assumes s: "worker.sound (Launching j d) w" and step: "worker_step E t (Launching j d) w = (pc', w')"
    and sight: "in_sight (jobs_of (w_jobs w)) (running (w_docker w)) (Launching j d)"
  shows "in_sight (jobs_of (w_jobs w')) (running (w_docker w')) pc'"
proof -
  obtain q w1 where q: "run_container E (build_container_spec (wd_settings E) j
      (job_dir_text (ws_workdir (wd_settings E)) j) d) w = (q, w1)" by fastforce
  note f = worker.run_container_refines [OF q]
  show ?thesis
  proof (cases q)
    case (Inl e)
    with step q f sight show ?thesis by (auto simp: in_sight_def)
  next
    case (Inr c)
    with step q f have "pc' = Recording (j\<lparr>j_container_id := Some c\<rparr>)" "w' = w1" by simp_all
    with f Inr sight show ?thesis by (auto simp: in_sight_def)
  qed
qed

lemma worker_sight:
  assumes "orderly x" and step: "worker_step E t (snd x) (fst (fst x)) = (snd y, fst (fst y))"
    and sight: "in_sight (jobs_at x) (running_at x) (snd x)"
  shows "in_sight (jobs_at y) (running_at y) (snd y)"
proof -
  have s: "worker.sound (snd x) (fst (fst x))" using assms(1) by (simp add: orderly_def)
  show ?thesis
  proof (cases "acts (snd x)")
    case False
    note q = worker.quiet_step [OF step False]
    from False have "\<And>j. snd x \<noteq> Recording j" by auto
    with q sight show ?thesis unfolding in_sight_def by metis
  next
    case True
    show ?thesis
    proof (cases "\<exists>j d. snd x = Launching j d")
      case True
      with launch_sight s step sight show ?thesis by auto
    next
      case False
      with worker.writing_step [OF s step True] have run: "running_at y = running_at x"
        and jobs: "(\<forall>j. snd x \<noteq> Recording j) \<and> jobs_at y = jobs_at x \<or> updates (jobs_at x) (running_at x) (snd x) (jobs_at y)"
        by auto
      from jobs show ?thesis
      proof
        assume "(\<forall>j. snd x \<noteq> Recording j) \<and> jobs_at y = jobs_at x"
        with sight run show ?thesis by (auto simp: in_sight_def)
      next
        assume up: "updates (jobs_at x) (running_at x) (snd x) (jobs_at y)"
        have "monitored (j_status j)" if "snd x = Recording j" for j
          using worker.soundD [OF s] that by simp
        from update_sight [OF up sight this] show ?thesis by (simp add: run)
      qed
    qed
  qed
qed

lemma tracked_sight: "tracked (view w t) \<Longrightarrow> in_sight (jobs_of (w_jobs w)) (running (w_docker w)) pc"
  unfolding tracked_def in_sight_def by fastforce

lemma live_sight:
  assumes "live x y" and "orderly x"
    and sight: "\<not> (\<exists>e. snd x = Dead e) \<Longrightarrow> in_sight (jobs_at x) (running_at x) (snd x)" and "\<not> (\<exists>e. snd y = Dead e)"
  shows "in_sight (jobs_at y) (running_at y) (snd y)"
  using assms(1,2)
proof (cases rule: beside_step)
  case beside
  from beside(4) assms(4) show ?thesis
  proof (elim disjE conjE)
    assume "snd y = snd x"
    with sight assms(4) env_sight [OF beside(2)] show ?thesis by simp
  qed (auto intro: tracked_sight)
next
  case (worker t)
  have "\<not> (\<exists>e. snd x = Dead e)"
  proof
    assume "\<exists>e. snd x = Dead e"
    then obtain e where "snd x = Dead e" by blast
    with worker have "snd y = Dead e" by simp
    with assms(4) show False by blast
  qed
  from worker_sight [OF assms(2) worker sight [OF this]] show ?thesis .
qed

lemma lives_sight:
  assumes "lives x y" and "orderly x" and "in_sight (jobs_at x) (running_at x) (snd x)"
  shows "\<not> (\<exists>e. snd y = Dead e) \<longrightarrow> in_sight (jobs_at y) (running_at y) (snd y)"
  using assms
proof (induction rule: live_run.induct)
  case (live_more x y z)
  then show ?case using live_sight [OF live_more.hyps(2) lives_orderly [OF live_more.hyps(1)]] by blast
qed simp

text \<open>The history of a job.\<close>

lemma live_history:
  assumes "live x y" and "orderly x"
  shows "descends j (jobs_at x) (snd x) \<Longrightarrow> descends j (jobs_at y) (snd y)"
    and "frozen j (jobs_at x) (snd x) \<Longrightarrow> frozen j (jobs_at y) (snd y)"
    and "kept j (jobs_at x) \<Longrightarrow> kept j (jobs_at y)"
proof -
  have "(descends j (jobs_at x) (snd x) \<longrightarrow> descends j (jobs_at y) (snd y)) \<and>
    (frozen j (jobs_at x) (snd x) \<longrightarrow> frozen j (jobs_at y) (snd y)) \<and> (kept j (jobs_at x) \<longrightarrow> kept j (jobs_at y))"
    using assms
  proof (cases rule: beside_step)
    case beside
    have "set (held (snd y)) \<subseteq> set (held (snd x))" using beside(4) by auto
    with env_history(1,2) [OF beside(2), of j "snd x"] env_history(3) [OF beside(2), of j] show ?thesis by (auto simp: descends_def frozen_def)
  next
    case (worker t)
    have "worker.sound (snd x) (fst (fst x))" using assms(2) by (simp add: orderly_def)
    from worker_history [OF worker_jobs [OF assms(2) worker] worker.step_held [OF this worker]] show ?thesis by blast
  qed
  then show "descends j (jobs_at x) (snd x) \<Longrightarrow> descends j (jobs_at y) (snd y)"
    and "frozen j (jobs_at x) (snd x) \<Longrightarrow> frozen j (jobs_at y) (snd y)"
    and "kept j (jobs_at x) \<Longrightarrow> kept j (jobs_at y)" by blast+
qed

lemma lives_history:
  assumes "lives x y" and "orderly x"
  shows "descends j (jobs_at x) (snd x) \<longrightarrow> descends j (jobs_at y) (snd y)"
    and "frozen j (jobs_at x) (snd x) \<longrightarrow> frozen j (jobs_at y) (snd y)"
    and "kept j (jobs_at x) \<longrightarrow> kept j (jobs_at y)"
  using assms by (induction rule: live_run.induct) (use lives_orderly live_history in blast)+

lemma job_lives:
  assumes run: "lives x y" and ok: "orderly x" and j: "jobs_at x k = Some j"
  shows "\<exists>j'. jobs_at y k = Some j' \<and> same_submission j j' \<and>
    (\<not> (j_status j = FAILED \<and> k \<in> j_id ` set (held (snd x))) \<longrightarrow>
       status_reaches (j_status j) (j_status j') \<and> (j_status j \<in> set TERMINAL_STATUSES \<longrightarrow> j' = j))"
proof -
  note x = orderlyD [OF ok]
  have "keyed j_id (jobs_at x)" using x by (simp add: worker.world_ok_def worker.jobs_keyed)
  with j have k: "k = j_id j" by (auto simp: keyed_def)
  note start = history_starts [of "jobs_at x" "running_at x" "snd x" j] and hist = lives_history [OF run ok, of j]
  show ?thesis
  proof (cases "j_status j \<in> set TERMINAL_STATUSES")
    case False
    with start(2) x j k hist(1) have "descends j (jobs_at y) (snd y)" by simp
    with False k show ?thesis by (auto simp: descends_def version_def)
  next
    case True
    show ?thesis
    proof (cases "j_status j = FAILED \<and> j_id j \<in> j_id ` set (held (snd x))")
      case False
      with True start(3) x j k hist(2) have "frozen j (jobs_at y) (snd y)" by simp
      with k show ?thesis by (auto simp: frozen_def reaches_refl)
    next
      case True
      with start(1) x j k hist(3) have "kept j (jobs_at y)" by simp
      with k True show ?thesis by (auto simp: kept_def)
    qed
  qed
qed

end

end
