(* ===== verification/Service_Properties.thy ===== *)
theory Service_Properties
  imports Reference_Platform Interleaving
begin

text \<open>
  The properties of the deployed service. C1, C3 and C5 are about \<open>service_run\<close>: requests, sweeps, whole
  worker rounds, restarts, client uploads and container exits, in any order. C2, C4 and C6 are about
  \<open>interleaved_run\<close>, where the others also act in the middle of a round and the worker may die there; a
  request or a sweep still runs to its end.
\<close>

definition interleaved_run ::
    "('j, 'u, 'o, 'd) platform \<Rightarrow> Settings \<Rightarrow> WorkerSettings \<Rightarrow> ('j, 'u, 'o, 'd) live \<Rightarrow> ('j, 'u, 'o, 'd) live \<Rightarrow> bool" where
  "interleaved_run L st ws =
     live_run (deployed_backend L st) (deployed_worker L ws) (stored_job (pl_job_docs L)) (stored_user (pl_user_docs L))
       (pl_objects L) (running_view (pl_containers L))"

text \<open>
  Where a worker may start: documents the adapters wrote, at most one job on the GPU, one queued job per
  user, and no container for a queued job.
\<close>

definition serviceable :: "('j, 'u, 'o, 'd) platform \<Rightarrow> ('j, 'u, 'o, 'd) world \<Rightarrow> bool" where
  "serviceable L w \<longleftrightarrow> holds_jobs (pl_job_docs L) (w_jobs w) \<and> holds_users (pl_user_docs L) (w_users w) \<and>
     jobs_core (jobs_in L w)"

lemma blank_serviceable: "blank L w \<Longrightarrow> serviceable L w"
  using blank_consistent [of L w 0]
  by (auto simp: serviceable_def consistent_def jobs_core_def gpu_one_def one_queued_def queued_bare_def blank_def jobs_in_def
      stored_job_def)

lemma consistent_serviceable: "consistent L (w, t) \<Longrightarrow> serviceable L w"
  by (auto simp: serviceable_def consistent_def sys_ok_def jobs_core_def gpu_one_def gpu_only_def one_queued_def
      queued_bare_def one_monitored_def one_active_def jobs_ok_def job_ok_def status_simps)

lemma serviceable_orderly:
  assumes L: "platform_ok L"
  shows "serviceable L w \<longleftrightarrow> whole_system.orderly (stored_job (pl_job_docs L))
    (holds_jobs (pl_job_docs L)) (holds_users (pl_user_docs L)) (running_view (pl_containers L)) ((w, t), Idle)"
proof -
  note sys = deployed_whole_system [OF L, of default_settings default_worker_settings]
  note worker = sys [unfolded whole_system_def, THEN conjunct1]
  show ?thesis
    by (simp add: whole_system.orderly_def [OF sys] training_system.sound_def [OF worker]
        training_system.world_ok_def [OF worker] serviceable_def jobs_in_def)
qed

lemma interleaved_orderly:
  assumes L: "platform_ok L" and start: "serviceable L (fst s0)" and run: "interleaved_run L st ws (s0, Idle) x"
  shows "whole_system.orderly (stored_job (pl_job_docs L)) (holds_jobs (pl_job_docs L))
    (holds_users (pl_user_docs L)) (running_view (pl_containers L)) x"
  using whole_system.lives_orderly [OF deployed_whole_system [OF L, of st ws]] run start
    serviceable_orderly [OF L, of "fst s0" "snd s0"]
  by (simp add: interleaved_run_def)

lemma interleaved_core:
  assumes L: "platform_ok L" and start: "serviceable L (fst s0)" and run: "interleaved_run L st ws (s0, Idle) (s, pc)"
  shows "jobs_core (jobs_in L (fst s)) \<and> at_pc (jobs_in L (fst s)) (running_in L (fst s)) pc"
  using whole_system.orderlyD [OF deployed_whole_system [OF L, of st ws] interleaved_orderly [OF L start run]]
  by (simp add: jobs_in_def running_in_def)

text \<open>
  C2: The service trains one job at a time, as its job records tell it, also when requests, sweeps, uploads
  and container exits come in the middle of a worker's round and the worker dies and restarts anywhere: in
  every state reached in this way from empty collections at most one job is initializing or training, and a
  user has at most one job in the queue. (The containers are the subject of C4. A request or a sweep is one
  step here.)
\<close>

theorem one_job_at_a_time:
  assumes L: "platform_ok L" and start: "blank L (fst s0)" and run: "interleaved_run L st ws (s0, Idle) (s, pc)"
    and i: "jobs_in L (fst s) k = Some i" and j: "jobs_in L (fst s) l = Some j"
  shows "(j_status i \<in> {INITIALIZING, TRAINING} \<and> j_status j \<in> {INITIALIZING, TRAINING} \<longrightarrow> k = l) \<and>
    (j_user_id i = j_user_id j \<and> j_status i = QUEUED \<and> j_status j = QUEUED \<longrightarrow> k = l)"
proof -
  have "jobs_core (jobs_in L (fst s))" using interleaved_core [OF L blank_serviceable [OF start] run] by blast
  with i j show ?thesis
    unfolding jobs_core_def gpu_one_def gpu_only_def one_queued_def monitored_def by blast
qed

lemma demo_interleaved_run:
  "interleaved_run demo_platform default_settings ws ((demo_start, 0), Idle) ((demo_state, 2), Idle)"
  unfolding interleaved_run_def demo_views
  by (rule live_more [OF live_more [OF live_refl environment [OF demo_first_step]] environment [OF demo_second_step]]) simp_all

theorem one_job_at_a_time_witness:
  "jobs_in demo_platform demo_state ''j1'' = Some submitted_job \<and> j_status submitted_job = QUEUED \<and>
   \<not> (\<exists>l j. l \<noteq> ''j1'' \<and> jobs_in demo_platform demo_state l = Some j \<and> j_user_id j = ''u1'' \<and> j_status j = QUEUED)"
proof -
  have job: "j_user_id submitted_job = ''u1''" "j_status submitted_job = QUEUED" by (simp_all add: submitted_job_def)
  have stored: "jobs_in demo_platform demo_state ''j1'' = Some submitted_job" by (simp add: demo_facts)
  have "l = ''j1''"
    if "jobs_in demo_platform demo_state l = Some j" "j_user_id j = ''u1''" "j_status j = QUEUED" for l j
    using one_job_at_a_time [OF demo_platform_ok, of "(demo_start, 0)" default_settings default_worker_settings
        "(demo_state, 2)" Idle "''j1''" submitted_job l j, OF _ demo_interleaved_run] stored demo_facts(1) that job by simp
  with stored job show ?thesis by blast
qed



text \<open>
  C5: The daily limit holds in every reachable state: the counter of an account never exceeds
  \<open>MAX_DAILY_JOBS\<close>, its day is never in the future, and while the account has a job in the queue there
  is room left for it, so starting the job cannot exceed the limit either.
\<close>

theorem daily_limit_respected:
  assumes L: "platform_ok L" and start: "blank L (fst s0)" and run: "service_run L st ws (\<lambda>_. True) s0 s"
    and u: "users_in L (fst s) k = Some u"
  shows "u_id u = k \<and> u_daily_quota_used u \<le> MAX_DAILY_JOBS \<and>
    (\<forall>d. u_quota_reset_date u = Some d \<longrightarrow> d \<le> date_of (snd s)) \<and>
    (\<forall>i j t. jobs_in L (fst s) i = Some j \<and> j_user_id j = k \<and> j_status j = QUEUED \<and> snd s \<le> t \<longrightarrow>
       u_daily_quota_used (record_job_started u (date_of t)) \<le> MAX_DAILY_JOBS)"
proof -
  have ok: "sys_ok (service_view L s)" using reached_consistent [OF L start run] by (simp add: consistent_def)
  then have keyed: "keyed u_id (users_in L (fst s))" by (simp add: sys_ok_def users_keyed_def)
  from ok u have q: "u_daily_quota_used u \<le> MAX_DAILY_JOBS"
      "\<forall>d. u_quota_reset_date u = Some d \<longrightarrow> d \<le> date_of (snd s)"
    and room: "\<forall>i j. jobs_in L (fst s) i = Some j \<longrightarrow> j_user_id j = k \<longrightarrow> j_status j = QUEUED \<longrightarrow>
        u_daily_quota_used u < MAX_DAILY_JOBS \<or>
        (\<forall>d. u_quota_reset_date u = Some d \<longrightarrow> d < date_of (j_created_at j))"
    by (simp_all add: sys_ok_def quota_ok_def)
  have "u_daily_quota_used (record_job_started u (date_of t)) \<le> MAX_DAILY_JOBS"
    if j: "jobs_in L (fst s) i = Some j" "j_user_id j = k" "j_status j = QUEUED" and t: "snd s \<le> t" for i j t
  proof -
    have "j_created_at j \<le> snd s" using ok j(1) by (simp add: sys_ok_def jobs_ok_def job_ok_def)
    then have "date_of (j_created_at j) \<le> date_of t" using t by (intro date_of_mono) simp
    with room j have "effective_daily_used u (date_of t) < MAX_DAILY_JOBS"
      by (fastforce simp: effective_daily_used_def MAX_DAILY_JOBS_def)
    then show ?thesis by simp
  qed
  with q keyedD [OF keyed u] show ?thesis by blast
qed

theorem daily_limit_respected_witness:
  "u_daily_quota_used (record_job_started demo_account (date_of 3)) \<le> MAX_DAILY_JOBS"
proof -
  have job: "j_user_id submitted_job = ''u1''" "j_status submitted_job = QUEUED" by (simp_all add: submitted_job_def)
  have stored: "jobs_in demo_platform demo_state ''j1'' = Some submitted_job" by (simp add: demo_facts)
  have later: "(2 :: datetime) \<le> 3" by simp
  have "blank demo_platform (fst (demo_start, 0))" "users_in demo_platform (fst (demo_state, 2)) ''u1'' = Some demo_account"
    by (simp_all add: demo_facts)
  from daily_limit_respected [OF demo_platform_ok this(1) demo_run this(2)] stored job later
  show ?thesis unfolding fst_conv snd_conv by blast
qed

text \<open>
  C6: Histories are kept, also when requests, sweeps and container exits come in the middle of a worker's
  round and the worker dies and restarts anywhere. Between two states reached in this way a stored job never
  disappears and keeps its submission; its status only moves along the allowed transitions, and a job that
  is completed, failed or cancelled is not written again. There is one exception: a job that is failed while
  the worker holds a copy of it, which only a timeout sweep can do, may be overwritten with a version of
  that copy. (A request or a sweep is one step here.)
\<close>

theorem job_history:
  assumes L: "platform_ok L" and start: "serviceable L (fst s0)" and run1: "interleaved_run L st ws (s0, Idle) (s1, pc1)"
    and run2: "interleaved_run L st ws (s1, pc1) (s2, pc2)" and j: "jobs_in L (fst s1) k = Some j"
  shows "\<exists>j'. jobs_in L (fst s2) k = Some j' \<and>
    (j_id j', j_user_id j', j_policy j', j_source_type j', j_source_ref j', j_training_steps j', j_created_at j') =
    (j_id j, j_user_id j, j_policy j, j_source_type j, j_source_ref j, j_training_steps j, j_created_at j) \<and>
    (\<not> (j_status j = FAILED \<and> k \<in> j_id ` set (held pc1)) \<longrightarrow>
       status_reaches (j_status j) (j_status j') \<and> (j_status j \<in> {COMPLETED, FAILED, CANCELLED} \<longrightarrow> j' = j))"
proof -
  from whole_system.job_lives [OF deployed_whole_system [OF L, of st ws] _ interleaved_orderly [OF L start run1], of "(s2, pc2)" k j]
    run2 j
  show ?thesis
    by (auto simp: interleaved_run_def jobs_in_def same_submission_def TERMINAL_STATUSES_def)
qed

theorem job_history_witness:
  "\<exists>j'. jobs_in demo_platform demo_state ''j1'' = Some j' \<and> j_source_ref j' = ''org/repo'' \<and>
    status_reaches QUEUED (j_status j')"
proof -
  have "serviceable demo_platform (fst (demo_start, 0))" "jobs_in demo_platform (fst (demo_state, 2)) ''j1'' = Some submitted_job"
    by (simp_all add: demo_facts blank_serviceable)
  from job_history [OF demo_platform_ok this(1) demo_interleaved_run [of default_worker_settings] _ this(2),
      of "(demo_state, 2)" Idle]
  show ?thesis by (auto simp: interleaved_run_def live_refl submitted_job_def new_job_def)
qed



text \<open>
  C4: The containers of the service stay in sight. Whatever containers a serviceable state holds, once the
  start-up of a worker is through, and however the service runs on, with sweeps and in the middle of the
  worker's rounds: as long as the worker has not ended with an exception, every running container with the
  service's label is that of a job that is initializing or training, or that was failed by a timeout sweep,
  or the one the worker has just started and is about to record; and of two such containers at least one
  belongs to a job that timed out. (A sweep fails a job without stopping its container, so without sweeps
  there is one container at most. A request or a sweep is one step here.)
\<close>

theorem containers_in_sight:
  assumes L: "platform_ok L" and start: "serviceable L w0"
    and restart: "worker_startup (deployed_worker L ws) time w0 = (Inr result, w1)"
    and run: "interleaved_run L st ws ((w1, t), Idle) (s, pc)" and alive: "\<And>e. pc \<noteq> Dead e"
    and c: "running_in L (fst s) c = Some ls" "LEROBOT_JOB_ID_LABEL \<in> fst ` set ls"
  shows "((\<exists>k j. jobs_in L (fst s) k = Some j \<and> j_container_id j = Some c \<and>
        (j_status j \<in> {INITIALIZING, TRAINING} \<or>
         j_status j = FAILED \<and> j_error_message j = Some TIMEOUT_ERROR_MESSAGE)) \<or>
      (\<exists>j. pc = Recording j \<and> j_container_id j = Some c)) \<and>
    (\<forall>c' ls'. running_in L (fst s) c' = Some ls' \<and> LEROBOT_JOB_ID_LABEL \<in> fst ` set ls' \<and> c' \<noteq> c \<longrightarrow>
      (\<exists>k j. jobs_in L (fst s) k = Some j \<and> j_container_id j \<in> {Some c, Some c'} \<and>
         j_status j = FAILED \<and> j_error_message j = Some TIMEOUT_ERROR_MESSAGE))"
proof -
  note sys = deployed_whole_system [OF L, of st ws]
  note worker = sys [unfolded whole_system_def, THEN conjunct1]
  have s: "service_view L (fst x, snd x) = service_view L x" for x by simp
  have "interleaved_run L st ws ((w0, t), Idle) ((w1, t), Idle)"
    unfolding interleaved_run_def
    using live_more [OF live_refl live_step.restart [OF restart]] by simp
  from interleaved_orderly [OF L _ this] start have ok:
    "whole_system.orderly (stored_job (pl_job_docs L)) (holds_jobs (pl_job_docs L))
      (holds_users (pl_user_docs L)) (running_view (pl_containers L)) ((w1, t), Idle)" by simp
  have ok0: "training_system.world_ok (holds_jobs (pl_job_docs L)) (holds_users (pl_user_docs L)) w0"
    using start by (simp add: training_system.world_ok_def [OF worker] serviceable_def)
  have "tracked (service_view L (w1, t))"
    using training_system.worker_startup_refines [OF worker ok0 restart, of t] by (simp add: service_view_world)
  then have "in_sight (stored_job (pl_job_docs L) (w_jobs w1)) (running_view (pl_containers L) (w_docker w1)) Idle"
    by (simp add: service_view_world whole_system.tracked_sight [OF sys])
  with whole_system.lives_sight [OF sys _ ok, of "(s, pc)"] run alive
  have sight: "in_sight (jobs_in L (fst s)) (running_in L (fst s)) pc"
    by (simp add: interleaved_run_def jobs_in_def running_in_def)
  have at: "jobs_core (jobs_in L (fst s))" "at_pc (jobs_in L (fst s)) (running_in L (fst s)) pc"
    using whole_system.orderlyD [OF sys whole_system.lives_orderly [OF sys _ ok, of "(s, pc)"]] run
    by (simp_all add: interleaved_run_def jobs_in_def running_in_def)
  show ?thesis
    using in_sightD [OF sight c(1)] sight_one [OF at sight c(1)] c(2)
    unfolding labelled_def timed_out_def monitored_def by fast
qed

theorem containers_in_sight_witness:
  "\<exists>result w1. worker_startup (deployed_worker demo_platform default_worker_settings) 0 demo_training = (Inr result, w1) \<and>
     \<not> (\<exists>c ls. running_in demo_platform w1 c = Some ls \<and> LEROBOT_JOB_ID_LABEL \<in> fst ` set ls \<and>
        (\<nexists>k j. jobs_in demo_platform w1 k = Some j \<and> j_container_id j = Some c))"
proof -
  obtain result w1 where r: "worker_startup (deployed_worker demo_platform default_worker_settings) 0 demo_training = (Inr result, w1)"
    using demo_restart by blast
  have "interleaved_run demo_platform default_settings default_worker_settings ((w1, 2), Idle) ((w1, 2), Idle)"
    by (simp add: interleaved_run_def live_refl)
  note once = containers_in_sight [OF demo_platform_ok consistent_serviceable [OF demo_training_consistent] r this, unfolded fst_conv]
  have "\<exists>k j. jobs_in demo_platform w1 k = Some j \<and> j_container_id j = Some c"
    if "running_in demo_platform w1 c = Some ls" "LEROBOT_JOB_ID_LABEL \<in> fst ` set ls" for c ls
    using once [OF _ that] by blast
  with r show ?thesis by blast
qed

end
