(* ===== verification/Backend_Properties.thy ===== *)
theory Backend_Properties
  imports Backend_Api
begin

text \<open>
  Whose jobs the job routes show and change, over any job repository that keeps the contract of its port.
\<close>

subsection \<open>Each route\<close>

lemma own_job_ids:
  assumes en: "enumerates j_id m (\<lambda>j. j_user_id j = u) mine" and keyed: "keyed j_id m"
  shows "set (map j_id mine) = {k. \<exists>j. m k = Some j \<and> j_user_id j = u}"
proof (intro equalityI subsetI)
  fix k assume "k \<in> set (map j_id mine)"
  then obtain j where "j \<in> set mine" "k = j_id j" by auto
  with enumeratesD(2,3) [OF en, of j] show "k \<in> {k. \<exists>j. m k = Some j \<and> j_user_id j = u}" by blast
next
  fix k assume "k \<in> {k. \<exists>j. m k = Some j \<and> j_user_id j = u}"
  then obtain j where j: "m k = Some j" "j_user_id j = u" by blast
  from enumeratesI_mem [OF en keyed this] have "j \<in> set mine" .
  moreover have "k = j_id j" using keyedD [OF keyed j(1)] by (rule sym)
  ultimately show "k \<in> set (map j_id mine)" by simp
qed

lemma list_route:
  assumes R: "job_store (dp_job_repository P) jobs_of wf_jobs" and wf: "wf_jobs (b_jobs b)"
    and caller: "get_current_user_id (dp_jwt P) (dp_settings P) now header = Inr u"
  shows "\<exists>outs. api_list_my_jobs P now header b = (Reply 200 outs, b) \<and> distinct (map jo_id outs) \<and>
      set (map jo_id outs) = {k. \<exists>j. jobs_of (b_jobs b) k = Some j \<and> j_user_id j = u}"
proof -
  obtain mine queued views where
    mine: "enumerates j_id (jobs_of (b_jobs b)) (\<lambda>j. j_user_id j = u) mine" and
    views: "JobService_list_jobs_for_user (dp_job_repository P) (b_jobs b) u = Inr views" and
    view: "views = map (\<lambda>j. \<lparr>jv_job = j, jv_display_status = DISPLAY_STATUS (j_status j),
        jv_queue_position = (if j_status j = QUEUED
          then map_option (\<lambda>i. int i + 1) (index_of j queued) else None)\<rparr>) mine"
    by (rule job_store.list_jobs_spec [OF R wf])
  have ids: "map jo_id (map from_view views) = map j_id mine" by (simp add: view from_view_def Let_def)
  have "api_list_my_jobs P now header b = (Reply 200 (map from_view views), b)"
    by (simp add: api_list_my_jobs_def as_user_def caller views respond_def)
  with own_job_ids [OF mine job_store.jobs_keyed [OF R wf]] enumeratesD(1) [OF mine] show ?thesis
    unfolding ids [symmetric] by blast
qed

lemma cancel_route:
  assumes R: "job_store (dp_job_repository P) jobs_of wf_jobs" and wf: "wf_jobs (b_jobs b)"
    and caller: "get_current_user_id (dp_jwt P) (dp_settings P) now header = Inr u"
  shows "case jobs_of (b_jobs b) k of
      None \<Rightarrow> api_cancel_job P now header k b = (ErrorReply 404 (exn_text (JobNotFoundError k)), b)
    | Some j \<Rightarrow>
        if j_user_id j \<noteq> u
        then api_cancel_job P now header k b = (ErrorReply 403 (exn_text (NotJobOwnerError k)), b)
        else if j_status j \<in> {QUEUED, INITIALIZING, TRAINING}
        then \<exists>out b'. api_cancel_job P now header k b = (Reply 200 out, b') \<and> jo_id out = k \<and>
          jobs_of (b_jobs b') = (jobs_of (b_jobs b))(k \<mapsto> j\<lparr>j_cancel_requested := True, j_updated_at := now\<rparr>) \<and>
          b_users b' = b_users b \<and> b_objects b' = b_objects b
        else api_cancel_job P now header k b = (ErrorReply 409 (exn_text (CancelNotAllowedError (j_status j))), b)"
proof (cases "jobs_of (b_jobs b) k")
  case None
  with job_store.request_cancel_spec [OF R wf, of now u k] show ?thesis
    by (simp add: api_cancel_job_def as_user_def caller respond_def error_reply_def)
next
  case (Some j)
  note spec = job_store.request_cancel_spec [OF R wf, of now u k, unfolded Some option.case]
  show ?thesis
  proof (cases "j_user_id j = u \<and> j_status j \<in> set ACTIVE_STATUSES")
    case True
    let ?j = "j\<lparr>j_cancel_requested := True, j_updated_at := now\<rparr>"
    let ?jobs = "jr_update (dp_job_repository P) ?j (b_jobs b)"
    have id: "j_id j = k" using keyedD [OF job_store.jobs_keyed [OF R wf] Some] .
    have wf': "wf_jobs ?jobs" and jobs: "jobs_of ?jobs = (jobs_of (b_jobs b))(k \<mapsto> ?j)"
      using job_store.update_job_wf [OF R wf] job_store.update_job_law [OF R wf, of ?j] id by simp_all
    then obtain pos where "job_out_for (dp_job_repository P) ?jobs u k =
        Inr (from_view \<lparr>jv_job = ?j, jv_display_status = DISPLAY_STATUS (j_status ?j), jv_queue_position = pos\<rparr>)"
      using job_store.job_out_for_found [OF R wf', of k ?j u] True by auto
    with spec True id have "api_cancel_job P now header k b =
        (Reply 200 (from_view \<lparr>jv_job = ?j, jv_display_status = DISPLAY_STATUS (j_status ?j), jv_queue_position = pos\<rparr>),
         b\<lparr>b_jobs := ?jobs\<rparr>)"
      by (simp add: api_cancel_job_def as_user_def caller respond_def Let_def)
    with Some True id jobs show ?thesis by (simp add: ACTIVE_STATUSES_def from_view_def Let_def)
  next
    case False
    with spec Some show ?thesis
      by (auto simp: api_cancel_job_def as_user_def caller respond_def error_reply_def ACTIVE_STATUSES_def)
  qed
qed

lemma download_route:
  assumes R: "job_store (dp_job_repository P) jobs_of wf_jobs" and wf: "wf_jobs (b_jobs b)"
    and caller: "get_current_user_id (dp_jwt P) (dp_settings P) now header = Inr u"
  shows "api_get_download_url P now header k b =
    (case jobs_of (b_jobs b) k of
       None \<Rightarrow> ErrorReply 404 (exn_text (JobNotFoundError k))
     | Some j \<Rightarrow>
         if j_user_id j \<noteq> u then ErrorReply 403 (exn_text (NotJobOwnerError k))
         else if j_status j = COMPLETED \<and> truthy (j_checkpoint_gcs_path j)
         then Reply 200 (os_generate_download_url (dp_storage P) (the (j_checkpoint_gcs_path j)) (7 * 24 * 60 * 60))
         else ErrorReply 409 (exn_text (DownloadNotAvailableError k)), b)"
  using job_store.download_url_spec [OF R wf, of "dp_storage P" u k]
  by (auto simp: api_get_download_url_def as_user_def caller respond_def error_reply_def split: option.splits)

subsection \<open>Properties\<close>

text \<open>
  C29: The job routes act on the caller's own jobs only, and every refusal has its status code. The list
  shows exactly the caller's jobs, each once. Cancelling and downloading answer 404 for a job there is not
  and 403 for another user's job. A job of the caller is cancelled if it is active (200, with nothing but
  the request and the time of the update written to it) and refused with 409 otherwise; its download link is
  the signed link of its checkpoint, valid for seven days, if it is completed with a checkpoint, and 409
  otherwise. Only a granted cancellation changes anything.
\<close>

theorem own_jobs_only:
  assumes R: "job_store (dp_job_repository P) jobs_of wf_jobs" and wf: "wf_jobs (b_jobs b)"
    and caller: "get_current_user_id (dp_jwt P) (dp_settings P) now header = Inr u"
  shows "(\<exists>outs. api_list_my_jobs P now header b = (Reply 200 outs, b) \<and> distinct (map jo_id outs) \<and>
      set (map jo_id outs) = {k. \<exists>j. jobs_of (b_jobs b) k = Some j \<and> j_user_id j = u}) \<and>
    (case jobs_of (b_jobs b) k of
       None \<Rightarrow>
         api_cancel_job P now header k b = (ErrorReply 404 (exn_text (JobNotFoundError k)), b) \<and>
         api_get_download_url P now header k b = (ErrorReply 404 (exn_text (JobNotFoundError k)), b)
     | Some j \<Rightarrow>
         if j_user_id j \<noteq> u
         then
           api_cancel_job P now header k b = (ErrorReply 403 (exn_text (NotJobOwnerError k)), b) \<and>
           api_get_download_url P now header k b = (ErrorReply 403 (exn_text (NotJobOwnerError k)), b)
         else
           (if j_status j \<in> {QUEUED, INITIALIZING, TRAINING}
            then \<exists>out b'. api_cancel_job P now header k b = (Reply 200 out, b') \<and> jo_id out = k \<and>
              jobs_of (b_jobs b') = (jobs_of (b_jobs b))(k \<mapsto> j\<lparr>j_cancel_requested := True, j_updated_at := now\<rparr>) \<and>
              b_users b' = b_users b \<and> b_objects b' = b_objects b
            else api_cancel_job P now header k b = (ErrorReply 409 (exn_text (CancelNotAllowedError (j_status j))), b)) \<and>
           api_get_download_url P now header k b =
             (if j_status j = COMPLETED \<and> truthy (j_checkpoint_gcs_path j)
              then Reply 200 (os_generate_download_url (dp_storage P) (the (j_checkpoint_gcs_path j)) (7 * 24 * 60 * 60))
              else ErrorReply 409 (exn_text (DownloadNotAvailableError k)), b))"
  using list_route [OF assms] cancel_route [OF assms, of k] download_route [OF assms, of k]
  by (cases "jobs_of (b_jobs b) k") (simp_all del: set_map split del: if_split, simp split: if_split)

text \<open>A completed job of another user is refused.\<close>

definition others_job :: Job where
  "others_job = (new_job ''j1'' ''u2'' ACT HF_HUB ''org/repo'' 100 0)\<lparr>j_status := COMPLETED,
     j_checkpoint_gcs_path := Some ''checkpoints/j1.zip''\<rparr>"

theorem own_jobs_only_witness:
  "api_get_download_url (fake_dependencies reference_bcrypt reference_jwt default_settings) 5
     (Some (''Bearer '' @ create_access_token reference_jwt 0 ''u1'' ''dev-secret-change-me'' DEFAULT_EXPIRES_IN)) ''j1''
     \<lparr>b_jobs = [(''j1'', others_job)], b_users = [], b_objects = []\<rparr> =
   (ErrorReply 403 (exn_text (NotJobOwnerError ''j1'')), \<lparr>b_jobs = [(''j1'', others_job)], b_users = [], b_objects = []\<rparr>)"
proof -
  let ?P = "fake_dependencies reference_bcrypt reference_jwt default_settings"
  let ?header = "Some (''Bearer '' @ create_access_token reference_jwt 0 ''u1'' ''dev-secret-change-me'' DEFAULT_EXPIRES_IN)"
  let ?b = "\<lparr>b_jobs = [(''j1'', others_job)], b_users = [], b_objects = []\<rparr>"
  have fields: "dp_jwt ?P = reference_jwt" "dp_settings ?P = default_settings" "dp_job_repository ?P = memory_job_repository"
    by (simp_all add: fake_dependencies_def build_dependencies_def)
  have "st_jwt_secret default_settings = ''dev-secret-change-me''" by (simp add: default_settings_def)
  moreover have "5 < whole_seconds (0 + DEFAULT_EXPIRES_IN)"
    by (simp add: DEFAULT_EXPIRES_IN_def whole_seconds_def seconds_def)
  ultimately have caller: "get_current_user_id (dp_jwt ?P) (dp_settings ?P) 5 ?header = Inr ''u1''"
    using bearer_accepted [OF reference_jwt_ok, of 0 5 default_settings "''u1''" DEFAULT_EXPIRES_IN] unfolding fields by simp
  have R: "job_store (dp_job_repository ?P) map_of mem_jobs_ok" unfolding fields by (rule memj.job_store_axioms)
  have wf: "mem_jobs_ok (b_jobs ?b)" by (simp add: mem_jobs_ok_def dict_ok_def others_job_def)
  have "j_user_id others_job \<noteq> ''u1''" by (simp add: others_job_def)
  with own_jobs_only [OF R wf caller, of "''j1''"] show ?thesis by simp
qed

end
