(* ===== verification/Worker_Properties.thy ===== *)
theory Worker_Properties
  imports Reference_Platform
begin

text \<open>
  The properties of the worker's operations and of the timeout sweep, over any adapters that keep the
  contracts of their ports.
\<close>

text \<open>
  C25: A timeout sweep fails exactly the jobs whose heartbeat is too old. It never raises; every such
  job becomes failed with the timeout message and is reported, every other job stays as it is, and no
  container is touched.
\<close>

theorem timeout_sweep:
  assumes R: "job_store R jobs_of wf_jobs" and wf: "wf_jobs jobs"
  shows "\<exists>failed jobs'. check_and_fail_timed_out_jobs R now jobs = (Inr failed, jobs') \<and>
    (\<forall>k. jobs_of jobs' k =
       (case jobs_of jobs k of
          None \<Rightarrow> None
        | Some j \<Rightarrow> Some (if is_timed_out (j_status j) (j_heartbeat_at j) now
            then j\<lparr>j_status := FAILED, j_updated_at := now, j_error_message := Some TIMEOUT_ERROR_MESSAGE\<rparr> else j))) \<and>
    set failed = {j'. \<exists>k j. jobs_of jobs k = Some j \<and> jobs_of jobs' k = Some j' \<and>
       is_timed_out (j_status j) (j_heartbeat_at j) now}"
proof -
  obtain failed jobs' where s: "check_and_fail_timed_out_jobs R now jobs = (Inr failed, jobs')"
    and after: "jobs_of jobs' = (\<lambda>k. case jobs_of jobs k of
        None \<Rightarrow> None
      | Some j \<Rightarrow> Some (if timed_out_job now j then timeout_version now j else j))"
    and failed: "\<forall>j'. j' \<in> set failed \<longleftrightarrow>
       (\<exists>k j. jobs_of jobs k = Some j \<and> timed_out_job now j \<and> j' = timeout_version now j)"
    using job_store.sweep_spec [OF R wf, of now] by blast
  have "set failed = {j'. \<exists>k j. jobs_of jobs k = Some j \<and> jobs_of jobs' k = Some j' \<and> timed_out_job now j}"
  proof (intro equalityI subsetI CollectI)
    fix j' assume "j' \<in> set failed"
    then obtain k j where "jobs_of jobs k = Some j" "timed_out_job now j" "j' = timeout_version now j" using failed by blast
    then show "\<exists>k j. jobs_of jobs k = Some j \<and> jobs_of jobs' k = Some j' \<and> timed_out_job now j"
      unfolding after by (intro exI [of _ k] exI [of _ j]) simp
  next
    fix j' assume "j' \<in> {j'. \<exists>k j. jobs_of jobs k = Some j \<and> jobs_of jobs' k = Some j' \<and> timed_out_job now j}"
    then obtain k j where "jobs_of jobs k = Some j" "timed_out_job now j" "jobs_of jobs' k = Some j'" by blast
    moreover from this have "j' = timeout_version now j" by (simp add: after)
    ultimately show "j' \<in> set failed" using failed by blast
  qed
  with s after show ?thesis
    unfolding timed_out_job_def timeout_version_def by (intro exI [of _ failed] exI [of _ jobs']) simp
qed

theorem timeout_sweep_witness:
  "\<exists>jobs'. snd (check_and_fail_timed_out_jobs (firestore_job_repository table_collection) (minutes 10)
      (jr_create (firestore_job_repository table_collection) training_job [])) = jobs' \<and>
    map_option j_status (stored_job map_of jobs' ''j1'') = Some FAILED"
proof -
  have wf: "holds_jobs map_of (jr_create (firestore_job_repository table_collection) training_job [])"
    and jobs: "stored_job map_of (jr_create (firestore_job_repository table_collection) training_job []) = [''j1'' \<mapsto> training_job]"
    using demo_training_jobs by (simp_all add: demo_training_def)
  have "is_timed_out TRAINING (Some 2) (minutes 10)"
    by (simp add: is_timed_out_def timeout_for_status_def TRAINING_TIMEOUT_def minutes_def seconds_def)
  with timeout_sweep [OF tabj.job_store_axioms wf, of "minutes 10"] jobs show ?thesis by auto
qed

text \<open>Stopping and cancelling leaves a job as it is, or cancels it with its container stopped.\<close>

lemma cancel_steps_stop:
  assumes "sys_steps {Stop, Cancel} s0 s" and "s_jobs s0 k = Some i"
  shows "s_jobs s k = Some i \<or>
    (\<exists>j'. s_jobs s k = Some j' \<and> j_status j' = CANCELLED) \<and> (monitored (j_status i) \<longrightarrow> container_stopped (s_running s) i)"
  using assms
proof (induction rule: sys_steps.induct)
  case (steps_step s0 s e t)
  note I = steps_step.IH [OF steps_step.prems]
  from steps_step.hyps(2,3) show ?case
  proof (cases rule: sys_step.cases)
    case (stop c)
    then have "s_jobs t = s_jobs s" "s_running t = (s_running s)(c := None)" by simp_all
    with I show ?thesis by (auto simp: container_stopped_def)
  next
    case (cancel t' j j')
    have id: "j_id j' = j_id j" and j': "j_status j' = CANCELLED" and live: "j_status j \<noteq> CANCELLED"
      using cancel(6) by (auto simp: transition_Inr_iff status_simps)
    have t: "s_jobs t = (s_jobs s)(j_id j \<mapsto> j')" "s_running t = s_running s" using cancel(2) id by simp_all
    show ?thesis
    proof (cases "k = j_id j")
      case True
      from I have "s_jobs s k = Some i \<or> (\<exists>j'. s_jobs s k = Some j' \<and> j_status j' = CANCELLED)" by blast
      then have "i = j" using True cancel(4) live by auto
      with True cancel(7) j' t show ?thesis by simp
    next
      case False
      with I t show ?thesis by simp
    qed
  qed simp_all
qed simp

text \<open>
  C24: A cancellation round that ends without an exception has carried out every request: exactly the
  active jobs with a cancellation request are cancelled, every other job is as before, accounts and
  objects are untouched, and no container of a cancelled job is running any more.
\<close>

theorem cancellations_carried_out:
  fixes E :: "('j, 'u, 'o, 'd) WorkerDependencies" and w :: "('j, 'u, 'o, 'd) world"
  assumes E: "training_system E jobs_of wf_jobs users_of wf_users objects_of running"
    and wf: "wf_jobs (w_jobs w)" "wf_users (w_users w)"
    and run: "process_cancellations (wd_job_repository E) (wd_docker_client E) workdir now w = (Inr cancelled, w')"
  shows "w_users w' = w_users w \<and> w_objects w' = w_objects w \<and>
    (\<forall>k. jobs_of (w_jobs w') k =
       (case jobs_of (w_jobs w) k of
          None \<Rightarrow> None
        | Some j \<Rightarrow> Some (if j_cancel_requested j \<and> j_status j \<in> {QUEUED, INITIALIZING, TRAINING}
            then j\<lparr>j_status := CANCELLED, j_updated_at := now\<rparr> else j))) \<and>
    (\<forall>k j c. jobs_of (w_jobs w) k = Some j \<and> j_cancel_requested j \<and> j_status j \<in> {INITIALIZING, TRAINING} \<and>
       j_container_id j = Some c \<and> c \<noteq> [] \<longrightarrow> running (w_docker w') c = None)"
proof -
  let ?v = "world_view jobs_of users_of objects_of running"
  have ok: "training_system.world_ok wf_jobs wf_users w" using wf by (simp add: training_system.world_ok_def [OF E])
  note pc = training_system.process_cancellations_refines [OF E ok run]
  note jobs = pc(2) [OF refl, unfolded training_system.cancelled_version_def [OF E]]
  have steps: "sys_steps {Stop, Cancel} (?v w now) (?v w' now)" and same: "w_users w' = w_users w" "w_objects w' = w_objects w"
    using pc(1) by simp_all
  have active: "set ACTIVE_STATUSES = {QUEUED, INITIALIZING, TRAINING}" by (simp add: ACTIVE_STATUSES_def)
  have "running (w_docker w') c = None"
    if j: "jobs_of (w_jobs w) k = Some j" "j_cancel_requested j" "j_status j \<in> {INITIALIZING, TRAINING}"
      "j_container_id j = Some c" "c \<noteq> []" for k j c
  proof -
    have "j_status j \<in> set ACTIVE_STATUSES" using j(3) by (auto simp: active)
    then have "jobs_of (w_jobs w') k = Some (j\<lparr>j_status := CANCELLED, j_updated_at := now\<rparr>)" using j jobs by simp
    moreover have "j\<lparr>j_status := CANCELLED, j_updated_at := now\<rparr> \<noteq> j"
    proof
      assume "j\<lparr>j_status := CANCELLED, j_updated_at := now\<rparr> = j"
      then have "j_status (j\<lparr>j_status := CANCELLED, j_updated_at := now\<rparr>) = j_status j" by (rule arg_cong)
      with j(3) show False by auto
    qed
    moreover have "s_jobs (?v w now) k = Some j" using j(1) by simp
    ultimately have "container_stopped (running (w_docker w')) j"
      using cancel_steps_stop [OF steps, of k j] j(3) by (auto simp: monitored_def)
    with j(4,5) show ?thesis by (simp add: container_stopped_def)
  qed
  moreover have "jobs_of (w_jobs w') k =
       (case jobs_of (w_jobs w) k of
          None \<Rightarrow> None
        | Some j \<Rightarrow> Some (if j_cancel_requested j \<and> j_status j \<in> {QUEUED, INITIALIZING, TRAINING}
            then j\<lparr>j_status := CANCELLED, j_updated_at := now\<rparr> else j))" for k
    unfolding jobs active by simp
  ultimately show ?thesis using same by (simp, blast)
qed

theorem cancellations_carried_out_witness:
  "\<exists>cancelled w'. process_cancellations (firestore_job_repository table_collection) (docker_runner reference_daemon 1000 1000)
      ''/jobs'' 9 demo_cancelling = (Inr cancelled, w') \<and>
    map_option j_status (stored_job map_of (w_jobs w') ''j1'') = Some CANCELLED \<and>
    running_view map_of (w_docker w') ''c1'' = None"
proof -
  obtain cancelled w' where run: "process_cancellations (firestore_job_repository table_collection)
      (docker_runner reference_daemon 1000 1000) ''/jobs'' 9 demo_cancelling = (Inr cancelled, w')"
    using demo_cancellation by blast
  note all = cancellations_carried_out [OF demo_worker_system demo_cancelling_wf run [folded demo_worker_fields(1,3)]]
  have job: "stored_job map_of (w_jobs demo_cancelling) ''j1'' = Some cancelling_job" by (simp add: demo_cancelling_jobs)
  have "j_status cancelling_job \<in> {INITIALIZING, TRAINING}" "''c1'' \<noteq> []" by simp_all
  with all job cancelling_job_fields(3,4) have "running_view map_of (w_docker w') ''c1'' = None" by blast
  moreover have "stored_job map_of (w_jobs w') ''j1'' = Some (cancelling_job\<lparr>j_status := CANCELLED, j_updated_at := 9\<rparr>)"
    using all job by simp
  ultimately show ?thesis using run by simp
qed

lemma finish_start_id: "finish_start E now job w = (Inr started, w') \<Longrightarrow> j_id started = j_id job"
  by (auto simp: finish_start_def fail_during_start_def Let_def transition_Inr_iff
      split: prod.splits sum.splits exn.splits)

lemma started_from_queue:
  assumes "start_next_queued_job E now w = (Inr (Some started), w')"
  obtains j rest where "jr_list_by_statuses (wd_job_repository E) (w_jobs w) [QUEUED] = Inr (j # rest)"
    and "j_id started = j_id j"
proof -
  obtain b w1 where b: "begin_start E (now 1) w = (b, w1)" by fastforce
  with assms obtain job where job: "b = Inr (Some job)"
    by (cases b) (auto simp: start_next_queued_job_def split: option.splits)
  with assms b have "finish_start E (now 2) job w1 = (Inr started, w')"
    by (auto simp: start_next_queued_job_def then_do_def split: prod.splits sum.splits)
  then have "j_id started = j_id job" by (rule finish_start_id)
  moreover from b job obtain j rest where "jr_list_by_statuses (wd_job_repository E) (w_jobs w) [QUEUED] = Inr (j # rest)"
    and "j_id job = j_id j"
    by (auto simp: begin_start_def Let_def transition_Inr_iff split: sum.splits list.splits option.splits)
  ultimately show thesis using that by simp
qed

text \<open>
  C22: Jobs start in the order they were submitted, one at a time. When a tick of the poller starts a
  job, that job was in the queue without a cancellation request, no job of the queue without one was
  submitted before it, and every job that held the GPU had been asked to cancel.
\<close>

theorem first_in_first_out:
  fixes E :: "('j, 'u, 'o, 'd) WorkerDependencies" and w :: "('j, 'u, 'o, 'd) world"
  assumes E: "training_system E jobs_of wf_jobs users_of wf_users objects_of running"
    and wf: "wf_jobs (w_jobs w)" "wf_users (w_users w)"
    and run: "JobPoller_tick E now w = (Inr (Some started), w')"
  shows "(\<exists>j. jobs_of (w_jobs w) (j_id started) = Some j \<and> j_status j = QUEUED \<and> \<not> j_cancel_requested j \<and>
      (\<forall>k i. jobs_of (w_jobs w) k = Some i \<and> j_status i = QUEUED \<and> \<not> j_cancel_requested i \<longrightarrow>
         j_created_at j \<le> j_created_at i)) \<and>
    (\<forall>k i. jobs_of (w_jobs w) k = Some i \<and> j_status i \<in> {INITIALIZING, TRAINING} \<longrightarrow> j_cancel_requested i)"
proof -
  have R: "job_store (wd_job_repository E) jobs_of wf_jobs" using E by (simp add: training_system_def)
  have ok: "training_system.world_ok wf_jobs wf_users w" using wf by (simp add: training_system.world_ok_def [OF E])
  obtain q w1 where q: "process_cancellations (wd_job_repository E) (wd_docker_client E) (ws_workdir (wd_settings E)) (now 0) w = (q, w1)"
    by fastforce
  with run obtain cs where cs: "q = Inr cs" by (cases q) (auto simp: JobPoller_tick_def)
  have idle: "jr_list_by_statuses (wd_job_repository E) (w_jobs w1) ACTIVE_CONTAINER_STATUSES = Inr []"
    and start: "start_next_queued_job E now w1 = (Inr (Some started), w')"
    using run q cs by (auto simp: JobPoller_tick_def split: sum.splits if_splits)
  note pc = training_system.process_cancellations_refines [OF E ok q]
  note jobs = pc(2) [OF cs, unfolded training_system.cancelled_version_def [OF E]]
  have wf1: "wf_jobs (w_jobs w1)" using pc(1) by (simp add: training_system.world_ok_def [OF E])
  obtain j rest where queue: "jr_list_by_statuses (wd_job_repository E) (w_jobs w1) [QUEUED] = Inr (j # rest)"
    and id: "j_id started = j_id j"
    using start by (rule started_from_queue)
  have j: "jobs_of (w_jobs w1) (j_id j) = Some j" "j_status j = QUEUED"
    using job_store.list_by_statuses_mem [OF R wf1 queue, of j] by simp_all
  have before: "jobs_of (w_jobs w) k = Some i \<and> \<not> j_cancel_requested i"
    if "jobs_of (w_jobs w1) k = Some i" "j_status i = QUEUED" for k i
    using that unfolding jobs by (auto simp: status_simps split: option.splits if_splits)
  have after: "jobs_of (w_jobs w1) k = Some i" if "jobs_of (w_jobs w) k = Some i" "\<not> j_cancel_requested i" for k i
    using that unfolding jobs by simp
  have "j_created_at j \<le> j_created_at i"
    if "jobs_of (w_jobs w) k = Some i" "j_status i = QUEUED" "\<not> j_cancel_requested i" for k i
    using job_store.list_by_statuses_oldest [OF R wf1 queue after [OF that(1,3)]] that(2) by simp
  moreover have "j_cancel_requested i"
    if "jobs_of (w_jobs w) k = Some i" "j_status i \<in> {INITIALIZING, TRAINING}" for k i
  proof (rule ccontr)
    assume "\<not> j_cancel_requested i"
    from after [OF that(1) this] idle that(2) show False
      by (auto simp: job_store.list_by_statuses_empty_iff [OF R wf1] ACTIVE_CONTAINER_STATUSES_def)
  qed
  ultimately show ?thesis using before [OF j] j(2) id by auto
qed

theorem first_in_first_out_witness:
  "\<exists>started w'. JobPoller_tick demo_worker (\<lambda>_. 3) demo_queue = (Inr (Some started), w') \<and>
    (\<exists>j. jobs_in demo_platform demo_queue (j_id started) = Some j \<and> j_status j = QUEUED)"
proof -
  obtain started w' where run: "JobPoller_tick demo_worker (\<lambda>_. 3) demo_queue = (Inr (Some started), w')"
    using demo_tick by blast
  have "jobs_in demo_platform demo_queue = stored_job map_of (w_jobs demo_queue)" by (simp add: jobs_in_def demo_views)
  with first_in_first_out [OF demo_worker_system demo_queue_jobs(1,2) run] run show ?thesis by auto
qed

text \<open>
  C27: The checkpoint upload is tried at most three times. It makes a number of attempts between one
  and the number of retries plus one, each on what the one before left; it stops at the first that
  succeeds and reports success exactly then, and gives up only when all of them raised.
\<close>

theorem upload_bounded:
  fixes S :: "'o object_storage"
  assumes run: "upload_with_retries S retries object_path zip_path fs objects = (uploaded, objects')"
  shows "\<exists>n trace. 1 \<le> n \<and> n \<le> retries + 1 \<and> trace 0 = objects \<and> trace n = objects' \<and>
    (\<forall>i < n. trace (Suc i) = snd (os_upload_file S object_path zip_path fs (trace i))) \<and>
    (\<forall>i < n - 1. \<exists>e. fst (os_upload_file S object_path zip_path fs (trace i)) = Inl e) \<and>
    (uploaded \<longleftrightarrow> fst (os_upload_file S object_path zip_path fs (trace (n - 1))) = Inr ()) \<and>
    (uploaded \<or> n = retries + 1)"
proof -
  let ?attempt = "os_upload_file S object_path zip_path fs"
  have "\<exists>n trace. 1 \<le> n \<and> n \<le> Suc k \<and> trace 0 = s \<and> trace n = s' \<and>
      (\<forall>i < n. trace (Suc i) = snd (?attempt (trace i))) \<and> (\<forall>i < n - 1. \<exists>e. fst (?attempt (trace i)) = Inl e) \<and>
      (b \<longleftrightarrow> fst (?attempt (trace (n - 1))) = Inr ()) \<and> (b \<or> n = Suc k)"
    if "upload_attempts S object_path zip_path fs (Suc k) s = (b, s')" for k s b s'
    using that
  proof (induction k arbitrary: s)
    case 0
    then show ?case
      by (intro exI [of _ 1] exI [of _ "\<lambda>i. if i = 0 then s else s'"]) (auto split: prod.splits sum.splits)
  next
    case (Suc k)
    obtain r s1 where r: "?attempt s = (r, s1)" by fastforce
    show ?case
    proof (cases r)
      case (Inr u)
      with Suc.prems r show ?thesis
        by (intro exI [of _ 1] exI [of _ "\<lambda>i. if i = 0 then s else s'"]) auto
    next
      case (Inl e)
      with Suc.prems r have "upload_attempts S object_path zip_path fs (Suc k) s1 = (b, s')" by simp
      from Suc.IH [OF this] obtain n trace where t: "1 \<le> n" "n \<le> Suc k" "trace 0 = s1" "trace n = s'"
        "\<forall>i < n. trace (Suc i) = snd (?attempt (trace i))" "\<forall>i < n - 1. \<exists>e. fst (?attempt (trace i)) = Inl e"
        "b \<longleftrightarrow> fst (?attempt (trace (n - 1))) = Inr ()" "b \<or> n = Suc k" by blast
      let ?trace = "\<lambda>i. case i of 0 \<Rightarrow> s | Suc j \<Rightarrow> trace j"
      have "?trace (Suc i) = snd (?attempt (?trace i))" if "i < Suc n" for i
        using that t(3,5) r by (cases i) simp_all
      moreover have "\<exists>e. fst (?attempt (?trace i)) = Inl e" if "i < Suc n - 1" for i
        using that t(6) r Inl by (cases i) auto
      moreover have "?trace n = trace (n - 1)" using t(1) by (cases n) simp_all
      ultimately show ?thesis using t by (intro exI [of _ "Suc n"] exI [of _ ?trace]) auto
    qed
  qed
  from this [of retries objects uploaded objects'] run show ?thesis
    by (simp add: upload_with_retries_def del: upload_attempts.simps)
qed

theorem upload_bounded_witness:
  "\<exists>n. n \<le> 3 \<and> fst (upload_with_retries (memory_object_storage ''http://localhost:8000'') 2 ''checkpoints/j1.zip''
      [''z''] \<lparr>fs_nodes = [([''z''], \<lparr>i_node = FileNode 1 (RawBytes ''x''), i_mtime = 0\<rparr>)], fs_clock = 0\<rparr> []) = True \<and> 1 \<le> (n :: nat)"
proof -
  let ?fs = "\<lparr>fs_nodes = [([''z''], \<lparr>i_node = FileNode 1 (RawBytes ''x''), i_mtime = 0\<rparr>)], fs_clock = 0\<rparr>"
  let ?run = "upload_with_retries (memory_object_storage ''http://localhost:8000'') 2 ''checkpoints/j1.zip'' [''z''] ?fs []"
  obtain up objects' where run: "?run = (up, objects')" by fastforce
  have "fst ?run"
    by (simp add: upload_with_retries_def port_simps mem_upload_file_def fs_read_def fs_lookup_def numeral_eq_Suc)
  with upload_bounded [OF run] run show ?thesis by auto
qed

end
