(* ===== verification/Queue_Progress.thy ===== *)
theory Queue_Progress
  imports Reference_Platform
begin

text \<open>
  The queue moves: with the GPU free, one tick of the poller cancels the queued jobs whose users asked for it
  and takes the oldest of the others off the queue, over any adapters that keep the contracts of their ports.
\<close>

definition cancel_queued :: "datetime \<Rightarrow> Job \<Rightarrow> Job" where
  "cancel_queued t i =
     (if j_cancel_requested i \<and> j_status i = QUEUED then i\<lparr>j_status := CANCELLED, j_updated_at := t\<rparr> else i)"

context training_system
begin

lemma queued_cancelled:
  assumes "\<forall>j \<in> set js. j_status j = QUEUED"
  shows "\<exists>cs w'. cancel_requested_jobs R D workdir t js w = (Inr cs, w') \<and> w_docker w' = w_docker w"
  using assms
proof (induction js arbitrary: w)
  case (Cons j js)
  show ?case
  proof (cases "j_cancel_requested j")
    case True
    have stop: "stop_container D workdir j w = (Inr (), w)" using Cons.prems by (simp add: stop_container_def)
    obtain j' where "transition j CANCELLED t = Inr j'" using Cons.prems by (simp add: transition_def status_simps)
    with Cons.IH [of "write_job R j' w"] Cons.prems True stop show ?thesis by (auto simp: then_do_def)
  qed (use Cons in simp)
qed simp

lemma free_cancellations:
  assumes ok: "world_ok w" and free: "\<not> (\<exists>k i. jobs_of (w_jobs w) k = Some i \<and> j_status i \<in> {INITIALIZING, TRAINING})"
  obtains cs w0 where "process_cancellations R D workdir t w = (Inr cs, w0)" and "world_ok w0"
    and "jobs_of (w_jobs w0) = map_option (cancel_queued t) \<circ> jobs_of (w_jobs w)"
    and "w_users w0 = w_users w" and "w_docker w0 = w_docker w"
proof -
  have wf: "wf_jobs (w_jobs w)" using ok by (simp add: world_ok_def)
  obtain js where js: "jr_list_by_statuses R (w_jobs w) CANCELLABLE_STATUSES = Inr js" using wf by (rule listed_by_statuses)
  have "\<forall>j \<in> set js. j_status j = QUEUED"
    using list_by_statuses_mem [OF wf js] free by (auto simp: CANCELLABLE_STATUSES_def)
  from queued_cancelled [OF this, of workdir t w] obtain cs w0 where run: "process_cancellations R D workdir t w = (Inr cs, w0)"
    and docker: "w_docker w0 = w_docker w" using js by (auto simp: process_cancellations_def)
  have "jobs_of (w_jobs w0) k = map_option (cancel_queued t) (jobs_of (w_jobs w) k)" for k
    using process_cancellations_refines(2) [OF ok run refl] free
    by (auto simp: cancel_queued_def cancelled_version_def status_simps split: option.splits)
  then have "jobs_of (w_jobs w0) = map_option (cancel_queued t) \<circ> jobs_of (w_jobs w)" by (simp add: fun_eq_iff)
  with that run docker process_cancellations_refines(1) [OF ok run] show thesis by blast
qed

lemma oldest_listed_first:
  assumes ok: "world_ok w" and j: "jobs_of (w_jobs w) (j_id j) = Some j" "j_status j = QUEUED"
    and oldest: "\<not> (\<exists>k i. jobs_of (w_jobs w) k = Some i \<and> j_status i = QUEUED \<and> k \<noteq> j_id j \<and> j_created_at i \<le> j_created_at j)"
  shows "\<exists>rest. jr_list_by_statuses R (w_jobs w) [QUEUED] = Inr (j # rest)"
proof -
  have wf: "wf_jobs (w_jobs w)" using ok by (simp add: world_ok_def)
  obtain js where js: "jr_list_by_statuses R (w_jobs w) [QUEUED] = Inr js" using wf by (rule listed_by_statuses)
  have "j \<in> set js" using list_by_statuses_complete [OF wf js j(1)] j(2) by simp
  then obtain i rest where cons: "js = i # rest" by (cases js) auto
  then have "i \<in> set js" by simp
  note i = list_by_statuses_mem [OF wf js this]
  have queued: "j_status i = QUEUED" using i(2) by simp
  have le: "j_created_at i \<le> j_created_at j" using list_by_statuses_oldest [OF wf js [unfolded cons] j(1)] j(2) by simp
  have "j_id i = j_id j"
  proof (rule ccontr)
    assume "j_id i \<noteq> j_id j"
    with i(1) queued le oldest show False by blast
  qed
  from i(1) [unfolded this] j(1) have "i = j" by simp
  with js cons show ?thesis by blast
qed

text \<open>The claim: the job becomes \<open>initializing\<close>, its user is charged.\<close>

definition claimed :: "datetime \<Rightarrow> Job \<Rightarrow> Job" where
  "claimed t j = j\<lparr>j_status := INITIALIZING, j_updated_at := t, j_heartbeat_at := Some t\<rparr>"

lemma claim_oldest:
  assumes ok: "world_ok w" and list: "jr_list_by_statuses R (w_jobs w) [QUEUED] = Inr (j # rest)"
    and j: "j_status j = QUEUED" and usr: "users_of (w_users w) (j_user_id j) = Some usr"
  shows "\<exists>w1. begin_start E t w = (Inr (Some (claimed t j)), w1) \<and> world_ok w1 \<and>
    jobs_of (w_jobs w1) = (jobs_of (w_jobs w))(j_id j \<mapsto> claimed t j) \<and>
    users_of (w_users w1) = (users_of (w_users w))(j_user_id j \<mapsto> record_job_started usr (date_of t)) \<and>
    w_docker w1 = w_docker w \<and> w_objects w1 = w_objects w \<and> w_fs w1 = w_fs w"
proof -
  have wf: "wf_jobs (w_jobs w)" "wf_users (w_users w)" using ok by (simp_all add: world_ok_def)
  have id: "u_id usr = j_user_id j" using keyedD [OF users_keyed [OF wf(2)] usr] .
  have "can_transition QUEUED INITIALIZING" by (simp add: status_simps)
  with j list usr wf id show ?thesis
    by (simp add: begin_start_def get_user_law transition_def claimed_def Let_def world_ok_def update_job_law
        update_job_wf update_user_law update_user_wf)
qed

text \<open>After the claim the job has a container, has failed, or an exception ends the worker.\<close>

definition launch_end :: "Job \<Rightarrow> ('j, 'u, 'o, 'd) world \<Rightarrow> exn + Job \<Rightarrow> Job \<Rightarrow> ('j, 'u, 'o, 'd) world \<Rightarrow> bool" where
  "launch_end j w r j' w' \<longleftrightarrow> world_ok w' \<and> jobs_of (w_jobs w') = (jobs_of (w_jobs w))(j_id j \<mapsto> j') \<and>
     users_of (w_users w') = users_of (w_users w) \<and>
     (case r of
        Inr i \<Rightarrow> i = j' \<and>
          (j_status j' = INITIALIZING \<and> (\<exists>c. c \<noteq> [] \<and> j_container_id j' = Some c \<and> running (w_docker w) c = None \<and>
             running (w_docker w') = (running (w_docker w))(c \<mapsto> [(LEROBOT_JOB_ID_LABEL, j_id j)])) \<or>
           j_status j' = FAILED \<and> (\<exists>m. j_error_message j' = Some (''Failed to fetch dataset: '' @ m) \<or>
             j_error_message j' = Some (''Failed to start training container: '' @ m)) \<and>
             running (w_docker w') = running (w_docker w))
      | Inl e \<Rightarrow> j' = j \<and> (\<forall>m. e \<noteq> DatasetFetchError m) \<and> running (w_docker w') = running (w_docker w))"

lemma fetch_only_files:
  assumes "fetch_dataset E j w = (r, w1)"
  shows "w_jobs w1 = w_jobs w" "w_users w1 = w_users w" "w_docker w1 = w_docker w"
  using assms by (auto simp: fetch_dataset_def split: prod.splits)

lemma failed_start:
  assumes ok: "world_ok w1" and j: "j_status j = INITIALIZING"
    and same: "jobs_of (w_jobs w1) = jobs_of (w_jobs w)" "users_of (w_users w1) = users_of (w_users w)"
      "running (w_docker w1) = running (w_docker w)"
    and m: "m = ''Failed to fetch dataset: '' @ x \<or> m = ''Failed to start training container: '' @ x"
  shows "\<exists>r j' w'. fail_during_start R t j m w1 = (r, w') \<and> launch_end j w r j' w'"
proof -
  let ?j = "j\<lparr>j_status := FAILED, j_updated_at := t, j_error_message := Some m\<rparr>"
  have "fail_during_start R t j m w1 = (Inr ?j, write_job R ?j w1)"
    using j by (simp add: fail_during_start_def Let_def status_simps)
  moreover have "launch_end j w (Inr ?j) ?j (write_job R ?j w1)"
    using ok same m by (auto simp: launch_end_def world_ok_def update_job_law update_job_wf)
  ultimately show ?thesis by blast
qed

lemma launch_ends:
  assumes ok: "world_ok w" and j: "jobs_of (w_jobs w) (j_id j) = Some j" "j_status j = INITIALIZING"
  shows "\<exists>r j' w'. finish_start E t j w = (r, w') \<and> launch_end j w r j' w'"
proof -
  obtain q w1 where q: "fetch_dataset E j w = (q, w1)" by fastforce
  note f = fetch_only_files [OF q]
  have ok1: "world_ok w1" using ok f by (simp add: world_ok_def)
  show ?thesis
  proof (cases q)
    case (Inl e)
    show ?thesis
    proof (cases "\<exists>m. e = DatasetFetchError m")
      case True
      then obtain m where e: "e = DatasetFetchError m" ..
      have "\<exists>r j' w'. fail_during_start R t j (''Failed to fetch dataset: '' @ m) w1 = (r, w') \<and> launch_end j w r j' w'"
        by (rule failed_start [OF ok1 j(2), of w _ m]) (simp_all add: f)
      then show ?thesis using q Inl e by (simp add: finish_start_def Let_def)
    next
      case False
      with Inl q have "finish_start E t j w = (Inl e, w1)" by (cases e) (simp_all add: finish_start_def)
      moreover have "launch_end j w (Inl e) j w1" using False ok1 f j(1) by (auto simp: launch_end_def)
      ultimately show ?thesis by blast
    qed
  next
    case (Inr dataset)
    let ?spec = "build_container_spec (wd_settings E) j (job_dir_text (ws_workdir (wd_settings E)) j) dataset"
    have labels: "cs_labels ?spec = [(LEROBOT_JOB_ID_LABEL, j_id j)]" by (simp add: build_container_spec_def Let_def)
    obtain p w2 where p: "run_container E ?spec w1 = (p, w2)" by fastforce
    note rc = run_container_refines [OF p]
    have ok2: "world_ok w2" using ok1 rc by (simp add: world_ok_def)
    show ?thesis
    proof (cases p)
      case (Inl e)
      have "\<exists>r j' w'. fail_during_start R t j (''Failed to start training container: '' @ exn_text e) w2 = (r, w') \<and>
          launch_end j w r j' w'"
        by (rule failed_start [OF ok2 j(2), of w _ "exn_text e"]) (simp_all add: f rc Inl)
      then show ?thesis using q Inr p Inl by (simp add: finish_start_def Let_def)
    next
      case (Inr c)
      let ?j = "j\<lparr>j_container_id := Some c\<rparr>"
      have "finish_start E t j w = (Inr ?j, write_job R ?j w2)"
        using \<open>q = Inr dataset\<close> Inr q p by (simp add: finish_start_def Let_def)
      moreover have "launch_end j w (Inr ?j) ?j (write_job R ?j w2)"
        using rc(5) [OF Inr] rc(1,2) f j(2) ok2 labels
        by (simp add: launch_end_def world_ok_def update_job_law update_job_wf)
      ultimately show ?thesis by blast
    qed
  qed
qed

lemma oldest_leaves_queue:
  assumes ok: "world_ok w" and j: "jobs_of (w_jobs w) (j_id j) = Some j" "j_status j = QUEUED" "\<not> j_cancel_requested j"
    and oldest: "\<not> (\<exists>k i. jobs_of (w_jobs w) k = Some i \<and> j_status i = QUEUED \<and> \<not> j_cancel_requested i \<and> k \<noteq> j_id j \<and>
      j_created_at i \<le> j_created_at j)"
    and free: "\<not> (\<exists>k i. jobs_of (w_jobs w) k = Some i \<and> j_status i \<in> {INITIALIZING, TRAINING})"
    and usr: "users_of (w_users w) (j_user_id j) = Some usr"
  shows "\<exists>w1 r j' w'. JobPoller_tick E now w = (case r of Inl e \<Rightarrow> (Inl e, w') | Inr i \<Rightarrow> (Inr (Some i), w')) \<and>
    jobs_of (w_jobs w1) = (map_option (cancel_queued (now 0)) \<circ> jobs_of (w_jobs w))(j_id j \<mapsto> claimed (now 1) j) \<and>
    users_of (w_users w1) = (users_of (w_users w))(j_user_id j \<mapsto> record_job_started usr (date_of (now 1))) \<and>
    w_docker w1 = w_docker w \<and> launch_end (claimed (now 1) j) w1 r j' w'"
proof -
  obtain cs w0 where run0: "process_cancellations R D (ws_workdir (wd_settings E)) (now 0) w = (Inr cs, w0)" and ok0: "world_ok w0"
    and w0: "jobs_of (w_jobs w0) = map_option (cancel_queued (now 0)) \<circ> jobs_of (w_jobs w)" "w_users w0 = w_users w"
      "w_docker w0 = w_docker w"
    using free_cancellations [OF ok free] by blast
  have wf: "wf_jobs (w_jobs w0)" using ok0 by (simp add: world_ok_def)
  have j0: "jobs_of (w_jobs w0) (j_id j) = Some j" using j by (simp add: w0 cancel_queued_def)
  have oldest0: "\<not> (\<exists>k i. jobs_of (w_jobs w0) k = Some i \<and> j_status i = QUEUED \<and> k \<noteq> j_id j \<and> j_created_at i \<le> j_created_at j)"
    using oldest by (auto simp: w0 cancel_queued_def split: if_splits)
  have free0: "\<not> (\<exists>k i. jobs_of (w_jobs w0) k = Some i \<and> j_status i \<in> {INITIALIZING, TRAINING})"
    using free by (auto simp: w0 cancel_queued_def split: if_splits)
  obtain rest where list: "jr_list_by_statuses R (w_jobs w0) [QUEUED] = Inr (j # rest)"
    using oldest_listed_first [OF ok0 j0 j(2) oldest0] by blast
  have idle: "jr_list_by_statuses R (w_jobs w0) ACTIVE_CONTAINER_STATUSES = Inr []"
    using free0 by (simp add: list_by_statuses_empty_iff [OF wf] ACTIVE_CONTAINER_STATUSES_def)
  have usr0: "users_of (w_users w0) (j_user_id j) = Some usr" using usr by (simp add: w0)
  obtain w1 where b: "begin_start E (now 1) w0 = (Inr (Some (claimed (now 1) j)), w1)" and ok1: "world_ok w1"
    and w1: "jobs_of (w_jobs w1) = (jobs_of (w_jobs w0))(j_id j \<mapsto> claimed (now 1) j)"
      "users_of (w_users w1) = (users_of (w_users w0))(j_user_id j \<mapsto> record_job_started usr (date_of (now 1)))"
      "w_docker w1 = w_docker w0"
    using claim_oldest [OF ok0 list j(2) usr0, of "now 1"] by blast
  have "jobs_of (w_jobs w1) (j_id (claimed (now 1) j)) = Some (claimed (now 1) j)" "j_status (claimed (now 1) j) = INITIALIZING"
    by (simp_all add: w1 claimed_def)
  from launch_ends [OF ok1 this, of "now 2"] obtain r j' w' where
    fin: "finish_start E (now 2) (claimed (now 1) j) w1 = (r, w')" "launch_end (claimed (now 1) j) w1 r j' w'" by blast
  have "JobPoller_tick E now w = (case r of Inl e \<Rightarrow> (Inl e, w') | Inr i \<Rightarrow> (Inr (Some i), w'))"
    using run0 idle b fin(1) by (cases r) (simp_all add: JobPoller_tick_def start_next_queued_job_def)
  with w1 w0 fin(2) show ?thesis by auto
qed

end

subsection \<open>Properties\<close>



end
