(* ===== verification/Completion_Properties.thy ===== *)
theory Completion_Properties
  imports Reference_Platform
begin

text \<open>
  What the completion monitor makes of the job on the GPU, over any adapters that keep the contracts of
  their ports: the job of a container that has exited is settled, and one whose container has not
  is left where it is with a fresh heartbeat. Last, what a cancellation does whose kill
  is refused.
\<close>

lemma rmtree_self: "\<not> fs_exists (fs_rmtree d fs) d"
proof (cases "fs_exists fs d")
  case True
  then have "fs_lookup (fs_rmtree d fs) d = None" by (simp add: lookup_rmtree)
  then show ?thesis by (simp add: fs_exists_def)
qed (simp add: fs_rmtree_def)

subsection \<open>One job, step by step\<close>

context training_system
begin

text \<open>Every write of a tick goes to the job it handles; \<open>only_job w j w' j'\<close>: \<open>j\<close> became \<open>j'\<close>, nothing else changed.\<close>

definition only_job :: "('j, 'u, 'o, 'd) world \<Rightarrow> Job \<Rightarrow> ('j, 'u, 'o, 'd) world \<Rightarrow> Job \<Rightarrow> bool" where
  "only_job w j w' j' \<longleftrightarrow> world_ok w' \<and> j_id j' = j_id j \<and> j_user_id j' = j_user_id j \<and>
     j_container_id j' = j_container_id j \<and>
     jobs_of (w_jobs w') = (jobs_of (w_jobs w))(j_id j \<mapsto> j') \<and> w_docker w' = w_docker w \<and> w_users w' = w_users w"

lemma only_job_refl: "world_ok w \<Longrightarrow> stored w j \<Longrightarrow> only_job w j w j"
  by (auto simp: only_job_def stored_def)

lemma only_job_trans: "only_job w j w1 j1 \<Longrightarrow> only_job w1 j1 w2 j2 \<Longrightarrow> only_job w j w2 j2"
  by (simp add: only_job_def)

lemma only_job_write:
  "world_ok w \<Longrightarrow> j_id j' = j_id j \<Longrightarrow> j_user_id j' = j_user_id j \<Longrightarrow> j_container_id j' = j_container_id j \<Longrightarrow>
   only_job w j (write_job R j' w) j'"
  by (simp add: only_job_def world_ok_def update_job_law update_job_wf)

lemma only_job_files [simp]:
  "only_job w j (w'\<lparr>w_fs := fs\<rparr>) j' = only_job w j w' j'"
  "only_job w j (w'\<lparr>w_objects := objects\<rparr>) j' = only_job w j w' j'"
  "only_job (w\<lparr>w_fs := fs\<rparr>) j w' j' = only_job w j w' j'"
  "only_job (w\<lparr>w_objects := objects\<rparr>) j w' j' = only_job w j w' j'"
  "only_job w j (cleanup_job_dir workdir i w') j' = only_job w j w' j'"
  by (simp_all add: only_job_def world_ok_def cleanup_job_dir_def)

lemma start_training_only:
  assumes "world_ok w" and "stored w j" and "monitored (j_status j)"
  shows "\<exists>j1 w1. start_training R t j w = (Inr j1, w1) \<and> only_job w j w1 j1 \<and> j_status j1 = TRAINING \<and>
    w_fs w1 = w_fs w \<and> w_objects w1 = w_objects w"
proof (cases "j_status j = INITIALIZING")
  case True
  then have "transition j TRAINING t = Inr (j\<lparr>j_status := TRAINING, j_updated_at := t\<rparr>)" by (simp add: status_simps)
  with True show ?thesis using assms(1) by (simp add: start_training_def only_job_write)
next
  case False
  with assms show ?thesis by (auto simp: start_training_def monitored_def only_job_refl)
qed

lemma update_only:
  "world_ok w \<Longrightarrow> j_id j' = j_id j \<Longrightarrow> j_user_id j' = j_user_id j \<Longrightarrow> j_container_id j' = j_container_id j \<Longrightarrow>
   only_job w j (w\<lparr>w_jobs := jr_update R j' (w_jobs w)\<rparr>) j'"
  using only_job_write [of w j' j] by (simp add: write_job_def)

lemma observe_only:
  assumes ok: "world_ok w" and j: "stored w j" "monitored (j_status j)"
  shows "\<exists>j1 w1. observe_job R now j progress exit_code w = (Inr j1, w1) \<and> only_job w j w1 j1 \<and>
    monitored (j_status j1) \<and> w_fs w1 = w_fs w \<and> w_objects w1 = w_objects w"
proof (cases progress)
  case None
  with ok j show ?thesis
    by (auto simp: observe_job_def mark_container_alive_def Let_def update_only only_job_refl)
next
  case (Some p)
  from start_training_only [OF assms, of "now 0"] obtain j1 w1
    where s: "start_training R (now 0) j w = (Inr j1, w1)" "only_job w j w1 j1" "j_status j1 = TRAINING"
      "w_fs w1 = w_fs w" "w_objects w1 = w_objects w" by blast
  have ok1: "world_ok w1" using s(2) by (simp add: only_job_def)
  let ?j = "j1\<lparr>j_progress := Some p, j_heartbeat_at := Some (now 1)\<rparr>"
  have "only_job w j (w1\<lparr>w_jobs := jr_update R ?j (w_jobs w1)\<rparr>) ?j"
    by (rule only_job_trans [OF s(2) update_only [OF ok1]]) simp_all
  with s Some show ?thesis
    by (auto simp: observe_job_def record_progress_def Let_def monitored_def)
qed

subsection \<open>A container that has exited\<close>

lemma mark_failed_only:
  assumes "world_ok w" and "j_status j = TRAINING"
  shows "\<exists>j' w'. mark_failed R workdir t j m cleanup w = (Inr j', w') \<and> only_job w j w' j' \<and>
    j_status j' = FAILED \<and> j_error_message j' = Some m \<and>
    w_fs w' = (if cleanup then fs_rmtree (job_path workdir j) (w_fs w) else w_fs w) \<and> w_objects w' = w_objects w"
proof -
  have "transition j FAILED t = Inr (j\<lparr>j_status := FAILED, j_updated_at := t\<rparr>)" using assms(2) by (simp add: status_simps)
  with assms(1) show ?thesis
    by (auto simp: mark_failed_def Let_def only_job_write) (simp_all add: cleanup_job_dir_def)
qed

lemma mark_completed_only:
  assumes "world_ok w" and "j_status j = TRAINING"
  shows "\<exists>j' w'. mark_completed R workdir t j p w = (Inr j', w') \<and> only_job w j w' j' \<and>
    j_status j' = COMPLETED \<and> j_checkpoint_gcs_path j' = Some p \<and>
    w_fs w' = fs_rmtree (job_path workdir j) (w_fs w) \<and> w_objects w' = w_objects w"
proof -
  have "transition j COMPLETED t = Inr (j\<lparr>j_status := COMPLETED, j_updated_at := t\<rparr>)" using assms(2) by (simp add: status_simps)
  with assms(1) show ?thesis
    by (auto simp: mark_completed_def Let_def only_job_write) (simp_all add: cleanup_job_dir_def)
qed

text \<open>The possible ends of a job whose container exited with \<open>code\<close>.\<close>

definition settled :: "int \<Rightarrow> string \<Rightarrow> Job \<Rightarrow> ('j, 'u, 'o, 'd) world \<Rightarrow> bool" where
  "settled code logs j w \<longleftrightarrow>
     (if code \<noteq> 0 then j_status j = FAILED \<and> j_error_message j = Some (exit_message code logs)
      else j_status j = COMPLETED \<and> j_checkpoint_gcs_path j = Some (checkpoint_object_path j) \<and>
             objects_of (w_objects w) (checkpoint_object_path j) \<noteq> None \<or>
           j_status j = FAILED \<and> (j_error_message j = Some UPLOAD_FAILED_MESSAGE \<or>
             (\<exists>e. j_error_message j = Some (''Failed to package checkpoint: '' @ exn_text e)))) \<and>
     (j_error_message j = Some UPLOAD_FAILED_MESSAGE \<and> code = 0 \<or>
      \<not> fs_exists (w_fs w) (job_path (ws_workdir (wd_settings E)) j))"

lemma checkpoint_path_only: "only_job w j w' j' \<Longrightarrow> checkpoint_object_path j' = checkpoint_object_path j"
  by (simp add: only_job_def checkpoint_object_path_def)

lemma job_path_only: "only_job w j w' j' \<Longrightarrow> job_path workdir j' = job_path workdir j"
  by (simp add: only_job_def job_path_def job_dir_text_def)

lemma upload_attempts_stored:
  "upload_attempts (wd_object_storage E) p zp fs n s = (True, s') \<Longrightarrow>
   \<exists>b. fs_read fs zp = Inr b \<and> objects_of s' = (objects_of s)(p \<mapsto> b)"
proof (induction n arbitrary: s)
  case (Suc n)
  obtain r s1 where r: "os_upload_file (wd_object_storage E) p zp fs s = (r, s1)" by fastforce
  show ?case
  proof (cases r)
    case (Inl e)
    with upload_law [OF r] have "objects_of s1 = objects_of s" by simp
    with Suc.IH [of s1] Suc.prems r Inl show ?thesis by simp
  next
    case (Inr u)
    with Suc.prems r have "s1 = s'" by simp
    with upload_law [OF r] Inr show ?thesis by (simp only: sum.case)
  qed
qed simp

lemma finish_settles:
  assumes ok: "world_ok w" and tr: "j_status j = TRAINING"
    and logs: "code \<noteq> 0 \<Longrightarrow> (if truthy (j_container_id j) then dc_get_logs D (w_docker w) (the (j_container_id j)) 50 else Inr []) = Inr logs"
  shows "\<exists>j' w'. (if code \<noteq> 0 then finish_failed_container E t j code w else finish_successful_container E t j w) = (Inr j', w') \<and>
    only_job w j w' j' \<and> settled code logs j' w'"
proof (cases "code = 0")
  case False
  from mark_failed_only [OF ok tr, of "ws_workdir (wd_settings E)" t "exit_message code logs" True] False logs [OF False]
  show ?thesis
    by (auto simp: finish_failed_container_def settled_def job_path_only rmtree_self)
next
  case True
  let ?wd = "ws_workdir (wd_settings E)" and ?zip = "output_dir (ws_workdir (wd_settings E)) j @ [''checkpoint.zip'']"
  obtain q fs where q: "package_checkpoint (wd_deflated_size E) (checkpoint_dir ?wd j) ?zip (w_fs w) = (q, fs)"
    by fastforce
  show ?thesis
  proof (cases q)
    case (Inl e)
    have "world_ok (w\<lparr>w_fs := fs\<rparr>)" using ok by (simp add: world_ok_def)
    from mark_failed_only [OF this tr, of ?wd t "''Failed to package checkpoint: '' @ exn_text e" True] q Inl True
    show ?thesis by (auto simp: finish_successful_container_def Let_def settled_def job_path_only rmtree_self)
  next
    case (Inr u)
    obtain b os where up: "upload_with_retries (wd_object_storage E) (wd_upload_retries E)
        (checkpoint_object_path j) ?zip fs (w_objects w) = (b, os)" by fastforce
    let ?w = "w\<lparr>w_fs := fs, w_objects := os\<rparr>"
    have ok': "world_ok ?w" using ok by (simp add: world_ok_def)
    show ?thesis
    proof (cases b)
      case True
      then have "objects_of os (checkpoint_object_path j) \<noteq> None"
        using up upload_attempts_stored by (fastforce simp: upload_with_retries_def simp del: upload_attempts.simps)
      with mark_completed_only [OF ok' tr, of ?wd t "checkpoint_object_path j"] q Inr up True \<open>code = 0\<close> show ?thesis
        by (auto simp: finish_successful_container_def Let_def settled_def job_path_only checkpoint_path_only rmtree_self)
    next
      case False
      from mark_failed_only [OF ok' tr, of ?wd t UPLOAD_FAILED_MESSAGE False] q Inr up False \<open>code = 0\<close> show ?thesis
        by (auto simp: finish_successful_container_def Let_def settled_def)
    qed
  qed
qed

text \<open>The monitor handles the job on the GPU.\<close>

lemma first_monitored:
  assumes ok: "world_ok w" and j: "stored w j" "monitored (j_status j)"
    and alone: "\<not> (\<exists>k i. jobs_of (w_jobs w) k = Some i \<and> monitored (j_status i) \<and> k \<noteq> j_id j)"
  shows "\<exists>rest. jr_list_by_statuses R (w_jobs w) COMPLETION_MONITORED_STATUSES = Inr (j # rest)"
proof -
  have wf: "wf_jobs (w_jobs w)" using ok by (simp add: world_ok_def)
  obtain js where js: "jr_list_by_statuses R (w_jobs w) COMPLETION_MONITORED_STATUSES = Inr js"
    using wf by (rule listed_by_statuses)
  have "j \<in> set js"
    using list_by_statuses_complete [OF wf js, of "j_id j" j] j
    by (auto simp: stored_def monitored_def COMPLETION_MONITORED_STATUSES_def)
  then obtain i rest where cons: "js = i # rest" by (cases js) auto
  then have i: "jobs_of (w_jobs w) (j_id i) = Some i" "monitored (j_status i)"
    using list_by_statuses_mem [OF wf js, of i] by (simp_all add: monitored_def COMPLETION_MONITORED_STATUSES_def)
  have "j_id i = j_id j"
  proof (rule ccontr)
    assume "j_id i \<noteq> j_id j"
    with i have "\<exists>k i. jobs_of (w_jobs w) k = Some i \<and> monitored (j_status i) \<and> k \<noteq> j_id j"
      by (intro exI [of _ "j_id i"] exI [of _ i]) simp
    with alone show False ..
  qed
  with j(1) i(1) have "i = j" by (simp add: stored_def)
  with js cons show ?thesis by simp
qed

lemma exited_job_settles:
  assumes ok: "world_ok w" and j: "stored w j" "monitored (j_status j)"
    and alone: "\<not> (\<exists>k i. jobs_of (w_jobs w) k = Some i \<and> monitored (j_status i) \<and> k \<noteq> j_id j)"
    and c: "j_container_id j = Some c" "c \<noteq> []"
    and progress: "read_progress (output_dir (ws_workdir (wd_settings E)) j) (w_fs w) = Inr p"
    and ex: "dc_get_exit_code D (w_docker w) c = Inr (Some code)"
    and logs: "dc_get_logs D (w_docker w) c 50 = Inr logs"
  shows "\<exists>j' w'. JobCompletionMonitor_tick E now w = (Inr (Some j'), w') \<and> only_job w j w' j' \<and> settled code logs j' w'"
proof -
  obtain rest where js: "jr_list_by_statuses R (w_jobs w) COMPLETION_MONITORED_STATUSES = Inr (j # rest)"
    using first_monitored [OF ok j alone] by blast
  obtain j1 w1 where o: "observe_job R now j p (Some code) w = (Inr j1, w1)" "only_job w j w1 j1"
      "monitored (j_status j1)" using observe_only [OF ok j] by blast
  have ok1: "world_ok w1" "stored w1 j1" using o(2) by (simp_all add: only_job_def stored_def)
  obtain j2 w2 where s: "start_training R (now 2) j1 w1 = (Inr j2, w2)" "only_job w1 j1 w2 j2" "j_status j2 = TRAINING"
    using start_training_only [OF ok1 o(3)] by blast
  have ok2: "world_ok w2" using s(2) by (simp add: only_job_def)
  note here = only_job_trans [OF o(2) s(2)]
  have "(if truthy (j_container_id j2) then dc_get_logs D (w_docker w2) (the (j_container_id j2)) 50 else Inr []) = Inr logs"
    using here c logs by (simp add: only_job_def)
  from finish_settles [OF ok2 s(3) this] obtain j3 w3
    where f: "(if code \<noteq> 0 then finish_failed_container E (now 3) j2 code w2 else finish_successful_container E (now 3) j2 w2) = (Inr j3, w3)"
      "only_job w2 j2 w3 j3" "settled code logs j3 w3" by blast
  have "JobCompletionMonitor_tick E now w = (Inr (Some j3), w3)"
    using js progress c ex o(1) s(1) f(1)
    by (simp add: JobCompletionMonitor_tick_def finalize_job_def split: if_splits)
  with f(3) only_job_trans [OF here f(2)] show ?thesis by blast
qed

subsection \<open>A container without an exit code\<close>

lemma silent_job_kept:
  assumes ok: "world_ok w" and j: "stored w j" "j_status j = INITIALIZING"
    and alone: "\<not> (\<exists>k i. jobs_of (w_jobs w) k = Some i \<and> monitored (j_status i) \<and> k \<noteq> j_id j)"
    and progress: "read_progress (output_dir (ws_workdir (wd_settings E)) j) (w_fs w) = Inr None"
    and silent: "(if truthy (j_container_id j) then dc_get_exit_code D (w_docker w) (the (j_container_id j)) else Inr None) = Inr None"
  shows "\<exists>w'. JobCompletionMonitor_tick E now w = (Inr (Some (j\<lparr>j_heartbeat_at := Some (now 1)\<rparr>)), w') \<and>
    jobs_of (w_jobs w') = (jobs_of (w_jobs w))(j_id j \<mapsto> j\<lparr>j_heartbeat_at := Some (now 1)\<rparr>) \<and> world_ok w' \<and>
    w_docker w' = w_docker w \<and> w_fs w' = w_fs w \<and> w_objects w' = w_objects w \<and> w_users w' = w_users w"
proof -
  have wf: "wf_jobs (w_jobs w)" using ok by (simp add: world_ok_def)
  have "monitored (j_status j)" using j(2) by (simp add: monitored_def)
  then obtain rest where "jr_list_by_statuses R (w_jobs w) COMPLETION_MONITORED_STATUSES = Inr (j # rest)"
    using first_monitored [OF ok j(1) _ alone] by blast
  with j(2) progress silent ok show ?thesis
    by (auto simp: JobCompletionMonitor_tick_def observe_job_def mark_container_alive_def Let_def world_ok_def
        update_job_law update_job_wf)
qed

end

subsection \<open>Properties\<close>

lemma monitored_iff: "monitored s \<longleftrightarrow> s \<in> {INITIALIZING, TRAINING}"
  by (simp add: monitored_def)

text \<open>
  C28: A container that has exited frees the GPU. If the job on the GPU is the only one there and its
  container has exited, the completion tick settles it whatever happened: with a non-zero code it fails
  with the code and the output in its message; with code 0 it is completed and its checkpoint is in the
  bucket, or it fails because the checkpoint could not be packaged or uploaded. No job holds the GPU any
  more, and the job's files are gone, except after a failed upload.
\<close>

theorem exited_container_settled:
  fixes E :: "('j, 'u, 'o, 'd) WorkerDependencies" and w :: "('j, 'u, 'o, 'd) world"
  assumes E: "training_system E jobs_of wf_jobs users_of wf_users objects_of running"
    and wf: "wf_jobs (w_jobs w)" "wf_users (w_users w)"
    and j: "jobs_of (w_jobs w) (j_id j) = Some j" "j_status j \<in> {INITIALIZING, TRAINING}"
    and alone: "\<not> (\<exists>k i. jobs_of (w_jobs w) k = Some i \<and> j_status i \<in> {INITIALIZING, TRAINING} \<and> k \<noteq> j_id j)"
    and c: "j_container_id j = Some c" "c \<noteq> []"
    and progress: "read_progress (output_dir (ws_workdir (wd_settings E)) j) (w_fs w) = Inr p"
    and exit: "dc_get_exit_code (wd_docker_client E) (w_docker w) c = Inr (Some code)"
    and logs: "dc_get_logs (wd_docker_client E) (w_docker w) c 50 = Inr logs"
  shows "\<exists>j' w'. JobCompletionMonitor_tick E now w = (Inr (Some j'), w') \<and>
    jobs_of (w_jobs w') = (jobs_of (w_jobs w))(j_id j \<mapsto> j') \<and> j_id j' = j_id j \<and>
    (if code \<noteq> 0 then j_status j' = FAILED \<and> j_error_message j' = Some (exit_message code logs)
     else j_status j' = COMPLETED \<and> j_checkpoint_gcs_path j' = Some (checkpoint_object_path j) \<and>
            objects_of (w_objects w') (checkpoint_object_path j) \<noteq> None \<or>
          j_status j' = FAILED \<and> (j_error_message j' = Some UPLOAD_FAILED_MESSAGE \<or>
            (\<exists>e. j_error_message j' = Some (''Failed to package checkpoint: '' @ exn_text e)))) \<and>
    (j_error_message j' = Some UPLOAD_FAILED_MESSAGE \<and> code = 0 \<or>
     \<not> fs_exists (w_fs w') (job_path (ws_workdir (wd_settings E)) j)) \<and>
    \<not> (\<exists>k i. jobs_of (w_jobs w') k = Some i \<and> j_status i \<in> {INITIALIZING, TRAINING})"
proof -
  have ok: "training_system.world_ok wf_jobs wf_users w" using wf by (simp add: training_system.world_ok_def [OF E])
  have stored: "training_system.stored jobs_of w j" using j(1) by (simp add: training_system.stored_def [OF E])
  obtain j' w' where run: "JobCompletionMonitor_tick E now w = (Inr (Some j'), w')"
    and only: "training_system.only_job jobs_of wf_jobs wf_users w j w' j'"
    and settled: "training_system.settled E objects_of code logs j' w'"
    using training_system.exited_job_settles [OF E ok stored j(2) [folded monitored_iff] alone [folded monitored_iff]
      c progress exit logs] by blast
  have paths: "checkpoint_object_path j' = checkpoint_object_path j" "job_path d j' = job_path d j" for d
    using training_system.checkpoint_path_only [OF E only] training_system.job_path_only [OF E only] by simp_all
  note only = only [unfolded training_system.only_job_def [OF E]]
  note settled = settled [unfolded training_system.settled_def [OF E] paths]
  have "j_status j' \<notin> {INITIALIZING, TRAINING}" using settled by (auto split: if_splits)
  with alone only have "\<not> (\<exists>k i. jobs_of (w_jobs w') k = Some i \<and> j_status i \<in> {INITIALIZING, TRAINING})"
    by (auto split: if_splits)
  with run only settled show ?thesis by blast
qed

definition demo_exited :: "(table, table, (string \<times> blob) list, daemon) world" where
  "demo_exited = demo_training\<lparr>w_docker := [(''c1'', (demo_container ''j1'')\<lparr>ct_status := ''exited'', ct_exit_code := 1\<rparr>)]\<rparr>"

lemma demo_no_progress: "read_progress d (w_fs demo_training) = Inr None"
  by (simp add: read_progress_none demo_training_def demo_state_def demo_start_def fs_exists_def fs_lookup_def)

theorem exited_container_settled_witness:
  "\<exists>j' w'. JobCompletionMonitor_tick demo_worker (\<lambda>_. 3) demo_exited = (Inr (Some j'), w') \<and>
    j_status j' = FAILED \<and> j_error_message j' = Some (exit_message 1 ''log'')"
proof -
  have wf: "holds_jobs map_of (w_jobs demo_exited)" "holds_users map_of (w_users demo_exited)"
    and jobs: "stored_job map_of (w_jobs demo_exited) = [''j1'' \<mapsto> training_job]"
    using demo_training_jobs demo_training_users(1) by (simp_all add: demo_exited_def)
  have d: "w_docker demo_exited = [(''c1'', (demo_container ''j1'')\<lparr>ct_status := ''exited'', ct_exit_code := 1\<rparr>)]"
    by (simp add: demo_exited_def)
  have code: "dc_get_exit_code (wd_docker_client demo_worker) (w_docker demo_exited) ''c1'' = Inr (Some 1)"
    by (simp add: demo_worker_fields port_simps DockerRunner_get_exit_code_def reference_daemon_def d)
  have logs: "dc_get_logs (wd_docker_client demo_worker) (w_docker demo_exited) ''c1'' 50 = Inr ''log''"
    by (simp add: demo_worker_fields port_simps DockerRunner_get_logs_def reference_daemon_def d)
  have progress: "read_progress (output_dir (ws_workdir (wd_settings demo_worker)) training_job) (w_fs demo_exited) = Inr None"
    using demo_no_progress by (simp add: demo_exited_def)
  have job: "stored_job map_of (w_jobs demo_exited) (j_id training_job) = Some training_job" by (simp add: jobs)
  have alone: "\<not> (\<exists>k i. stored_job map_of (w_jobs demo_exited) k = Some i \<and>
      j_status i \<in> {INITIALIZING, TRAINING} \<and> k \<noteq> j_id training_job)" by (simp add: jobs)
  have c: "j_container_id training_job = Some ''c1''" by simp
  have "j_status training_job \<in> {INITIALIZING, TRAINING}" "''c1'' \<noteq> []" by simp_all
  from exited_container_settled [OF demo_worker_system wf job this(1) alone c this(2) progress code logs, where now = "\<lambda>_. 3"]
  show ?thesis by (elim exE conjE) (intro exI conjI, assumption, simp_all)
qed


text \<open>
  C34: A start-up that takes long is not taken for a hang. While the job on the GPU is initializing,
  without a progress file and without an exit code, a completion tick does nothing but renew its
  heartbeat, so that it is not timed out before another five minutes without a tick have passed. This
  holds as well when there is no container at all, or none that will ever make progress: only a
  cancellation takes such a job off the GPU.
\<close>

theorem initializing_kept_alive:
  fixes E :: "('j, 'u, 'o, 'd) WorkerDependencies" and w :: "('j, 'u, 'o, 'd) world"
  assumes E: "training_system E jobs_of wf_jobs users_of wf_users objects_of running"
    and wf: "wf_jobs (w_jobs w)" "wf_users (w_users w)"
    and j: "jobs_of (w_jobs w) (j_id j) = Some j" "j_status j = INITIALIZING"
    and alone: "\<not> (\<exists>k i. jobs_of (w_jobs w) k = Some i \<and> j_status i \<in> {INITIALIZING, TRAINING} \<and> k \<noteq> j_id j)"
    and progress: "read_progress (output_dir (ws_workdir (wd_settings E)) j) (w_fs w) = Inr None"
    and silent: "j_container_id j = None \<or>
      dc_get_exit_code (wd_docker_client E) (w_docker w) (the (j_container_id j)) = Inr None"
  shows "\<exists>w'. JobCompletionMonitor_tick E now w = (Inr (Some (j\<lparr>j_heartbeat_at := Some (now 1)\<rparr>)), w') \<and>
    jobs_of (w_jobs w') = (jobs_of (w_jobs w))(j_id j \<mapsto> j\<lparr>j_heartbeat_at := Some (now 1)\<rparr>) \<and>
    w_docker w' = w_docker w \<and> w_fs w' = w_fs w \<and> w_objects w' = w_objects w \<and> w_users w' = w_users w \<and>
    \<not> (\<exists>t \<le> now 1 + minutes 5. is_timed_out INITIALIZING (Some (now 1)) t)"
proof -
  have ok: "training_system.world_ok wf_jobs wf_users w" using wf by (simp add: training_system.world_ok_def [OF E])
  have stored: "training_system.stored jobs_of w j" using j(1) by (simp add: training_system.stored_def [OF E])
  have "(if truthy (j_container_id j)
      then dc_get_exit_code (wd_docker_client E) (w_docker w) (the (j_container_id j)) else Inr None) = Inr None"
    using silent by auto
  from training_system.silent_job_kept [OF E ok stored j(2) alone [folded monitored_iff] progress this, of now]
  obtain w' where "JobCompletionMonitor_tick E now w = (Inr (Some (j\<lparr>j_heartbeat_at := Some (now 1)\<rparr>)), w')"
    "jobs_of (w_jobs w') = (jobs_of (w_jobs w))(j_id j \<mapsto> j\<lparr>j_heartbeat_at := Some (now 1)\<rparr>)"
    "w_docker w' = w_docker w" "w_fs w' = w_fs w" "w_objects w' = w_objects w" "w_users w' = w_users w" by blast
  moreover have "\<not> (\<exists>t \<le> now 1 + minutes 5. is_timed_out INITIALIZING (Some (now 1)) t)"
    by (auto simp: is_timed_out_def timeout_for_status_def INITIALIZING_TIMEOUT_def)
  ultimately show ?thesis by blast
qed

definition demo_stuck :: "(table, table, (string \<times> blob) list, daemon) world" where
  "demo_stuck = demo_training\<lparr>w_jobs := jr_create (firestore_job_repository table_collection) demo_claimed []\<rparr>"

theorem initializing_kept_alive_witness:
  "\<exists>w'. JobCompletionMonitor_tick demo_worker (\<lambda>_. minutes 300) demo_stuck =
     (Inr (Some (demo_claimed\<lparr>j_heartbeat_at := Some (minutes 300)\<rparr>)), w') \<and> j_container_id demo_claimed = None"
proof -
  have wf: "holds_jobs map_of (w_jobs demo_stuck)" "holds_users map_of (w_users demo_stuck)"
    and jobs: "stored_job map_of (w_jobs demo_stuck) = [''j1'' \<mapsto> demo_claimed]"
    using tabj.create_job_wf [OF empty_table(1), of demo_claimed] tabj.create_job_law [OF empty_table(1), of demo_claimed]
      demo_training_users(1) by (simp_all add: demo_stuck_def demo_claimed_def)
  have progress: "read_progress (output_dir (ws_workdir (wd_settings demo_worker)) demo_claimed) (w_fs demo_stuck) = Inr None"
    using demo_no_progress by (simp add: demo_stuck_def)
  have job: "stored_job map_of (w_jobs demo_stuck) (j_id demo_claimed) = Some demo_claimed" "j_status demo_claimed = INITIALIZING"
    by (simp_all add: jobs demo_claimed_def)
  have alone: "\<not> (\<exists>k i. stored_job map_of (w_jobs demo_stuck) k = Some i \<and>
      j_status i \<in> {INITIALIZING, TRAINING} \<and> k \<noteq> j_id demo_claimed)" by (simp add: jobs demo_claimed_def)
  have none: "j_container_id demo_claimed = None" by (simp add: demo_claimed_def submitted_job_def new_job_def)
  from initializing_kept_alive [OF demo_worker_system wf job alone progress disjI1 [OF none], where now = "\<lambda>_. minutes 300"]
  show ?thesis using none by (elim exE conjE) (intro exI conjI)
qed

text \<open>
  C33: A cancellation the Docker daemon refuses ends the worker. If the only job to cancel has a
  container and killing it raises, which is what the daemon documents for a container that has already
  exited, the tick raises before anything is written: the poll loop ends with that exception, whatever
  number of rounds it was to run, and the next start meets the same state.
\<close>

theorem refused_kill_ends_worker:
  fixes E :: "('j, 'u, 'o, 'd) WorkerDependencies" and w :: "('j, 'u, 'o, 'd) world"
  assumes R: "job_store (wd_job_repository E) jobs_of wf_jobs" and wf: "wf_jobs (w_jobs w)"
    and j: "jobs_of (w_jobs w) (j_id j) = Some j" "j_status j \<in> {INITIALIZING, TRAINING}" "j_cancel_requested j"
    and c: "j_container_id j = Some c" "c \<noteq> []"
    and only: "\<not> (\<exists>k i. jobs_of (w_jobs w) k = Some i \<and> j_cancel_requested i \<and>
       j_status i \<in> set CANCELLABLE_STATUSES \<and> k \<noteq> j_id j)"
    and refused: "dc_kill (wd_docker_client E) c (w_docker w) = (Inl e, w_docker w)"
  shows "poll_loop E clock (Suc rounds) w = (Inl e, w)"
proof -
  obtain js where js: "jr_list_by_statuses (wd_job_repository E) (w_jobs w) CANCELLABLE_STATUSES = Inr js"
    using job_store.listed_by_statuses [OF R wf] by blast
  have mem: "j \<in> set js"
    using job_store.list_by_statuses_complete [OF R wf js j(1)] j(2) by (auto simp: CANCELLABLE_STATUSES_def)
  have same: "i = j" if i: "i \<in> set js" "j_cancel_requested i" for i
  proof -
    note i' = job_store.list_by_statuses_mem [OF R wf js i(1)]
    have "j_id i = j_id j"
    proof (rule ccontr)
      assume "j_id i \<noteq> j_id j"
      with only i' i(2) show False by blast
    qed
    from i'(1) [unfolded this] j(1) show ?thesis by simp
  qed
  have loop: "cancel_requested_jobs (wd_job_repository E) (wd_docker_client E) workdir t is w = (Inl e, w)"
    if "j \<in> set is" "\<And>i. i \<in> set is \<Longrightarrow> j_cancel_requested i \<Longrightarrow> i = j" for "is" workdir t
    using that
  proof (induction "is")
    case Nil
    from Nil.prems(1) show ?case by simp
  next
    case (Cons i "is")
    show ?case
    proof (cases "j_cancel_requested i")
      case True
      then have "i = j" using Cons.prems(2) [of i] by simp
      with j(2,3) c refused show ?thesis by (simp add: stop_container_def)
    next
      case False
      with Cons.prems(1) j(3) have "j \<in> set is" by (cases "i = j") simp_all
      from Cons.IH [OF this Cons.prems(2)] False show ?thesis by simp
    qed
  qed
  have all: "process_cancellations (wd_job_repository E) (wd_docker_client E) workdir t w = (Inl e, w)" for workdir t
    unfolding process_cancellations_def js using loop [OF mem same] by simp
  show ?thesis by (simp add: worker_tick_def JobPoller_tick_def all)
qed

definition demo_refused :: "(table, table, (string \<times> blob) list, daemon) world" where
  "demo_refused = demo_cancelling\<lparr>w_docker := w_docker demo_exited\<rparr>"

theorem refused_kill_ends_worker_witness:
  "poll_loop demo_worker (\<lambda>_ _. 9) 7 demo_refused = (Inl (ExternalError ''409 Conflict''), demo_refused) \<and>
   DockerRunner_is_running reference_daemon (w_docker demo_refused) ''c1'' = Inr False"
proof -
  have d: "map_of (w_docker demo_refused) ''c1'' = Some ((demo_container ''j1'')\<lparr>ct_status := ''exited'', ct_exit_code := 1\<rparr>)"
    by (simp add: demo_refused_def demo_exited_def)
  have R: "job_store (wd_job_repository demo_worker) (stored_job map_of) (holds_jobs map_of)"
    unfolding demo_worker_fields by (rule tabj.job_store_axioms)
  have wf: "holds_jobs map_of (w_jobs demo_refused)" and jobs: "stored_job map_of (w_jobs demo_refused) = [''j1'' \<mapsto> cancelling_job]"
    using demo_cancelling_wf demo_cancelling_jobs by (simp_all add: demo_refused_def)
  have job: "stored_job map_of (w_jobs demo_refused) (j_id cancelling_job) = Some cancelling_job"
    "j_status cancelling_job \<in> {INITIALIZING, TRAINING}" by (simp_all add: jobs)
  have only: "\<not> (\<exists>k i. stored_job map_of (w_jobs demo_refused) k = Some i \<and> j_cancel_requested i \<and>
      j_status i \<in> set CANCELLABLE_STATUSES \<and> k \<noteq> j_id cancelling_job)" by (simp add: jobs)
  have refused: "dc_kill (wd_docker_client demo_worker) ''c1'' (w_docker demo_refused) =
      (Inl (ExternalError ''409 Conflict''), w_docker demo_refused)"
    by (simp add: demo_worker_fields port_simps DockerRunner_kill_def reference_daemon_def daemon_kill_def d demo_container_def)
  have "poll_loop demo_worker (\<lambda>_ _. 9) (Suc 6) demo_refused = (Inl (ExternalError ''409 Conflict''), demo_refused)"
    using refused_kill_ends_worker [OF R wf job cancelling_job_fields(3,4) _ only refused, of "\<lambda>_ _. 9" 6] by simp
  moreover have "DockerRunner_is_running reference_daemon (w_docker demo_refused) ''c1'' = Inr False"
    by (simp add: DockerRunner_is_running_def reference_daemon_def d demo_container_def)
  ultimately show ?thesis by (simp add: numeral_eq_Suc)
qed

end
