(* ===== verification/Checkpoint_Delivery.thy ===== *)
theory Checkpoint_Delivery
  imports Completion_Properties Backend_Properties
begin

text \<open>
  The way of a checkpoint from the disk of the worker to its owner: packaged, uploaded and recorded by the
  completion monitor, handed out by the download route. The worker and the backend meet in the job store and
  the bucket only; both are any adapters that keep the contracts of their ports.
\<close>

context training_system
begin

text \<open>The directory of the archive is beside the one that is packaged.\<close>

lemma zip_outside: "\<not> within_dir (checkpoint_dir d j) (output_dir d j @ [''checkpoint.zip''])"
  by (simp add: within_dir_def checkpoint_dir_def)

definition checkpoint_archive :: "Job \<Rightarrow> fsys \<Rightarrow> blob" where
  "checkpoint_archive j fs =
     (let d = checkpoint_dir (ws_workdir (wd_settings E)) j
      in ZipArchive (map (member_of_file fs d) (checkpoint_files fs d)))"

lemma finish_delivers:
  assumes ok: "world_ok w" and tr: "j_status j = TRAINING"
    and packed: "package_checkpoint (wd_deflated_size E) (checkpoint_dir (ws_workdir (wd_settings E)) j)
      (output_dir (ws_workdir (wd_settings E)) j @ [''checkpoint.zip'']) (w_fs w) = (Inr u, fs)"
    and uploaded: "upload_with_retries (wd_object_storage E) (wd_upload_retries E) (checkpoint_object_path j)
      (output_dir (ws_workdir (wd_settings E)) j @ [''checkpoint.zip'']) fs (w_objects w) = (True, objects)"
  shows "\<exists>j' w'. finish_successful_container E t j w = (Inr j', w') \<and> only_job w j w' j' \<and> j_status j' = COMPLETED \<and>
    j_checkpoint_gcs_path j' = Some (checkpoint_object_path j) \<and>
    objects_of (w_objects w') = (objects_of (w_objects w))(checkpoint_object_path j \<mapsto> checkpoint_archive j (w_fs w))"
proof -
  let ?w = "w\<lparr>w_fs := fs, w_objects := objects\<rparr>"
  have "world_ok ?w" using ok by (simp add: world_ok_def)
  from mark_completed_only [OF this tr, of "ws_workdir (wd_settings E)" t "checkpoint_object_path j"] obtain j' w'
    where m: "mark_completed R (ws_workdir (wd_settings E)) t j (checkpoint_object_path j) ?w = (Inr j', w')"
      "only_job w j w' j'" "j_status j' = COMPLETED" "j_checkpoint_gcs_path j' = Some (checkpoint_object_path j)"
      "w_objects w' = objects" by auto
  have "objects_of objects = (objects_of (w_objects w))(checkpoint_object_path j \<mapsto> checkpoint_archive j (w_fs w))"
    using upload_attempts_stored [OF uploaded [unfolded upload_with_retries_def]] package_spec(2) [OF packed zip_outside]
    by (auto simp: checkpoint_archive_def Let_def)
  with m packed uploaded show ?thesis by (simp add: finish_successful_container_def Let_def)
qed

lemma successful_job_delivers:
  assumes ok: "world_ok w" and j: "stored w j" "monitored (j_status j)"
    and alone: "\<not> (\<exists>k i. jobs_of (w_jobs w) k = Some i \<and> monitored (j_status i) \<and> k \<noteq> j_id j)"
    and c: "j_container_id j = Some c" "c \<noteq> []"
    and progress: "read_progress (output_dir (ws_workdir (wd_settings E)) j) (w_fs w) = Inr p"
    and ex: "dc_get_exit_code D (w_docker w) c = Inr (Some 0)"
    and packed: "package_checkpoint (wd_deflated_size E) (checkpoint_dir (ws_workdir (wd_settings E)) j)
      (output_dir (ws_workdir (wd_settings E)) j @ [''checkpoint.zip'']) (w_fs w) = (Inr u, fs)"
    and uploaded: "upload_with_retries (wd_object_storage E) (wd_upload_retries E) (checkpoint_object_path j)
      (output_dir (ws_workdir (wd_settings E)) j @ [''checkpoint.zip'']) fs (w_objects w) = (True, objects)"
  shows "\<exists>j' w'. JobCompletionMonitor_tick E now w = (Inr (Some j'), w') \<and> only_job w j w' j' \<and> j_status j' = COMPLETED \<and>
    j_checkpoint_gcs_path j' = Some (checkpoint_object_path j) \<and>
    objects_of (w_objects w') = (objects_of (w_objects w))(checkpoint_object_path j \<mapsto> checkpoint_archive j (w_fs w))"
proof -
  obtain rest where js: "jr_list_by_statuses R (w_jobs w) COMPLETION_MONITORED_STATUSES = Inr (j # rest)"
    using first_monitored [OF ok j alone] by blast
  obtain j1 w1 where o: "observe_job R now j p (Some 0) w = (Inr j1, w1)" "only_job w j w1 j1"
      "monitored (j_status j1)" "w_fs w1 = w_fs w" "w_objects w1 = w_objects w" using observe_only [OF ok j] by blast
  have ok1: "world_ok w1" "stored w1 j1" using o(2) by (simp_all add: only_job_def stored_def)
  obtain j2 w2 where s: "start_training R (now 2) j1 w1 = (Inr j2, w2)" "only_job w1 j1 w2 j2" "j_status j2 = TRAINING"
      "w_fs w2 = w_fs w1" "w_objects w2 = w_objects w1"
    using start_training_only [OF ok1 o(3)] by blast
  have ok2: "world_ok w2" using s(2) by (simp add: only_job_def)
  note here = only_job_trans [OF o(2) s(2)]
  have paths: "checkpoint_object_path j2 = checkpoint_object_path j" "output_dir d j2 = output_dir d j"
      "checkpoint_dir d j2 = checkpoint_dir d j" for d
    using checkpoint_path_only [OF here] job_path_only [OF here] by (simp_all add: output_dir_def checkpoint_dir_def)
  have same: "w_fs w2 = w_fs w" "w_objects w2 = w_objects w" using o s by simp_all
  obtain j3 w3 where f: "finish_successful_container E (now 3) j2 w2 = (Inr j3, w3)" "only_job w2 j2 w3 j3"
      "j_status j3 = COMPLETED" "j_checkpoint_gcs_path j3 = Some (checkpoint_object_path j)"
      "objects_of (w_objects w3) = (objects_of (w_objects w))(checkpoint_object_path j \<mapsto> checkpoint_archive j (w_fs w))"
    using finish_delivers [OF ok2 s(3), of u fs objects "now 3"] packed uploaded
    unfolding paths same checkpoint_archive_def by blast
  have "JobCompletionMonitor_tick E now w = (Inr (Some j3), w3)"
    using js progress c ex o(1) s(1) f(1) by (simp add: JobCompletionMonitor_tick_def finalize_job_def)
  with f only_job_trans [OF here f(2)] show ?thesis by blast
qed

end

subsection \<open>Properties\<close>

text \<open>
  C7: A trained checkpoint reaches its owner, and nobody else. If the container of the job on the GPU has
  exited with code 0, its checkpoint can be packaged and one of the upload attempts gets through, the
  completion tick completes the job and leaves one new object in the bucket: an archive whose members are
  exactly the files of the checkpoint directory as the container left them. From then on the download
  route, over the same job store, answers its owner with the link to that object, valid for seven days, and
  everybody else with 403.
\<close>

theorem checkpoint_delivered:
  fixes E :: "('j, 'u, 'o, 'd) WorkerDependencies" and w :: "('j, 'u, 'o, 'd) world"
    and P :: "('j, 'u2, 'o2) Dependencies"
  assumes E: "training_system E jobs_of wf_jobs users_of wf_users objects_of running"
    and P: "job_store (dp_job_repository P) jobs_of wf_jobs"
    and wf: "wf_jobs (w_jobs w)" "wf_users (w_users w)"
    and j: "jobs_of (w_jobs w) (j_id j) = Some j" "j_status j \<in> {INITIALIZING, TRAINING}"
    and alone: "\<not> (\<exists>k i. jobs_of (w_jobs w) k = Some i \<and> j_status i \<in> {INITIALIZING, TRAINING} \<and> k \<noteq> j_id j)"
    and c: "j_container_id j = Some c" "c \<noteq> []"
    and progress: "read_progress (output_dir (ws_workdir (wd_settings E)) j) (w_fs w) = Inr p"
    and exit: "dc_get_exit_code (wd_docker_client E) (w_docker w) c = Inr (Some 0)"
    and dirs: "d = checkpoint_dir (ws_workdir (wd_settings E)) j"
      "z = output_dir (ws_workdir (wd_settings E)) j @ [''checkpoint.zip'']"
    and packed: "package_checkpoint (wd_deflated_size E) d z (w_fs w) = (Inr v, fs)"
    and uploaded: "upload_with_retries (wd_object_storage E) (wd_upload_retries E) (checkpoint_object_path j) z fs
      (w_objects w) = (True, objects)"
  shows "\<exists>j' w'. JobCompletionMonitor_tick E now w = (Inr (Some j'), w') \<and> j_status j' = COMPLETED \<and>
    jobs_of (w_jobs w') = (jobs_of (w_jobs w))(j_id j \<mapsto> j') \<and>
    objects_of (w_objects w') = (objects_of (w_objects w))(checkpoint_object_path j \<mapsto>
      ZipArchive (map (member_of_file (w_fs w) d) (checkpoint_files (w_fs w) d))) \<and>
    (\<forall>t header caller b. b_jobs b = w_jobs w' \<longrightarrow>
       get_current_user_id (dp_jwt P) (dp_settings P) t header = Inr caller \<longrightarrow>
       api_get_download_url P t header (j_id j) b =
         (if caller = j_user_id j
          then Reply 200 (os_generate_download_url (dp_storage P) (checkpoint_object_path j) (7 * 24 * 60 * 60))
          else ErrorReply 403 (exn_text (NotJobOwnerError (j_id j))), b))"
proof -
  have ok: "training_system.world_ok wf_jobs wf_users w" using wf by (simp add: training_system.world_ok_def [OF E])
  have stored: "training_system.stored jobs_of w j" using j(1) by (simp add: training_system.stored_def [OF E])
  obtain j' w' where run: "JobCompletionMonitor_tick E now w = (Inr (Some j'), w')"
    and only: "training_system.only_job jobs_of wf_jobs wf_users w j w' j'"
    and job: "j_status j' = COMPLETED" "j_checkpoint_gcs_path j' = Some (checkpoint_object_path j)"
    and object: "objects_of (w_objects w') = (objects_of (w_objects w))(checkpoint_object_path j \<mapsto>
      training_system.checkpoint_archive E j (w_fs w))"
    using training_system.successful_job_delivers [OF E ok stored j(2) [folded monitored_iff] alone [folded monitored_iff]
      c progress exit packed [unfolded dirs] uploaded [unfolded dirs]] by blast
  note only = only [unfolded training_system.only_job_def [OF E] training_system.world_ok_def [OF E]]
  have "checkpoint_object_path j \<noteq> []" by (simp add: checkpoint_object_path_def)
  then have "api_get_download_url P t header (j_id j) b =
         (if caller = j_user_id j
          then Reply 200 (os_generate_download_url (dp_storage P) (checkpoint_object_path j) (7 * 24 * 60 * 60))
          else ErrorReply 403 (exn_text (NotJobOwnerError (j_id j))), b)"
    if "b_jobs b = w_jobs w'" "get_current_user_id (dp_jwt P) (dp_settings P) t header = Inr caller" for t header caller b
    using download_route [OF P _ that(2), of b "j_id j"] only job that(1) by auto
  with run only job(1) object show ?thesis
    by (simp add: training_system.checkpoint_archive_def [OF E] Let_def dirs)
qed

text \<open>The container of the demo job has left one file and exited with code 0.\<close>

definition demo_output :: path where
  "demo_output = output_dir (ws_workdir default_worker_settings) training_job"

definition demo_trained :: "(table, table, (string \<times> blob) list, daemon) world" where
  "demo_trained = demo_training\<lparr>
     w_docker := [(''c1'', (demo_container ''j1'')\<lparr>ct_status := ''exited'', ct_exit_code := 0\<rparr>)],
     w_fs := \<lparr>fs_nodes = [(demo_output @ [''checkpoint''], \<lparr>i_node = DirNode, i_mtime = 0\<rparr>),
       (demo_output @ [''checkpoint'', ''model''], \<lparr>i_node = FileNode 3 (RawBytes ''abc''), i_mtime = 0\<rparr>)], fs_clock = 1\<rparr>\<rparr>"

lemma demo_trained_lookup: "fs_lookup (w_fs demo_trained) p =
    (if p = demo_output @ [''checkpoint''] then Some \<lparr>i_node = DirNode, i_mtime = 0\<rparr>
     else if p = demo_output @ [''checkpoint'', ''model''] then Some \<lparr>i_node = FileNode 3 (RawBytes ''abc''), i_mtime = 0\<rparr> else None)"
  by (simp add: demo_trained_def fs_lookup_def)

lemma demo_trained_members: "map (member_of_file (w_fs demo_trained) (demo_output @ [''checkpoint'']))
    (checkpoint_files (w_fs demo_trained) (demo_output @ [''checkpoint''])) = [ZipMember ''model'' 3 (RawBytes ''abc'')]"
proof -
  have "fs_below (w_fs demo_trained) (demo_output @ [''checkpoint'']) = [demo_output @ [''checkpoint'', ''model'']]"
    by (simp add: demo_trained_def fs_below_def strictly_within_def within_dir_def)
  then show ?thesis
    by (simp add: checkpoint_files_def fs_is_file_def demo_trained_lookup is_dir_inode_def member_of_file_def
        string_of_path_def fs_read_def)
qed

theorem checkpoint_delivered_witness:
  "\<exists>j' w'. JobCompletionMonitor_tick demo_worker (\<lambda>_. 3) demo_trained = (Inr (Some j'), w') \<and> j_status j' = COMPLETED \<and>
    map_of (w_objects w') ''checkpoints/j1.zip'' = Some (ZipArchive [ZipMember ''model'' 3 (RawBytes ''abc'')]) \<and>
    api_get_download_url demo_backend 2 demo_header ''j1'' (backend_of w') =
      (Reply 200 ''GET checkpoints/j1.zip'', backend_of w')"
proof -
  let ?z = "demo_output @ [''checkpoint.zip'']" and ?d = "demo_output @ [''checkpoint'']"
  have wf: "holds_jobs map_of (w_jobs demo_trained)" "holds_users map_of (w_users demo_trained)"
    and jobs: "stored_job map_of (w_jobs demo_trained) = [''j1'' \<mapsto> training_job]"
    using demo_training_jobs demo_training_users(1) by (simp_all add: demo_trained_def)
  have job: "stored_job map_of (w_jobs demo_trained) (j_id training_job) = Some training_job" by (simp add: jobs)
  have alone: "\<not> (\<exists>k i. stored_job map_of (w_jobs demo_trained) k = Some i \<and>
      j_status i \<in> {INITIALIZING, TRAINING} \<and> k \<noteq> j_id training_job)" by (simp add: jobs)
  have c: "j_container_id training_job = Some ''c1''" and s: "j_status training_job \<in> {INITIALIZING, TRAINING}" "''c1'' \<noteq> []"
    by simp_all
  have exit: "dc_get_exit_code (wd_docker_client demo_worker) (w_docker demo_trained) ''c1'' = Inr (Some 0)"
    by (simp add: demo_worker_fields port_simps DockerRunner_get_exit_code_def reference_daemon_def demo_trained_def)
  have progress: "read_progress (output_dir (ws_workdir (wd_settings demo_worker)) training_job) (w_fs demo_trained) = Inr None"
    unfolding demo_worker_fields demo_output_def [symmetric]
    by (simp add: read_progress_def PROGRESS_FILENAME_def fs_exists_def demo_trained_lookup)
  have dirs: "?d = checkpoint_dir (ws_workdir (wd_settings demo_worker)) training_job"
    "?z = output_dir (ws_workdir (wd_settings demo_worker)) training_job @ [''checkpoint.zip'']"
    by (simp_all add: demo_worker_fields demo_output_def checkpoint_dir_def)
  have out: "\<not> within_dir ?d ?z" by (simp add: within_dir_def)
  have free: "\<not> list_ex (\<lambda>n. fs_is_file (w_fs demo_trained) (take n demo_output)) ns" for ns
  proof -
    have "length (take n demo_output) \<noteq> length (demo_output @ [''checkpoint'', ''model''])" for n by simp
    then have "take n demo_output \<noteq> demo_output @ [''checkpoint'', ''model'']" for n by metis
    then show ?thesis by (simp add: list_ex_iff fs_is_file_def demo_trained_lookup is_dir_inode_def)
  qed
  have "demo_output \<noteq> []" by (simp add: demo_output_def output_dir_def)
  then obtain fs where packed: "package_checkpoint (wd_deflated_size demo_worker) ?d ?z (w_fs demo_trained) = (Inr (), fs)"
    using package_runs [of "w_fs demo_trained" ?d ?z "wd_deflated_size demo_worker"] free
    by (auto simp: fs_is_dir_def demo_trained_lookup is_dir_inode_def)
  have "fs_read fs ?z = Inr (ZipArchive [ZipMember ''model'' 3 (RawBytes ''abc'')])"
    using package_spec(2) [OF packed out] unfolding demo_trained_members .
  then obtain objects where uploaded: "upload_with_retries (wd_object_storage demo_worker) (wd_upload_retries demo_worker)
      (checkpoint_object_path training_job) ?z fs (w_objects demo_trained) = (True, objects)"
    by (simp add: upload_with_retries_def demo_worker_fields port_simps reference_bucket_simps)
  have R: "job_store (dp_job_repository demo_backend) (stored_job map_of) (holds_jobs map_of)"
    unfolding demo_backend_fields by (rule tabj.job_store_axioms)
  have caller: "get_current_user_id (dp_jwt demo_backend) (dp_settings demo_backend) 2 demo_header = Inr ''u1''"
    unfolding demo_backend_fields by (rule demo_header_accepted)
  have path: "checkpoint_object_path training_job = ''checkpoints/j1.zip''" by (simp add: checkpoint_object_path_def)
  have link: "os_generate_download_url (dp_storage demo_backend) p n = ''GET '' @ p" for p n
    by (simp add: deployed_backend_def real_dependencies_def build_dependencies_def demo_platform_def port_simps reference_bucket_def)
  from checkpoint_delivered [OF demo_worker_system R wf job s(1) alone c s(2) progress exit dirs packed uploaded, where now = "\<lambda>_. 3"]
  show ?thesis unfolding demo_trained_members path
    by (elim exE conjE) (intro exI conjI, assumption, simp_all add: caller link backend_of_def)
qed

end
