(* ===== verification/Archive_Properties.thy ===== *)
theory Archive_Properties
  imports Dataset_Fetcher Checkpoint_Packager Memory_Adapters
begin

text \<open>
  What comes out of an archive: extraction, which the dataset fetcher does with an upload and a user with
  a checkpoint, writes every member where its name says and nothing else.
\<close>

subsection \<open>What extraction leaves alone and what it writes\<close>

lemma extract_member_keeps:
  assumes "fs_read fs p = Inr b" and "p \<noteq> t @ member_parts (zm_name m)"
  shows "fs_read (snd (extract_member t m fs)) p = Inr b"
proof -
  let ?q = "t @ member_parts (zm_name m)"
  obtain r fs1 where q: "fs_makedirs (butlast ?q) fs = (r, fs1)" by fastforce
  with makedirs_keeps [OF assms(1), of "butlast ?q"] have "fs_read fs1 p = Inr b" by simp
  with write_keeps [OF this assms(2)] makedirs_keeps [OF assms(1)] q show ?thesis
    by (cases r) (simp_all add: extract_member_def Let_def)
qed

lemma extract_all_keeps:
  assumes "fs_read fs p = Inr b" and "p \<notin> (\<lambda>m. t @ member_parts (zm_name m)) ` set ms"
  shows "fs_read (snd (extract_all t ms fs)) p = Inr b"
  using assms
proof (induction ms arbitrary: fs)
  case (Cons m ms)
  obtain r fs1 where r: "extract_member t m fs = (r, fs1)" by fastforce
  with extract_member_keeps [of fs p b t m] Cons.prems have "fs_read fs1 p = Inr b" by simp
  with Cons.IH [of fs1] Cons.prems(2) r show ?case by (cases r) simp_all
qed simp

lemma extract_all_reads:
  assumes "extract_all t ms fs = (Inr u, fs')" and "distinct (map (\<lambda>m. member_parts (zm_name m)) ms)"
    and "m \<in> set ms" and "\<not> ends_with ''/'' (zm_name m)"
  shows "fs_read fs' (t @ member_parts (zm_name m)) = Inr (zm_data m)"
  using assms
proof (induction ms arbitrary: fs)
  case (Cons x ms)
  obtain r fs1 where r: "extract_member t x fs = (r, fs1)" by fastforce
  with Cons.prems(1) obtain v where v: "r = Inr v" and rest: "extract_all t ms fs1 = (Inr u, fs')" by (cases r) simp_all
  show ?case
  proof (cases "m = x")
    case True
    with r v Cons.prems(4) obtain fs0 where "fs_write_file (t @ member_parts (zm_name m)) (zm_size m) (zm_data m) fs0 = (Inr v, fs1)"
      by (auto simp: extract_member_def Let_def then_do_def split: prod.splits sum.splits)
    then have "fs_read fs1 (t @ member_parts (zm_name m)) = Inr (zm_data m)" by (rule write_file_read)
    moreover have "t @ member_parts (zm_name m) \<notin> (\<lambda>m. t @ member_parts (zm_name m)) ` set ms"
      using Cons.prems(2) True by (auto simp: image_iff)
    ultimately show ?thesis using extract_all_keeps [of fs1 _ _ t ms] rest by fastforce
  next
    case False
    with Cons rest show ?thesis by simp
  qed
qed simp

subsection \<open>The names of a checkpoint's members\<close>

definition proper_parts :: "path \<Rightarrow> bool" where
  "proper_parts p \<longleftrightarrow> (\<forall>c \<in> set p. c \<notin> {[], ''.'', ''..''} \<and> CHR ''/'' \<notin> set c)"

lemma member_parts_of_path:
  assumes "proper_parts p" and "p \<noteq> []"
  shows "member_parts (tl (string_of_path p)) = p" and "\<not> ends_with ''/'' (tl (string_of_path p))"
proof -
  obtain c cs where p: "p = c # cs" using assms(2) by (cases p) simp_all
  have slash: "string_of_path p = CHR ''/'' # tl (string_of_path p)" by (simp add: p string_of_path_def)
  have "path_parts [] (CHR ''/'' # s) = path_parts [] s" for s by simp
  from this [of "tl (string_of_path p)"]
  have parts: "path_parts [] (tl (string_of_path p)) = path_parts [] (string_of_path p)" unfolding slash [symmetric] by (rule sym)
  have "member_parts (tl (string_of_path p)) = filter (\<lambda>c. c \<notin> {[], ''..''}) (path_of_string (string_of_path p))"
    unfolding member_parts_def path_of_string_def parts filter_filter by (rule filter_cong) auto
  also have "path_of_string (string_of_path p) = p"
    using assms(1) by (intro path_string_roundtrip) (auto simp: proper_parts_def)
  also have "filter (\<lambda>c. c \<notin> {[], ''..''}) p = p"
    using assms(1) by (intro filter_True) (auto simp: proper_parts_def)
  finally show "member_parts (tl (string_of_path p)) = p" .
  have last: "last p \<noteq> []" "CHR ''/'' \<notin> set (last p)"
    using assms last_in_set [of p] by (auto simp: proper_parts_def)
  have "string_of_path (q @ [c]) = string_of_path q @ CHR ''/'' # c" for q c by (simp add: string_of_path_def)
  from this [of "butlast p" "last p"] have "string_of_path p = string_of_path (butlast p) @ CHR ''/'' # last p"
    using assms(2) by simp
  then obtain s where s: "tl (string_of_path p) = s @ last p" by (cases "string_of_path (butlast p)") auto
  show "\<not> ends_with ''/'' (tl (string_of_path p))"
  proof
    assume "ends_with ''/'' (tl (string_of_path p))"
    then have "last (tl (string_of_path p)) = CHR ''/''" by (auto simp: ends_with_iff)
    with s last have "last (last p) = CHR ''/''" by simp
    with last show False using last_in_set [of "last p"] by auto
  qed
qed

lemma checkpoint_file_iff:
  "p \<in> set (checkpoint_files fs d) \<longleftrightarrow> fs_is_file fs p \<and> strictly_within d p"
proof -
  have "p \<in> set (map fst (fs_nodes fs))" if "fs_is_file fs p"
    using that unfolding fs_is_file_def fs_lookup_def
    by (metis (no_types, lifting) domI dom_map_of_conv_image_fst option.case_eq_if option.collapse set_map)
  then show ?thesis by (auto simp: checkpoint_files_def fs_below_def)
qed

lemma rest_inject: "strictly_within d p \<Longrightarrow> strictly_within d q \<Longrightarrow> drop (length d) p = drop (length d) q \<Longrightarrow> p = q"
  by (metis append_take_drop_id strictly_within_def within_dir_def)

lemma checkpoint_members_distinct:
  assumes dict: "distinct (map fst (fs_nodes fs))"
    and proper: "\<And>p. p \<in> set (checkpoint_files fs d) \<Longrightarrow> proper_parts (drop (length d) p)"
  shows "distinct (map (\<lambda>m. member_parts (zm_name m)) (map (member_of_file fs d) (checkpoint_files fs d)))"
proof -
  have name: "member_parts (zm_name (member_of_file fs d p)) = drop (length d) p" if "p \<in> set (checkpoint_files fs d)" for p
    using member_parts_of_path(1) [OF proper [OF that]] that
    by (simp add: member_of_file_def checkpoint_file_iff strictly_within_def)
  have "distinct (checkpoint_files fs d)" using dict by (simp add: checkpoint_files_def fs_below_def)
  moreover have "inj_on (\<lambda>p. member_parts (zm_name (member_of_file fs d p))) (set (checkpoint_files fs d))"
  proof (rule inj_onI)
    fix p q assume pq: "p \<in> set (checkpoint_files fs d)" "q \<in> set (checkpoint_files fs d)"
      "member_parts (zm_name (member_of_file fs d p)) = member_parts (zm_name (member_of_file fs d q))"
    then show "p = q" using rest_inject [of d p q] by (simp add: name checkpoint_file_iff)
  qed
  ultimately show ?thesis by (simp add: distinct_map comp_def)
qed

subsection \<open>Properties\<close>

text \<open>
  C32: Packing and unpacking a checkpoint gives the checkpoint back. Whatever directory the archive that
  the packager wrote is extracted to, every file of the checkpoint directory is there under its relative
  path with its content, and the archive has no other members.
\<close>

theorem checkpoint_roundtrip:
  assumes pack: "package_checkpoint deflated_size d z fs = (Inr u, fs1)" and out: "\<not> within_dir d z"
    and dict: "distinct (map fst (fs_nodes fs))"
    and proper: "\<not> (\<exists>p. fs_is_file fs p \<and> strictly_within d p \<and> \<not> proper_parts (drop (length d) p))"
    and found: "fs_read fs1 z = Inr (ZipArchive ms)"
    and unpack: "extract_all t ms fs2 = (Inr v, fs3)"
  shows "(\<forall>p. fs_is_file fs p \<and> strictly_within d p \<longrightarrow> fs_read fs3 (t @ drop (length d) p) = fs_read fs p) \<and>
    zm_name ` set ms = {tl (string_of_path (drop (length d) p)) |p. fs_is_file fs p \<and> strictly_within d p}"
proof -
  have ms: "ms = map (member_of_file fs d) (checkpoint_files fs d)"
    using package_spec(2) [OF pack out] found by simp
  have proper': "proper_parts (drop (length d) p)" if "p \<in> set (checkpoint_files fs d)" for p
    using that proper unfolding checkpoint_file_iff by blast
  have "fs_read fs3 (t @ drop (length d) p) = fs_read fs p" if p: "fs_is_file fs p" "strictly_within d p" for p
  proof -
    let ?m = "member_of_file fs d p"
    have mem: "p \<in> set (checkpoint_files fs d)" using p by (simp add: checkpoint_file_iff)
    have "drop (length d) p \<noteq> []" using p(2) by (simp add: strictly_within_def)
    note name = member_parts_of_path [OF proper' [OF mem] this]
    have "\<exists>b. fs_read fs p = Inr b"
      using p(1) by (auto simp: fs_is_file_def is_dir_inode_def fs_read_def split: option.splits node.split)
    then obtain b where b: "fs_read fs p = Inr b" ..
    have "fs_read fs3 (t @ member_parts (zm_name ?m)) = Inr (zm_data ?m)"
      using checkpoint_members_distinct [OF dict proper'] mem name(2)
      by (intro extract_all_reads [OF unpack]) (simp_all add: ms member_of_file_def)
    with name(1) b show ?thesis by (simp add: member_of_file_def)
  qed
  moreover have "zm_name ` set ms = {tl (string_of_path (drop (length d) p)) |p. fs_is_file fs p \<and> strictly_within d p}"
  proof (intro equalityI subsetI)
    fix n assume "n \<in> zm_name ` set ms"
    then obtain p where "p \<in> set (checkpoint_files fs d)" "n = tl (string_of_path (drop (length d) p))"
      by (auto simp: ms member_of_file_def)
    then show "n \<in> {tl (string_of_path (drop (length d) p)) |p. fs_is_file fs p \<and> strictly_within d p}"
      unfolding checkpoint_file_iff by blast
  next
    fix n assume "n \<in> {tl (string_of_path (drop (length d) p)) |p. fs_is_file fs p \<and> strictly_within d p}"
    then obtain p where p: "p \<in> set (checkpoint_files fs d)" "n = tl (string_of_path (drop (length d) p))"
      unfolding checkpoint_file_iff by blast
    then have "n = zm_name (member_of_file fs d p)" by (simp add: member_of_file_def)
    with p(1) show "n \<in> zm_name ` set ms" unfolding ms by auto
  qed
  ultimately show ?thesis by blast
qed

text \<open>A checkpoint with one file.\<close>

definition demo_output_files :: fsys where
  "demo_output_files = \<lparr>fs_nodes = [([''o''], \<lparr>i_node = DirNode, i_mtime = 0\<rparr>), ([''o'', ''c''], \<lparr>i_node = DirNode, i_mtime = 0\<rparr>),
     ([''o'', ''c'', ''model''], \<lparr>i_node = FileNode 3 (RawBytes ''abc''), i_mtime = 0\<rparr>)], fs_clock = 1\<rparr>"

definition demo_target :: fsys where
  "demo_target = \<lparr>fs_nodes = [([''t''], \<lparr>i_node = DirNode, i_mtime = 0\<rparr>)], fs_clock = 2\<rparr>"

lemma demo_files: "fs_is_file demo_output_files p \<longleftrightarrow> p = [''o'', ''c'', ''model'']"
  by (auto simp: fs_is_file_def fs_lookup_def demo_output_files_def is_dir_inode_def)

lemma demo_packs: "\<exists>fs1. package_checkpoint (\<lambda>_. 5) [''o'', ''c''] [''o'', ''z''] demo_output_files = (Inr (), fs1)"
  by (rule package_runs) (simp_all add: fs_is_dir_def fs_is_file_def fs_lookup_def demo_output_files_def is_dir_inode_def)

lemma demo_unpacks: "\<exists>fs3. extract_all [''t''] [ZipMember ''model'' 3 (RawBytes ''abc'')] demo_target = (Inr (), fs3)"
  by (simp add: extract_member_def member_parts_def Let_def ends_with_def starts_with_def fs_makedirs_def fs_is_file_def
      fs_mkdir_def fs_mkdir1_def fs_exists_def fs_write_file_def fs_is_dir_def fs_lookup_def demo_target_def is_dir_inode_def)

theorem checkpoint_roundtrip_witness:
  "\<exists>fs1 ms fs3. package_checkpoint (\<lambda>_. 5) [''o'', ''c''] [''o'', ''z''] demo_output_files = (Inr (), fs1) \<and>
     fs_read fs1 [''o'', ''z''] = Inr (ZipArchive ms) \<and> extract_all [''t''] ms demo_target = (Inr (), fs3) \<and>
     fs_read fs3 [''t'', ''model''] = Inr (RawBytes ''abc'')"
proof -
  obtain fs1 where pack: "package_checkpoint (\<lambda>_. 5) [''o'', ''c''] [''o'', ''z''] demo_output_files = (Inr (), fs1)"
    using demo_packs by blast
  have out: "\<not> within_dir [''o'', ''c''] [''o'', ''z'']" by (simp add: within_dir_def)
  have dict: "distinct (map fst (fs_nodes demo_output_files))" by (simp add: demo_output_files_def)
  have ms: "map (member_of_file demo_output_files [''o'', ''c'']) (checkpoint_files demo_output_files [''o'', ''c'']) =
      [ZipMember ''model'' 3 (RawBytes ''abc'')]"
    by (simp add: checkpoint_files_def fs_below_def strictly_within_def within_dir_def demo_output_files_def
        fs_is_file_def fs_lookup_def is_dir_inode_def member_of_file_def string_of_path_def fs_read_def)
  have found: "fs_read fs1 [''o'', ''z''] = Inr (ZipArchive [ZipMember ''model'' 3 (RawBytes ''abc'')])"
    using package_spec(2) [OF pack out] unfolding ms .
  obtain fs3 where unpack: "extract_all [''t''] [ZipMember ''model'' 3 (RawBytes ''abc'')] demo_target = (Inr (), fs3)"
    using demo_unpacks by blast
  have proper: "\<not> (\<exists>p. fs_is_file demo_output_files p \<and> strictly_within [''o'', ''c''] p \<and>
      \<not> proper_parts (drop (length [''o'', ''c'']) p))" by (simp add: demo_files proper_parts_def)
  have model: "fs_is_file demo_output_files [''o'', ''c'', ''model'']" "strictly_within [''o'', ''c''] [''o'', ''c'', ''model'']"
    by (simp_all add: demo_files strictly_within_def within_dir_def)
  have "fs_read demo_output_files [''o'', ''c'', ''model''] = Inr (RawBytes ''abc'')"
    by (simp add: fs_read_def fs_lookup_def demo_output_files_def)
  moreover have "fs_read fs3 ([''t''] @ drop (length [''o'', ''c'']) [''o'', ''c'', ''model'']) =
      fs_read demo_output_files [''o'', ''c'', ''model'']"
    using conjunct1 [OF checkpoint_roundtrip [OF pack out dict proper found unpack]] model by blast
  ultimately have "fs_read fs3 [''t'', ''model''] = Inr (RawBytes ''abc'')" by simp
  with pack found unpack show ?thesis by blast
qed

text \<open>
  C31: An uploaded dataset is delivered as it was sent, and nowhere else. If the fetch for a zip upload
  succeeds, the job's own input directory, mounted writable, holds every member of the archive under its
  name with its content (names that lead out of the directory included: \<open>..\<close> is dropped), nothing outside
  that directory and its parents has changed, and of the stored objects at most the upload is gone.
\<close>

theorem upload_delivered:
  assumes S: "object_store S objects_of" and zip: "j_source_type job = ZIP_UPLOAD"
    and stored: "objects_of objects (j_source_ref job) = Some (ZipArchive ms)"
    and names: "distinct (map (\<lambda>m. member_parts (zm_name m)) ms)"
    and run: "fetch_for_job H S cache_dir cache_max_bytes job d (objects, fs) = (Inr f, (objects', fs'))"
  shows "f = \<lparr>fd_input_dir = d @ [''input''], fd_read_only = False\<rparr> \<and>
    (\<forall>m \<in> set ms. \<not> ends_with ''/'' (zm_name m) \<longrightarrow>
       fs_read fs' (d @ [''input''] @ member_parts (zm_name m)) = Inr (zm_data m)) \<and>
    (\<forall>q. \<not> within_dir (d @ [''input'']) q \<and> \<not> within_dir q (d @ [''input'']) \<longrightarrow> fs_lookup fs' q = fs_lookup fs q) \<and>
    (objects_of objects' = objects_of objects \<or> objects_of objects' = (objects_of objects)(j_source_ref job := None))"
proof -
  let ?t = "d @ [''input'']"
  have read: "os_open_read_stream S objects (j_source_ref job) = Inr (ZipArchive ms)"
    using object_store.read_law [OF S stored] .
  have ext: "extract_zip_upload S (j_source_ref job) ?t (objects, fs) = (Inr (fd_input_dir f), (objects', fs'))"
    and ro: "\<not> fd_read_only f"
    using run zip by (auto simp: fetch_for_job_def and_then_Inr_iff split: prod.splits)
  obtain r1 fs1 where m: "fs_makedirs ?t fs = (r1, fs1)" by fastforce
  obtain r2 fs2 where e: "extract_all ?t ms fs1 = (r2, fs2)" by fastforce
  obtain u1 where "r1 = Inr u1" using ext m by (cases r1) (simp_all add: extract_zip_upload_def)
  then obtain u where all: "extract_all ?t ms fs1 = (Inr u, fs')" and dir: "fd_input_dir f = ?t"
    and objects': "objects' = snd (os_delete S (j_source_ref job) objects)"
    using ext m read e by (cases r2) (simp_all add: extract_zip_upload_def)
  have "fs_read fs' (d @ [''input''] @ member_parts (zm_name m)) = Inr (zm_data m)"
    if "m \<in> set ms" "\<not> ends_with ''/'' (zm_name m)" for m
    using extract_all_reads [OF all names that] by simp
  moreover have "fs_lookup fs' q = fs_lookup fs q" if "\<not> within_dir ?t q" "\<not> within_dir q ?t" for q
    using extract_zip_other [OF that, of S "j_source_ref job" objects fs] ext by simp
  moreover have "objects_of objects' = objects_of objects \<or> objects_of objects' = (objects_of objects)(j_source_ref job := None)"
    using object_store.delete_law [OF S, of "j_source_ref job" objects] objects'
    by (cases "os_delete S (j_source_ref job) objects") (auto split: sum.splits)
  moreover have "f = \<lparr>fd_input_dir = ?t, fd_read_only = False\<rparr>" using dir ro by (cases f) simp
  ultimately show ?thesis by blast
qed

definition slipping_archive :: "zip_member list" where
  "slipping_archive = [ZipMember ''../../model'' 3 (RawBytes ''abc'')]"

definition uploaded_job :: Job where
  "uploaded_job = \<lparr>j_id = ''j1'', j_user_id = ''u1'', j_policy = ACT, j_source_type = ZIP_UPLOAD,
     j_source_ref = ''uploads/u1/d.zip'', j_training_steps = 100, j_status = INITIALIZING, j_container_id = None,
     j_heartbeat_at = None, j_progress = None, j_cancel_requested = False, j_checkpoint_gcs_path = None,
     j_error_message = None, j_created_at = 0, j_updated_at = 0\<rparr>"

lemma demo_extracts:
  assumes "fs_makedirs [''t'', ''input''] demo_target = (Inr u, fs1)"
  shows "\<exists>fs'. extract_all [''t'', ''input''] slipping_archive fs1 = (Inr (), fs')"
proof -
  note files = fs_makedirs_def fs_is_file_def fs_mkdir_def fs_mkdir1_def fs_exists_def fs_is_dir_def fs_lookup_def
    is_dir_inode_def
  have "fs1 = \<lparr>fs_nodes = [([''t''], \<lparr>i_node = DirNode, i_mtime = 2\<rparr>), ([''t'', ''input''], \<lparr>i_node = DirNode, i_mtime = 2\<rparr>)],
      fs_clock = 2\<rparr>"
    using assms by (simp add: files demo_target_def fs_stamp_def fs_put_def)
  then show ?thesis
    by (simp add: files slipping_archive_def extract_member_def member_parts_def Let_def ends_with_def starts_with_def
        fs_write_file_def)
qed

theorem upload_delivered_witness:
  "\<exists>f objects' fs'. fetch_for_job (memory_hf_hub_client []) (memory_object_storage ''http://localhost:8000'') [''cache''] 1000
      uploaded_job [''t''] ([(''uploads/u1/d.zip'', ZipArchive slipping_archive)], demo_target) = (Inr f, (objects', fs')) \<and>
    fs_read fs' [''t'', ''input'', ''model''] = Inr (RawBytes ''abc'') \<and> fs_read fs' [''model''] = Inl (FileNotFoundError ''/model'')"
proof -
  let ?S = "memory_object_storage ''http://localhost:8000''" and ?objects = "[(''uploads/u1/d.zip'', ZipArchive slipping_archive)]"
  have job: "j_source_type uploaded_job = ZIP_UPLOAD" "j_source_ref uploaded_job = ''uploads/u1/d.zip''"
    by (simp_all add: uploaded_job_def)
  have "\<exists>u fs1. fs_makedirs [''t'', ''input''] demo_target = (Inr u, fs1)"
    by (simp add: fs_makedirs_def fs_is_file_def fs_lookup_def demo_target_def is_dir_inode_def)
  then obtain u fs1 where m: "fs_makedirs [''t'', ''input''] demo_target = (Inr u, fs1)" by blast
  from demo_extracts [OF m] obtain fs' where "extract_all [''t'', ''input''] slipping_archive fs1 = (Inr (), fs')" ..
  moreover have "os_open_read_stream ?S ?objects ''uploads/u1/d.zip'' = Inr (ZipArchive slipping_archive)"
    by (rule memo.read_law) simp
  ultimately have "\<exists>f objects' fs'. fetch_for_job (memory_hf_hub_client []) ?S [''cache''] 1000 uploaded_job [''t'']
      (?objects, demo_target) = (Inr f, (objects', fs'))"
    using m by (simp add: fetch_for_job_def job extract_zip_upload_def)
  then obtain f objects' fs' where run: "fetch_for_job (memory_hf_hub_client []) ?S [''cache''] 1000 uploaded_job [''t'']
      (?objects, demo_target) = (Inr f, (objects', fs'))" by blast
  have stored: "map_of ?objects (j_source_ref uploaded_job) = Some (ZipArchive slipping_archive)" by (simp add: job)
  have names: "distinct (map (\<lambda>m. member_parts (zm_name m)) slipping_archive)" by (simp add: slipping_archive_def)
  note all = upload_delivered [OF memo.object_store_axioms job(1) stored names run]
  have "ZipMember ''../../model'' 3 (RawBytes ''abc'') \<in> set slipping_archive" "\<not> ends_with ''/'' ''../../model''"
    "member_parts ''../../model'' = [''model'']"
    by (simp_all add: slipping_archive_def ends_with_def starts_with_def member_parts_def)
  with all have "fs_read fs' [''t'', ''input'', ''model''] = Inr (RawBytes ''abc'')" by fastforce
  moreover have "fs_lookup fs' [''model''] = fs_lookup demo_target [''model'']"
    using all by (simp add: within_dir_def)
  then have "fs_read fs' [''model''] = Inl (FileNotFoundError ''/model'')"
    by (simp add: fs_read_def fs_lookup_def demo_target_def string_of_path_def)
  ultimately show ?thesis using run by blast
qed

end
