(* ===== verification/Train_Entrypoint.thy ===== *)
theory Train_Entrypoint
  imports Progress_Reader Heartbeat Job_Service Job_Poller
begin

text \<open>
  The container's side of the contract: \<open>docker/act/train_entrypoint.py\<close> and
  \<open>docker/smolvla/train_entrypoint.py\<close>, which differ in the policy they configure. \<open>lerobot\<close> and
  \<open>torch\<close> are a parameter, a \<open>lerobot_api\<close> whose state holds policy, optimizer and scheduler. The
  clocks are functions from the step to their reading: \<open>monotonic\<close> in microseconds, reading 0 before the
  first step, and \<open>wall\<close>. The result \<open>None\<close> is a run that hangs.
\<close>

subsection \<open>The packages\<close>

datatype 'v override =
    DeviceProcessor string
  | NormalizerProcessor "(string \<times> 'v) list" 'v 'v

record PolicyConfig =
  pc_type :: string
  pc_device :: string
  pc_pretrained_path :: "string option"

record 'v ProcessorArgs =
  pa_pretrained_path :: "string option"
  pa_dataset_stats :: 'v
  pa_preprocessor_overrides :: "(string \<times> 'v override) list"
  pa_postprocessor_overrides :: "(string \<times> 'v override) list"

datatype saved = Policy | Preprocessor | Postprocessor

text \<open>The arguments of \<open>EpisodeAwareSampler\<close> and \<open>DataLoader\<close> the code chooses.\<close>

record LoaderArgs =
  lo_drop_n_last_frames :: int
  lo_shuffle :: bool
  lo_seed :: int
  lo_batch_size :: int
  lo_num_workers :: int
  lo_pin_memory :: bool
  lo_drop_last :: bool
  lo_language_collate :: bool

type_synonym 't batch = "(string \<times> 't) list"

text \<open>
  \<open>la_epochs\<close> are the passes over the loader: the batches of each, \<open>Inl\<close> for one that raises when it is
  loaded.
\<close>

record ('s, 'd, 't, 'v) lerobot_api =
  la_cuda_available :: bool
  la_metadata :: "string \<Rightarrow> path \<Rightarrow> fsys \<Rightarrow> exn + 'v"
  la_resolve_delta_timestamps :: "PolicyConfig \<Rightarrow> 'v \<Rightarrow> exn + 'v"
  la_dataset :: "string \<Rightarrow> path \<Rightarrow> 'v \<Rightarrow> bool \<Rightarrow> fsys \<Rightarrow> exn + 'd"
  la_make_policy :: "PolicyConfig \<Rightarrow> 'd \<Rightarrow> exn + 's"
  la_make_processors :: "PolicyConfig \<Rightarrow> 'v ProcessorArgs \<Rightarrow> 's \<Rightarrow> exn + 's"
  la_drop_n_last_frames :: "PolicyConfig \<Rightarrow> int option"
  la_has_language_columns :: "'d \<Rightarrow> bool"
  la_epochs :: "'d \<Rightarrow> LoaderArgs \<Rightarrow> nat \<Rightarrow> (exn + 't batch) list"
  la_stats :: "'d \<Rightarrow> 'v"
  la_camera_keys :: "'d \<Rightarrow> string list"
  la_input_features :: "'s \<Rightarrow> (string \<times> 'v) list"
  la_output_features :: "'s \<Rightarrow> (string \<times> 'v) list"
  la_normalization_mapping :: "'s \<Rightarrow> 'v"
  la_is_uint8 :: "'t \<Rightarrow> bool"
  la_unit_float :: "'t \<Rightarrow> 't"
  la_build_optimizer :: "int \<Rightarrow> 's \<Rightarrow> exn + 's"
  la_train :: "'s \<Rightarrow> 's"
  la_eval :: "'s \<Rightarrow> 's"
  la_preprocess :: "'t batch \<Rightarrow> 's \<Rightarrow> exn + 't batch"
  la_forward :: "'t batch \<Rightarrow> 's \<Rightarrow> exn + pyfloat \<times> 's"
  la_backward :: "'s \<Rightarrow> exn + 's"
  la_clip_grad_norm :: "'s \<Rightarrow> 's"
  la_optimizer_step :: "'s \<Rightarrow> exn + 's"
  la_zero_grad :: "'s \<Rightarrow> 's"
  la_scheduler_step :: "('s \<Rightarrow> 's) option"
  la_policy_update :: "('s \<Rightarrow> 's) option"
  la_save_pretrained :: "saved \<Rightarrow> 's \<Rightarrow> path \<Rightarrow> fsys \<Rightarrow> (fsys, unit) outcome"

subsection \<open>Arguments\<close>

record TrainArgs =
  ta_source_type :: string
  ta_source_ref :: string
  ta_training_steps :: int
  ta_input_dir :: string
  ta_output_dir :: string

text \<open>
  \<open>argparse\<close> on what the worker passes, a list of options and values: an option takes the next
  argument, unless that one looks like an option itself (it starts with a dash, has no blank and is no
  negative number); the last value of a repeated option counts; errors exit with status 2. Abbreviated
  options, \<open>--option=value\<close> and \<open>--help\<close>, which \<open>argparse\<close> adds, are not modelled. \<open>int(text)\<close> is
  modelled for digits after an optional sign.
\<close>

definition OPTIONS :: "string list" where
  "OPTIONS = [''--source-type'', ''--source-ref'', ''--training-steps'', ''--input-dir'', ''--output-dir'']"

definition is_digits :: "string \<Rightarrow> bool" where
  "is_digits s \<longleftrightarrow> s \<noteq> [] \<and> list_all (\<lambda>c. c \<in> set ''0123456789'') s"

definition negative_number :: "string \<Rightarrow> bool" where
  "negative_number s \<longleftrightarrow>
     (case s of
        [] \<Rightarrow> False
      | sign # cs \<Rightarrow>
          sign = CHR ''-'' \<and>
          (is_digits cs \<or>
           (let whole = takeWhile (\<lambda>c. c \<noteq> CHR ''.'') cs; rest = dropWhile (\<lambda>c. c \<noteq> CHR ''.'') cs
            in (whole = [] \<or> is_digits whole) \<and> is_digits (tl rest))))"

definition looks_like_option :: "string \<Rightarrow> bool" where
  "looks_like_option s \<longleftrightarrow>
     starts_with ''-'' s \<and> s \<noteq> ''-'' \<and> (s \<in> set OPTIONS \<or> CHR '' '' \<notin> set s \<and> \<not> negative_number s)"

fun read_options :: "string list \<Rightarrow> exn + (string \<times> string) list" where
  "read_options [] = Inr []"
| "read_options [x] = Inl (SystemExit 2)"
| "read_options (option # v # rest) =
     (if option \<notin> set OPTIONS \<or> looks_like_option v then Inl (SystemExit 2)
      else and_then (read_options rest) (\<lambda>opts. Inr (if option \<in> fst ` set opts then opts else (option, v) # opts)))"

definition int_of_text :: "string \<Rightarrow> int option" where
  "int_of_text s =
     (case s of
        [] \<Rightarrow> None
      | c # cs \<Rightarrow>
          if c = CHR ''-'' then (if cs = [] then None else map_option uminus (digits_value 0 cs))
          else if c = CHR ''+'' then (if cs = [] then None else digits_value 0 cs)
          else digits_value 0 s)"

definition parse_args :: "string list \<Rightarrow> exn + TrainArgs" where
  "parse_args argv =
     and_then (read_options argv) (\<lambda>opts.
       case (map_of opts ''--source-type'', map_of opts ''--source-ref'', map_of opts ''--training-steps'',
             map_of opts ''--input-dir'', map_of opts ''--output-dir'') of
         (Some st, Some ref, Some steps, Some inp, Some outp) \<Rightarrow>
           (case int_of_text steps of
              None \<Rightarrow> Inl (SystemExit 2)
            | Some n \<Rightarrow>
                if st \<in> {''hf_hub'', ''zip_upload''}
                then Inr \<lparr>ta_source_type = st, ta_source_ref = ref, ta_training_steps = n, ta_input_dir = inp, ta_output_dir = outp\<rparr>
                else Inl (SystemExit 2))
       | _ \<Rightarrow> Inl (SystemExit 2))"

subsection \<open>Input, progress and policies\<close>

definition check_input_dir :: "path \<Rightarrow> fsys \<Rightarrow> exn + unit" where
  "check_input_dir input_dir fs =
     (if \<not> fs_is_dir fs input_dir \<or> fs_iterdir fs input_dir = []
      then Inl (FileNotFoundError (''--input-dir is missing or empty: '' @ string_of_path input_dir))
      else Inr ())"

text \<open>
  The calls \<open>write_progress\<close> makes, in their order, and what they do when nothing comes in between. The
  size of a written text is not modelled: nothing reads it.
\<close>

datatype disk_call = WriteText path blob | Replace path path

fun perform :: "disk_call \<Rightarrow> fsys \<Rightarrow> (fsys, unit) outcome" where
  "perform (WriteText p b) fs = fs_write_file p 0 b fs"
| "perform (Replace src dst) fs = fs_replace src dst fs"

fun perform_all :: "disk_call list \<Rightarrow> fsys \<Rightarrow> (fsys, unit) outcome" where
  "perform_all [] fs = (Inr (), fs)"
| "perform_all (c # cs) fs = then_do (perform c fs) (\<lambda>_. perform_all cs)"

definition progress_calls :: "datetime \<Rightarrow> path \<Rightarrow> int \<Rightarrow> int \<Rightarrow> pyfloat \<Rightarrow> disk_call list" where
  "progress_calls now output_dir step total_steps loss =
     (let progress = JObj [(''step'', JInt step), (''total_steps'', JInt total_steps), (''loss'', JFloat loss),
            (''timestamp'', JStr (isoformat now))];
          tmp_path = output_dir @ [''progress.json.tmp'']
      in [WriteText tmp_path (json_dumps progress), Replace tmp_path (output_dir @ [''progress.json''])])"

definition write_progress ::
    "datetime \<Rightarrow> path \<Rightarrow> int \<Rightarrow> int \<Rightarrow> pyfloat \<Rightarrow> fsys \<Rightarrow> (fsys, unit) outcome" where
  "write_progress now output_dir step total_steps loss = perform_all (progress_calls now output_dir step total_steps loss)"

text \<open>
  The states another process may see while the calls are made, or find when the process was killed at
  them: a text is written bit by bit, so that the file may hold anything for a while; a file is replaced
  at once.
\<close>

fun seen_at :: "disk_call \<Rightarrow> fsys \<Rightarrow> fsys \<Rightarrow> bool" where
  "seen_at (WriteText p b) fs fs' \<longleftrightarrow> fs' = fs \<or> (\<exists>sz torn. fs' = snd (fs_write_file p sz torn fs))"
| "seen_at (Replace src dst) fs fs' \<longleftrightarrow> fs' = fs \<or> fs' = snd (fs_replace src dst fs)"

fun seen_during :: "disk_call list \<Rightarrow> fsys \<Rightarrow> fsys \<Rightarrow> bool" where
  "seen_during [] fs fs' \<longleftrightarrow> fs' = fs"
| "seen_during (c # cs) fs fs' \<longleftrightarrow>
     seen_at c fs fs' \<or> (case perform c fs of (Inl e, fs1) \<Rightarrow> fs' = fs1 | (Inr u, fs1) \<Rightarrow> seen_during cs fs1 fs')"

lemma write_progress_eq:
  "write_progress now d step n loss fs =
     then_do (fs_write_file (d @ [''progress.json.tmp'']) 0
        (json_dumps (progress_json \<lparr>p_step = step, p_total_steps = n, p_loss = loss, p_updated_at = now\<rparr>)) fs)
       (\<lambda>_. fs_replace (d @ [''progress.json.tmp'']) (d @ [''progress.json'']))"
proof -
  have one: "perform_all [c] = perform c" for c
  proof
    fix fs
    show "perform_all [c] fs = perform c fs" by (cases "perform c fs"; cases "fst (perform c fs)") auto
  qed
  have "perform (Replace a b) = fs_replace a b" for a b by (rule ext) simp
  with one show ?thesis
    by (simp only: write_progress_def progress_calls_def progress_json_def Let_def perform_all.simps(2) [of "WriteText p b" for p b]
        perform.simps Progress.simps)
qed

definition BATCH_SIZE :: int where "BATCH_SIZE = 8"

definition MAX_SECONDS_BETWEEN_PROGRESS_WRITES :: timedelta where
  "MAX_SECONDS_BETWEEN_PROGRESS_WRITES = seconds 60"

definition PRETRAINED_BASE :: string where "PRETRAINED_BASE = ''lerobot/smolvla_base''"

fun build_policy_config :: "PolicyType \<Rightarrow> string \<Rightarrow> PolicyConfig" where
  "build_policy_config ACT device = \<lparr>pc_type = ''act'', pc_device = device, pc_pretrained_path = None\<rparr>"
| "build_policy_config SMOLVLA device =
     \<lparr>pc_type = ''smolvla'', pc_device = device, pc_pretrained_path = Some PRETRAINED_BASE\<rparr>"

definition load_dataset :: "('s, 'd, 't, 'v) lerobot_api \<Rightarrow> path \<Rightarrow> PolicyConfig \<Rightarrow> fsys \<Rightarrow> exn + 'd" where
  "load_dataset L input_dir policy_cfg fs =
     (let repo_id = ''local/dataset''
      in and_then (la_metadata L repo_id input_dir fs) (\<lambda>ds_meta.
         and_then (la_resolve_delta_timestamps L policy_cfg ds_meta) (\<lambda>delta_timestamps.
           la_dataset L repo_id input_dir delta_timestamps True fs)))"

text \<open>\<open>getattr(policy_cfg, "drop_n_last_frames", 0)\<close>: \<open>la_drop_n_last_frames\<close> is \<open>None\<close> without the attribute.\<close>

definition build_dataloader ::
    "('s, 'd, 't, 'v) lerobot_api \<Rightarrow> 'd \<Rightarrow> PolicyConfig \<Rightarrow> nat \<Rightarrow> (exn + 't batch) list" where
  "build_dataloader L dataset policy_cfg =
     la_epochs L dataset
       \<lparr>lo_drop_n_last_frames = (case la_drop_n_last_frames L policy_cfg of Some n \<Rightarrow> n | None \<Rightarrow> 0),
        lo_shuffle = True, lo_seed = 1000, lo_batch_size = BATCH_SIZE, lo_num_workers = 0,
        lo_pin_memory = la_cuda_available L, lo_drop_last = False,
        lo_language_collate = la_has_language_columns L dataset\<rparr>"

fun build_processors ::
    "('s, 'd, 't, 'v) lerobot_api \<Rightarrow> PolicyType \<Rightarrow> PolicyConfig \<Rightarrow> 's \<Rightarrow> 'd \<Rightarrow> exn + 's" where
  "build_processors L ACT policy_cfg policy dataset =
     la_make_processors L policy_cfg
       \<lparr>pa_pretrained_path = None, pa_dataset_stats = la_stats L dataset, pa_preprocessor_overrides = [],
        pa_postprocessor_overrides = []\<rparr> policy"
| "build_processors L SMOLVLA policy_cfg policy dataset =
     la_make_processors L policy_cfg
       \<lparr>pa_pretrained_path = pc_pretrained_path policy_cfg, pa_dataset_stats = la_stats L dataset,
        pa_preprocessor_overrides =
          [(''device_processor'', DeviceProcessor (pc_device policy_cfg)),
           (''normalizer_processor'',
            NormalizerProcessor
              (fold (\<lambda>(k, v). AList.update k v) (la_output_features L policy) (la_input_features L policy))
              (la_normalization_mapping L policy) (la_stats L dataset))],
        pa_postprocessor_overrides =
          [(''unnormalizer_processor'',
            NormalizerProcessor (la_output_features L policy) (la_normalization_mapping L policy) (la_stats L dataset))]\<rparr>
       policy"

text \<open>\<open>next\<close> of \<open>cycle(dataloader)\<close>: the cursor is the number of the epoch and what is left of it.\<close>

partial_function (option) next_batch :: "(nat \<Rightarrow> 'b list) \<Rightarrow> nat \<times> 'b list \<Rightarrow> ('b \<times> (nat \<times> 'b list)) option" where
  "next_batch epochs c =
     (case snd c of
        b # rest \<Rightarrow> Some (b, (fst c, rest))
      | [] \<Rightarrow> next_batch epochs (Suc (fst c), epochs (fst c)))"

subsection \<open>Training\<close>

record ('s, 't) trainer =
  tn_lib :: 's
  tn_cursor :: "nat \<times> (exn + 't batch) list"
  tn_last_write_at :: int
  tn_fs :: fsys

definition scale_images :: "('s, 'd, 't, 'v) lerobot_api \<Rightarrow> string list \<Rightarrow> 't batch \<Rightarrow> 't batch" where
  "scale_images L camera_keys batch =
     fold (\<lambda>cam_key b.
       case map_of b cam_key of
         Some t \<Rightarrow> if la_is_uint8 L t then AList.update cam_key (la_unit_float L t) b else b
       | None \<Rightarrow> b) camera_keys batch"

definition optional :: "('s \<Rightarrow> 's) option \<Rightarrow> 's \<Rightarrow> 's" where
  "optional f s = (case f of None \<Rightarrow> s | Some g \<Rightarrow> g s)"

definition optimise ::
    "('s, 'd, 't, 'v) lerobot_api \<Rightarrow> string list \<Rightarrow> 't batch \<Rightarrow> 's \<Rightarrow> exn + pyfloat \<times> 's" where
  "optimise L camera_keys batch s =
     and_then (la_preprocess L (scale_images L camera_keys batch) s) (\<lambda>batch.
     and_then (la_forward L batch s) (\<lambda>(loss, s).
     and_then (la_backward L s) (\<lambda>s.
     and_then (la_optimizer_step L (la_clip_grad_norm L s)) (\<lambda>s.
       Inr (loss, optional (la_policy_update L) (optional (la_scheduler_step L) (la_zero_grad L s)))))))"

definition progress_every :: "int \<Rightarrow> int" where
  "progress_every total_steps = max 1 (total_steps div 200)"

definition writes_progress :: "int \<Rightarrow> int \<Rightarrow> int \<Rightarrow> int \<Rightarrow> bool" where
  "writes_progress total_steps step now last_write_at \<longleftrightarrow>
     step mod progress_every total_steps = 0 \<or> step = total_steps \<or>
     now - last_write_at \<ge> MAX_SECONDS_BETWEEN_PROGRESS_WRITES"

definition training_step ::
    "('s, 'd, 't, 'v) lerobot_api \<Rightarrow> (nat \<Rightarrow> int) \<Rightarrow> (nat \<Rightarrow> datetime) \<Rightarrow> string list \<Rightarrow> (nat \<Rightarrow> (exn + 't batch) list) \<Rightarrow>
     int \<Rightarrow> path \<Rightarrow> int \<Rightarrow> ('s, 't) trainer \<Rightarrow> (('s, 't) trainer, unit) outcome option" where
  "training_step L monotonic wall camera_keys epochs total_steps output_dir step T =
     (case next_batch epochs (tn_cursor T) of
        None \<Rightarrow> None
      | Some (Inl e, cursor) \<Rightarrow> Some (Inl e, T\<lparr>tn_cursor := cursor\<rparr>)
      | Some (Inr batch, cursor) \<Rightarrow>
          Some
            (let T = T\<lparr>tn_cursor := cursor\<rparr>
             in case optimise L camera_keys batch (tn_lib T) of
                  Inl e \<Rightarrow> (Inl e, T)
                | Inr (loss, lib) \<Rightarrow>
                    (let T = T\<lparr>tn_lib := lib\<rparr>; now = monotonic (nat step)
                     in if writes_progress total_steps step now (tn_last_write_at T)
                        then
                          (case write_progress (wall (nat step)) output_dir step total_steps loss (tn_fs T) of
                             (Inl e, fs) \<Rightarrow> (Inl e, T\<lparr>tn_fs := fs\<rparr>)
                           | (Inr _, fs) \<Rightarrow> (Inr (), T\<lparr>tn_fs := fs, tn_last_write_at := now\<rparr>))
                        else (Inr (), T))))"

fun training_steps ::
    "('s, 'd, 't, 'v) lerobot_api \<Rightarrow> (nat \<Rightarrow> int) \<Rightarrow> (nat \<Rightarrow> datetime) \<Rightarrow> string list \<Rightarrow> (nat \<Rightarrow> (exn + 't batch) list) \<Rightarrow>
     int \<Rightarrow> path \<Rightarrow> int list \<Rightarrow> ('s, 't) trainer \<Rightarrow> (('s, 't) trainer, unit) outcome option" where
  "training_steps L monotonic wall camera_keys epochs total_steps output_dir [] T = Some (Inr (), T)"
| "training_steps L monotonic wall camera_keys epochs total_steps output_dir (step # steps) T =
     (case training_step L monotonic wall camera_keys epochs total_steps output_dir step T of
        None \<Rightarrow> None
      | Some (Inl e, T') \<Rightarrow> Some (Inl e, T')
      | Some (Inr _, T') \<Rightarrow> training_steps L monotonic wall camera_keys epochs total_steps output_dir steps T')"

definition run_training_loop ::
    "('s, 'd, 't, 'v) lerobot_api \<Rightarrow> (nat \<Rightarrow> int) \<Rightarrow> (nat \<Rightarrow> datetime) \<Rightarrow> 'd \<Rightarrow> (nat \<Rightarrow> (exn + 't batch) list) \<Rightarrow> int \<Rightarrow> path \<Rightarrow>
     's \<Rightarrow> fsys \<Rightarrow> (fsys, 's) outcome option" where
  "run_training_loop L monotonic wall dataset epochs total_steps output_dir s fs =
     (case la_build_optimizer L total_steps s of
        Inl e \<Rightarrow> Some (Inl e, fs)
      | Inr s \<Rightarrow>
          (case training_steps L monotonic wall (la_camera_keys L dataset) epochs total_steps output_dir [1..total_steps]
                  \<lparr>tn_lib = la_train L s, tn_cursor = (0, []), tn_last_write_at = monotonic 0, tn_fs = fs\<rparr> of
             None \<Rightarrow> None
           | Some (Inl e, T) \<Rightarrow> Some (Inl e, tn_fs T)
           | Some (Inr _, T) \<Rightarrow> Some (Inr (la_eval L (tn_lib T)), tn_fs T)))"

definition write_checkpoint :: "('s, 'd, 't, 'v) lerobot_api \<Rightarrow> path \<Rightarrow> 's \<Rightarrow> fsys \<Rightarrow> (fsys, unit) outcome" where
  "write_checkpoint L output_dir s fs =
     (let checkpoint_dir = output_dir @ [''checkpoint'']
      in then_do (fs_makedirs checkpoint_dir fs) (\<lambda>_ fs.
         then_do (la_save_pretrained L Policy s checkpoint_dir fs) (\<lambda>_ fs.
         then_do (la_save_pretrained L Preprocessor s checkpoint_dir fs) (\<lambda>_ fs.
           la_save_pretrained L Postprocessor s checkpoint_dir fs))))"

text \<open>The exit status of the process is 0 exactly for \<open>Inr ()\<close>.\<close>

definition train_main ::
    "('s, 'd, 't, 'v) lerobot_api \<Rightarrow> PolicyType \<Rightarrow> (nat \<Rightarrow> int) \<Rightarrow> (nat \<Rightarrow> datetime) \<Rightarrow> string list \<Rightarrow> fsys \<Rightarrow>
     (fsys, unit) outcome option" where
  "train_main L policy monotonic wall argv fs =
     (case parse_args argv of
        Inl e \<Rightarrow> Some (Inl e, fs)
      | Inr args \<Rightarrow>
          (let output_dir = path_of_string (ta_output_dir args); input_dir = path_of_string (ta_input_dir args)
           in case fs_makedirs output_dir fs of
                (Inl e, fs) \<Rightarrow> Some (Inl e, fs)
              | (Inr _, fs) \<Rightarrow>
                  (let device = (if la_cuda_available L then ''cuda'' else ''cpu'');
                       policy_cfg = build_policy_config policy device
                   in case and_then (check_input_dir input_dir fs) (\<lambda>_.
                           and_then (load_dataset L input_dir policy_cfg fs) (\<lambda>dataset.
                           and_then (la_make_policy L policy_cfg dataset) (\<lambda>s.
                           and_then (build_processors L policy policy_cfg s dataset) (\<lambda>s. Inr (dataset, s))))) of
                        Inl e \<Rightarrow> Some (Inl e, fs)
                      | Inr (dataset, s) \<Rightarrow>
                          (case run_training_loop L monotonic wall dataset (build_dataloader L dataset policy_cfg)
                                  (ta_training_steps args) output_dir s fs of
                             None \<Rightarrow> None
                           | Some (Inl e, fs) \<Rightarrow> Some (Inl e, fs)
                           | Some (Inr s, fs) \<Rightarrow> Some (write_checkpoint L output_dir s fs)))))"

subsection \<open>Arguments round trip\<close>

lemma digits_value_nat: "digits_value 0 (nat_digits n) = Some (int n)"
proof (induction n rule: nat_digits.induct)
  case (1 n)
  have digit: "digits_value a [char_of (48 + m)] = Some (10 * a + int m)" if "m < 10" for a m
    using that by (simp add: of_char_of take_bit_eq_mod)
  show ?case
  proof (cases "n < 10")
    case True
    then show ?thesis by (subst nat_digits.simps) (simp add: digit del: digits_value.simps)
  next
    case False
    then have "digits_value 0 (nat_digits (n div 10) @ [char_of (48 + n mod 10)]) = Some (10 * int (n div 10) + int (n mod 10))"
      using 1 by (simp only: digits_value_append digit) simp
    moreover have "10 * int (n div 10) + int (n mod 10) = int n" using mult_div_mod_eq [of 10 n] by linarith
    ultimately show ?thesis using False by (subst nat_digits.simps) simp
  qed
qed

lemma nat_digits_start: "\<exists>c cs. nat_digits n = c # cs \<and> c \<noteq> CHR ''-'' \<and> c \<noteq> CHR ''+''"
proof (induction n rule: nat_digits.induct)
  case (1 n)
  show ?case
  proof (cases "n < 10")
    case True
    have "of_char (char_of (48 + n) :: char) = 48 + n" using True by (simp add: of_char_of take_bit_eq_mod)
    then have "char_of (48 + n) \<noteq> c" if "of_char c < (48 :: nat)" for c using that by (metis not_add_less1)
    then have "char_of (48 + n) \<noteq> CHR ''-''" "char_of (48 + n) \<noteq> CHR ''+''" by simp_all
    with True show ?thesis by (subst nat_digits.simps) simp
  next
    case False
    with 1 obtain c cs where "nat_digits (n div 10) = c # cs" "c \<noteq> CHR ''-''" "c \<noteq> CHR ''+''" by blast
    with False show ?thesis by (subst nat_digits.simps) simp
  qed
qed

lemma int_of_text_str: "0 \<le> n \<Longrightarrow> int_of_text (str_int n) = Some n"
  using nat_digits_start [of "nat n"] digits_value_nat [of "nat n"] by (auto simp: int_of_text_def str_int_def)

lemma str_int_no_option: "0 \<le> n \<Longrightarrow> \<not> looks_like_option (str_int n)"
  using nat_digits_start [of "nat n"] by (auto simp: looks_like_option_def str_int_def starts_with_iff)

subsection \<open>Progress files\<close>

lemma map_of_rekey:
  assumes "\<And>q i. (q, i) \<in> set xs \<Longrightarrow> f q = dst \<longleftrightarrow> q = src"
  shows "map_of (map (\<lambda>(q, i). (f q, i)) xs) dst = map_of xs src"
  using assms
proof (induction xs)
  case (Cons x xs)
  obtain q i where x: "x = (q, i)" by fastforce
  from Cons.prems [of q i] x have "f q = dst \<longleftrightarrow> q = src" by simp
  moreover have "map_of (map (\<lambda>(q, i). (f q, i)) xs) dst = map_of xs src"
    by (rule Cons.IH) (use Cons.prems in auto)
  ultimately show ?case using x by (cases "q = src") (simp_all add: eq_commute)
qed simp

lemma replace_read:
  assumes "\<not> within_dir dst src" and "fs_replace src dst fs = (Inr u, fs')"
    and content: "fs_read fs src = Inr b"
  shows "fs_read fs' dst = Inr b"
proof -
  let ?kept = "filter (\<lambda>(q, _). \<not> within_dir dst q) (fs_nodes fs)"
  let ?move = "\<lambda>q. if within_dir src q then dst @ drop (length src) q else q"
  have "map_of (map (\<lambda>(q, i). (?move q, i)) ?kept) dst = map_of ?kept src"
    by (rule map_of_rekey) (auto simp: within_dir_iff split: if_splits)
  also have "\<dots> = fs_lookup fs src" using assms(1) by (simp add: map_of_filter_key fs_lookup_def)
  finally have look: "fs_lookup (fs\<lparr>fs_nodes := map (\<lambda>(q, i). (?move q, i)) ?kept\<rparr>) dst = fs_lookup fs src"
    by (simp add: fs_lookup_def)
  have "fs' = fs_stamp (butlast dst) (fs_stamp (butlast src) (fs\<lparr>fs_nodes := map (\<lambda>(q, i). (?move q, i)) ?kept\<rparr>))"
    using assms(2) by (simp add: fs_replace_def Let_def split: if_splits)
  then have "fs_read fs' dst = fs_read (fs\<lparr>fs_nodes := map (\<lambda>(q, i). (?move q, i)) ?kept\<rparr>) dst" by simp
  also have "\<dots> = Inr b" using content unfolding fs_read_def look by (auto split: option.splits node.splits)
  finally show ?thesis .
qed

lemma write_file_keeps_read:
  assumes "fs_write_file p n b fs = (r, fs')" and "q \<noteq> p"
  shows "fs_read fs' q = fs_read fs q" and "fs_exists fs' q = fs_exists fs q"
  using assms
  by (auto simp: fs_write_file_def fs_write_def Let_def fs_read_def fs_exists_def lookup_stamp split: if_splits option.splits)

lemma read_progress_cong:
  "fs_read fs' (d @ [PROGRESS_FILENAME]) = fs_read fs (d @ [PROGRESS_FILENAME]) \<Longrightarrow>
   fs_exists fs' (d @ [PROGRESS_FILENAME]) = fs_exists fs (d @ [PROGRESS_FILENAME]) \<Longrightarrow>
   read_progress d fs' = read_progress d fs"
  by (simp add: read_progress_def Let_def)

lemma write_progress_read:
  assumes run: "write_progress now d step n loss fs = (Inr u, fs')" and "python_date (date_of now)"
  shows "read_progress d fs' = Inr (Some \<lparr>p_step = step, p_total_steps = n, p_loss = loss, p_updated_at = now\<rparr>)"
proof -
  let ?p = "\<lparr>p_step = step, p_total_steps = n, p_loss = loss, p_updated_at = now\<rparr>"
  let ?tmp = "d @ [''progress.json.tmp'']"
  obtain r fs1 where w: "fs_write_file ?tmp 0 (json_dumps (progress_json ?p)) fs = (r, fs1)" by fastforce
  with run have "r = Inr ()" and mv: "fs_replace ?tmp (d @ [PROGRESS_FILENAME]) fs1 = (Inr u, fs')"
    by (cases r; simp add: write_progress_eq PROGRESS_FILENAME_def)+
  with w have "fs_read fs1 ?tmp = Inr (json_dumps (progress_json ?p))" using write_file_read by blast
  moreover have "\<not> within_dir (d @ [PROGRESS_FILENAME]) ?tmp" by (auto simp: within_dir_iff PROGRESS_FILENAME_def)
  ultimately have "fs_read fs' (d @ [PROGRESS_FILENAME]) = Inr (json_dumps (progress_json ?p))"
    using replace_read [OF _ mv] by blast
  from read_progress_json [OF this] assms(2) show ?thesis by simp
qed

text \<open>A file beside the progress file, whatever happens to it, does not change what is read.\<close>

lemma tmp_file_unread:
  assumes "fs_write_file (d @ [''progress.json.tmp'']) sz b fs = (r, fs')"
  shows "read_progress d fs' = read_progress d fs"
proof -
  have "d @ [PROGRESS_FILENAME] \<noteq> d @ [''progress.json.tmp'']" by (simp add: PROGRESS_FILENAME_def)
  from write_file_keeps_read [OF assms this] show ?thesis by (rule read_progress_cong)
qed

lemma replace_failed: "fs_replace src dst fs = (Inl e, fs') \<Longrightarrow> fs' = fs"
  by (auto simp: fs_replace_def Let_def split: if_splits)

lemma write_progress_result:
  assumes run: "write_progress now d step n loss fs = (r, fs')" and date: "python_date (date_of now)"
  shows "case r of Inl e \<Rightarrow> read_progress d fs' = read_progress d fs
    | Inr u \<Rightarrow> read_progress d fs' = Inr (Some \<lparr>p_step = step, p_total_steps = n, p_loss = loss, p_updated_at = now\<rparr>)"
proof (cases r)
  case (Inl e)
  let ?tmp = "d @ [''progress.json.tmp'']" and
    ?json = "json_dumps (progress_json \<lparr>p_step = step, p_total_steps = n, p_loss = loss, p_updated_at = now\<rparr>)"
  obtain q fs1 where w: "fs_write_file ?tmp 0 ?json fs = (q, fs1)" by fastforce
  have "fs' = fs1" using run w Inl by (cases q) (auto simp: write_progress_eq dest: replace_failed)
  with tmp_file_unread [OF w] Inl show ?thesis by simp
next
  case (Inr u)
  with write_progress_read [OF _ date] run show ?thesis by simp
qed

subsection \<open>Batches\<close>

lemma next_batch_Cons [simp]: "next_batch epochs (e, b # rest) = Some (b, (e, rest))"
  by (subst next_batch.simps) simp

lemma next_batch_Nil: "next_batch epochs (e, []) = next_batch epochs (Suc e, epochs e)"
  by (subst next_batch.simps) simp

lemma next_batch_found: "epochs (e + n) \<noteq> [] \<Longrightarrow> \<exists>b c. next_batch epochs (e, rest) = Some (b, c)"
proof (induction n arbitrary: e rest)
  case 0
  then show ?case by (cases rest; cases "epochs e") (auto simp: next_batch_Nil)
next
  case (Suc n)
  show ?case
  proof (cases rest)
    case Nil
    with Suc.IH [of "Suc e" "epochs e"] Suc.prems show ?thesis by (simp add: next_batch_Nil)
  qed auto
qed

lemma next_batch_hangs:
  fixes epochs :: "nat \<Rightarrow> 'b list"
  assumes "\<And>e. epochs e = []"
  shows "next_batch epochs (e, []) = None"
proof (rule ccontr)
  assume "next_batch epochs (e, []) \<noteq> None"
  then obtain y where "next_batch epochs (e, []) = Some y" by blast
  then have "(\<forall>e. epochs e = []) \<longrightarrow> snd (e, [] :: 'b list) \<noteq> []"
    by (rule next_batch.raw_induct [where P = "\<lambda>eps c y. (\<forall>e. eps e = []) \<longrightarrow> snd c \<noteq> []", rotated])
      (auto split: list.splits, blast)
  with assms show False by simp
qed

subsection \<open>The loop\<close>

text \<open>What a step that ends without an exception did.\<close>

lemma training_step_Inr:
  assumes "training_step L monotonic wall ks epochs n d step T = Some (Inr u, T')"
  shows "if writes_progress n step (monotonic (nat step)) (tn_last_write_at T)
    then tn_last_write_at T' = monotonic (nat step) \<and>
      (\<exists>loss. write_progress (wall (nat step)) d step n loss (tn_fs T) = (Inr (), tn_fs T'))
    else tn_last_write_at T' = tn_last_write_at T \<and> tn_fs T' = tn_fs T"
  using assms
  by (auto simp: training_step_def Let_def split: option.splits sum.splits prod.splits if_splits)

lemma training_steps_append:
  "training_steps L monotonic wall ks epochs n d (xs @ ys) T = Some (Inr u, T'') \<longleftrightarrow>
   (\<exists>T'. training_steps L monotonic wall ks epochs n d xs T = Some (Inr (), T') \<and>
      training_steps L monotonic wall ks epochs n d ys T' = Some (Inr u, T''))"
  by (induction xs arbitrary: T) (auto split: option.splits sum.splits prod.splits)

lemma training_steps_last:
  assumes "training_steps L monotonic wall ks epochs n d (xs @ [x]) T0 = Some (Inr u, T)"
  obtains T1 where "training_step L monotonic wall ks epochs n d x T1 = Some (Inr (), T)"
proof -
  from assms obtain T1 where "training_steps L monotonic wall ks epochs n d [x] T1 = Some (Inr u, T)"
    unfolding training_steps_append by blast
  then have "training_step L monotonic wall ks epochs n d x T1 = Some (Inr (), T)"
    by (cases "training_step L monotonic wall ks epochs n d x T1") (auto split: sum.splits)
  then show thesis by (rule that)
qed

lemma training_step_found:
  assumes "\<forall>e. epochs e \<noteq> []"
  shows "training_step L monotonic wall ks epochs n d step T \<noteq> None"
proof -
  obtain e rest where "tn_cursor T = (e, rest)" by fastforce
  with next_batch_found [of epochs e 0 rest] assms show ?thesis by (auto simp: training_step_def split: sum.split)
qed

lemma training_steps_found:
  "\<forall>e. epochs e \<noteq> [] \<Longrightarrow> training_steps L monotonic wall ks epochs n d steps T \<noteq> None"
proof (induction steps arbitrary: T)
  case (Cons step steps)
  obtain r T' where "training_step L monotonic wall ks epochs n d step T = Some (r, T')"
    using training_step_found [OF Cons.prems, of L monotonic wall ks n d step T] by fastforce
  with Cons show ?case by (cases r) simp_all
qed simp

lemma loop_Inr:
  assumes "run_training_loop L monotonic wall dataset epochs n d s fs = Some (Inr s', fs')"
  obtains s0 T where "training_steps L monotonic wall (la_camera_keys L dataset) epochs n d [1..n]
        \<lparr>tn_lib = s0, tn_cursor = (0, []), tn_last_write_at = monotonic 0, tn_fs = fs\<rparr> = Some (Inr (), T)"
    and "fs' = tn_fs T"
  using assms by (auto simp: run_training_loop_def split: option.splits sum.splits prod.splits)

end
