(* ===== verification/Training_Properties.thy ===== *)
theory Training_Properties
  imports Train_Entrypoint Checkpoint_Packager
begin

text \<open>
  The properties of the training entrypoints, alone and together with the worker's end of the contract:
  the container specification, the progress file, the heartbeat rules and the checkpoint.
\<close>

subsection \<open>A trainer\<close>

text \<open>A library whose policy has nothing to learn, an empty output directory, and what runs over them.\<close>

definition demo_lerobot :: "(unit, unit, unit, unit) lerobot_api" where
  "demo_lerobot =
     \<lparr>la_cuda_available = False, la_metadata = (\<lambda>_ _ _. Inr ()),
      la_resolve_delta_timestamps = (\<lambda>_ _. Inr ()), la_dataset = (\<lambda>_ _ _ _ _. Inr ()), la_make_policy = (\<lambda>_ _. Inr ()),
      la_make_processors = (\<lambda>_ _ _. Inr ()), la_drop_n_last_frames = (\<lambda>_. None),
      la_has_language_columns = (\<lambda>_. False), la_epochs = (\<lambda>_ _ _. [Inr []]), la_stats = (\<lambda>_. ()),
      la_camera_keys = (\<lambda>_. []), la_input_features = (\<lambda>_. []), la_output_features = (\<lambda>_. []),
      la_normalization_mapping = (\<lambda>_. ()), la_is_uint8 = (\<lambda>_. False), la_unit_float = id,
      la_build_optimizer = (\<lambda>_ _. Inr ()), la_train = id, la_eval = id, la_preprocess = (\<lambda>b _. Inr b),
      la_forward = (\<lambda>_ _. Inr (Fin 1, ())), la_backward = (\<lambda>_. Inr ()), la_clip_grad_norm = id,
      la_optimizer_step = (\<lambda>_. Inr ()), la_zero_grad = id, la_scheduler_step = None, la_policy_update = None,
      la_save_pretrained = (\<lambda>_ _ _ fs. (Inr (), fs))\<rparr>"

definition demo_output :: fsys where
  "demo_output = \<lparr>fs_nodes = [([''o''], \<lparr>i_node = DirNode, i_mtime = 0\<rparr>)], fs_clock = 0\<rparr>"

lemma demo_write:
  "write_progress t [''o''] k n x fs = (Inr (), snd (write_progress t [''o''] k n x fs))"
  if "fs_is_dir fs [''o'']" "\<not> fs_is_dir fs [''o'', ''progress.json.tmp'']" "\<not> fs_is_dir fs [''o'', ''progress.json'']"
  using that
  by (simp add: write_progress_eq Let_def fs_write_file_def fs_replace_def fs_write_def fs_exists_def fs_is_dir_def
      is_dir_inode_def lookup_stamp then_do_def split: option.splits if_splits)

lemma demo_step:
  assumes "fs_is_dir (tn_fs T) [''o'']" "\<not> fs_is_dir (tn_fs T) [''o'', ''progress.json.tmp'']"
    "\<not> fs_is_dir (tn_fs T) [''o'', ''progress.json'']" and cursor: "tn_cursor T = (e, [])"
  shows "\<exists>T'. training_step demo_lerobot monotonic wall [] (\<lambda>_. [Inr []]) n [''o''] k T = Some (Inr (), T') \<and>
    tn_cursor T' = (Suc e, [])"
proof -
  have "next_batch (\<lambda>_. [Inr []]) (tn_cursor T) = Some (Inr [] :: exn + unit batch, (Suc e, []))"
    by (simp add: cursor next_batch_Nil)
  moreover have "optimise demo_lerobot [] [] () = Inr (Fin 1, ())"
    by (simp add: optimise_def demo_lerobot_def scale_images_def optional_def)
  moreover obtain fs' where "write_progress (wall (nat k)) [''o''] k n (Fin 1) (tn_fs T) = (Inr (), fs')"
    using demo_write [OF assms(1-3)] by metis
  ultimately show ?thesis by (simp add: training_step_def Let_def)
qed

lemma demo_first_training_step:
  "\<exists>T. training_steps demo_lerobot monotonic wall [] (\<lambda>_. [Inr []]) n [''o''] [1..1]
     \<lparr>tn_lib = (), tn_cursor = (0, []), tn_last_write_at = t, tn_fs = demo_output\<rparr> = Some (Inr (), T)"
proof -
  have "[1..1 :: int] = [1]" by simp
  then show ?thesis
    using demo_step [of "\<lparr>tn_lib = (), tn_cursor = (0, []), tn_last_write_at = t, tn_fs = demo_output\<rparr>" 0 monotonic wall n 1]
    by (auto simp: demo_output_def fs_is_dir_def fs_lookup_def is_dir_inode_def)
qed

lemma demo_loop:
  "\<exists>fs'. run_training_loop demo_lerobot monotonic wall () (\<lambda>_. [Inr []]) 1 [''o''] () demo_output = Some (Inr (), fs')"
proof -
  have "la_build_optimizer demo_lerobot 1 () = Inr ()" "la_camera_keys demo_lerobot () = []" by (simp_all add: demo_lerobot_def)
  with demo_first_training_step [of monotonic wall 1 "monotonic 0"] show ?thesis
    by (auto simp: run_training_loop_def)
qed

text \<open>The last report of a loop that ends without an exception.\<close>

lemma loop_reports:
  assumes run: "run_training_loop L monotonic wall dataset epochs n d s fs = Some (Inr s', fs')"
    and n: "1 \<le> n" and date: "python_date (date_of (wall (nat n)))"
  shows "\<exists>loss. read_progress d fs' =
    Inr (Some \<lparr>p_step = n, p_total_steps = n, p_loss = loss, p_updated_at = wall (nat n)\<rparr>)"
proof -
  obtain s0 T where T: "training_steps L monotonic wall (la_camera_keys L dataset) epochs n d [1..n]
        \<lparr>tn_lib = s0, tn_cursor = (0, []), tn_last_write_at = monotonic 0, tn_fs = fs\<rparr> = Some (Inr (), T)"
    and fs': "fs' = tn_fs T" using run by (rule loop_Inr)
  have "[1..n] = [1..n - 1] @ [n]" using n by (rule upto_rec2)
  with T obtain T0 where "training_step L monotonic wall (la_camera_keys L dataset) epochs n d n T0 = Some (Inr (), T)"
    using training_steps_last by metis
  from training_step_Inr [OF this] obtain loss where
    "write_progress (wall (nat n)) d n n loss (tn_fs T0) = (Inr (), tn_fs T)" by (auto simp: writes_progress_def)
  from write_progress_read [OF this date] fs' show ?thesis by blast
qed

subsection \<open>From the exit status to the checkpoint\<close>

text \<open>\<open>save_pretrained(d)\<close> writes below \<open>d\<close> and removes no directory.\<close>

definition saves_below :: "('s, 'd, 't, 'v) lerobot_api \<Rightarrow> bool" where
  "saves_below L \<longleftrightarrow>
     (\<forall>part s d fs fs'. la_save_pretrained L part s d fs = (Inr (), fs') \<longrightarrow>
        (\<forall>p. fs_is_dir fs p \<longrightarrow> fs_is_dir fs' p) \<and> (\<forall>p. \<not> within_dir d p \<longrightarrow> fs_lookup fs' p = fs_lookup fs p))"

lemma then_do_Inr: "then_do r f = (Inr x, s) \<longleftrightarrow> (\<exists>y s'. r = (Inr y, s') \<and> f y s' = (Inr x, s))"
  by (cases r; cases "fst r") auto

lemma saved_checkpoint:
  assumes L: "saves_below L" and run: "write_checkpoint L d s fs = (Inr u, fs')"
  shows "fs_is_dir fs' (d @ [''checkpoint''])"
    and "fs_read fs (d @ [PROGRESS_FILENAME]) = Inr b \<Longrightarrow> fs_read fs' (d @ [PROGRESS_FILENAME]) = Inr b"
proof -
  let ?c = "d @ [''checkpoint'']" and ?p = "d @ [PROGRESS_FILENAME]"
  from run obtain v fs1 fs2 fs3 where mk: "fs_makedirs ?c fs = (Inr v, fs1)"
    and saves: "la_save_pretrained L Policy s ?c fs1 = (Inr (), fs2)" "la_save_pretrained L Preprocessor s ?c fs2 = (Inr (), fs3)"
      "la_save_pretrained L Postprocessor s ?c fs3 = (Inr (), fs')"
    by (auto simp: write_checkpoint_def Let_def then_do_Inr)
  note dirs = L [unfolded saves_below_def, rule_format, THEN conjunct1, rule_format]
    and rest = L [unfolded saves_below_def, rule_format, THEN conjunct2, rule_format]
  have "fs_is_dir fs1 ?c" using makedirs_is_dir [OF mk] by simp
  then show "fs_is_dir fs' ?c" using dirs [OF saves(1)] dirs [OF saves(2)] dirs [OF saves(3)] by blast
  have "\<not> within_dir ?c ?p" by (simp add: within_dir_def PROGRESS_FILENAME_def)
  then have "fs_lookup fs' ?p = fs_lookup fs1 ?p" using rest [OF saves(1)] rest [OF saves(2)] rest [OF saves(3)] by simp
  moreover assume "fs_read fs ?p = Inr b"
  then have "fs_read fs1 ?p = Inr b" using makedirs_keeps [of fs ?p b ?c] mk by simp
  ultimately show "fs_read fs' ?p = Inr b" using read_cong by metis
qed

lemma read_progress_file: "read_progress d fs = Inr (Some p) \<Longrightarrow> \<exists>b. fs_read fs (d @ [PROGRESS_FILENAME]) = Inr b"
  by (cases "fs_read fs (d @ [PROGRESS_FILENAME])")
    (auto simp: read_progress_def Let_def split: if_splits sum.splits)

lemma train_main_Inr:
  assumes "train_main L policy monotonic wall argv fs = Some (Inr u, fs')" and "parse_args argv = Inr args"
  obtains dataset epochs s s' fs0 fs1 where
    "run_training_loop L monotonic wall dataset epochs (ta_training_steps args) (path_of_string (ta_output_dir args)) s fs0 =
       Some (Inr s', fs1)"
    and "write_checkpoint L (path_of_string (ta_output_dir args)) s' fs1 = (Inr u, fs')"
  using assms by (auto simp: train_main_def Let_def split: sum.splits prod.splits option.splits)

subsection \<open>Properties\<close>

text \<open>
  C37: What the worker asks for is what the container trains: the arguments of the container
  specification parse to the job's source, its steps and the two mounted directories, for every job
  with a source reference that does not look like an option.
\<close>

theorem trainer_arguments:
  assumes "0 \<le> j_training_steps job" and "\<not> starts_with ''-'' (j_source_ref job)"
  shows "parse_args (cs_command (build_container_spec settings job job_dir dataset)) =
    Inr \<lparr>ta_source_type = source_type_value (j_source_type job), ta_source_ref = j_source_ref job,
         ta_training_steps = j_training_steps job, ta_input_dir = ''/workspace/input'',
         ta_output_dir = ''/workspace/output''\<rparr>"
proof -
  have "\<not> looks_like_option (j_source_ref job)" "\<not> looks_like_option (str_int (j_training_steps job))"
    using assms by (simp_all add: looks_like_option_def [of "j_source_ref job"] str_int_no_option)
  moreover have "\<not> looks_like_option ''/workspace/input''" "\<not> looks_like_option ''/workspace/output''"
    "\<not> looks_like_option (source_type_value t)" for t
    by (cases t; simp add: looks_like_option_def starts_with_def)+
  moreover have "source_type_value t \<in> {''hf_hub'', ''zip_upload''}" for t by (cases t) simp_all
  ultimately show ?thesis
    using int_of_text_str [OF assms(1)]
    by (simp add: parse_args_def build_container_spec_def Let_def OPTIONS_def)
qed

theorem trainer_arguments_witness:
  "parse_args (cs_command (build_container_spec default_worker_settings
       (new_job ''j1'' ''u1'' ACT HF_HUB ''org/repo'' 100 0) ''/jobs/j1'' \<lparr>fd_input_dir = [''c''], fd_read_only = True\<rparr>)) =
     Inr \<lparr>ta_source_type = ''hf_hub'', ta_source_ref = ''org/repo'', ta_training_steps = 100,
          ta_input_dir = ''/workspace/input'', ta_output_dir = ''/workspace/output''\<rparr>"
  using trainer_arguments [of "new_job ''j1'' ''u1'' ACT HF_HUB ''org/repo'' 100 0" default_worker_settings "''/jobs/j1''"
      "\<lparr>fd_input_dir = [''c''], fd_read_only = True\<rparr>"]
  by (simp add: new_job_def starts_with_def)

text \<open>
  C36: The progress file is handed over in one piece. Whenever the worker looks while \<open>write_progress\<close> runs,
  or after the trainer was killed in the middle of it, it reads what it read before or exactly the step, the
  total, the loss and the time that are being written: never a half-written file. If the call succeeds, it is
  the latter, and if it raises, the former. (The worker's read is one step, a text is written bit by bit, and
  \<open>os.replace\<close> is atomic, as POSIX says of a rename.)
\<close>

theorem progress_handover:
  assumes date: "python_date (date_of now)" and run: "write_progress now d step n loss fs = (r, fs')"
    and seen: "seen_during (progress_calls now d step n loss) fs fs1"
  shows "read_progress d fs1 \<in>
      {read_progress d fs, Inr (Some \<lparr>p_step = step, p_total_steps = n, p_loss = loss, p_updated_at = now\<rparr>)} \<and>
    (case r of
       Inl e \<Rightarrow> read_progress d fs' = read_progress d fs
     | Inr u \<Rightarrow> read_progress d fs' = Inr (Some \<lparr>p_step = step, p_total_steps = n, p_loss = loss, p_updated_at = now\<rparr>))"
proof -
  let ?p = "\<lparr>p_step = step, p_total_steps = n, p_loss = loss, p_updated_at = now\<rparr>" and ?tmp = "d @ [''progress.json.tmp'']"
  note result = write_progress_result [OF run date]
  obtain q fs2 where w: "fs_write_file ?tmp 0 (json_dumps (progress_json ?p)) fs = (q, fs2)" by fastforce
  have torn: "read_progress d (snd (fs_write_file ?tmp sz b fs)) = read_progress d fs" for sz b
    using tmp_file_unread [OF prod.collapse [symmetric]] .
  have calls: "progress_calls now d step n loss =
      [WriteText ?tmp (json_dumps (progress_json ?p)), Replace ?tmp (d @ [''progress.json''])]"
    by (simp add: progress_calls_def progress_json_def Let_def)
  have "read_progress d fs1 = read_progress d fs \<or> fs1 = fs2 \<or> fs1 = fs'"
    using seen run w torn unfolding calls write_progress_eq by (cases q) (auto split: prod.splits sum.splits)
  with torn [of 0 "json_dumps (progress_json ?p)"] w result show ?thesis by (cases r) auto
qed

theorem progress_handover_witness:
  "\<exists>fs'. write_progress 0 [''o''] 1 2 (Fin 1) demo_output = (Inr (), fs') \<and>
     read_progress [''o''] fs' = Inr (Some \<lparr>p_step = 1, p_total_steps = 2, p_loss = Fin 1, p_updated_at = 0\<rparr>)"
proof -
  have run: "write_progress 0 [''o''] 1 2 (Fin 1) demo_output = (Inr (), snd (write_progress 0 [''o''] 1 2 (Fin 1) demo_output))"
    by (rule demo_write) (simp_all add: demo_output_def fs_is_dir_def fs_lookup_def is_dir_inode_def)
  have "python_date (date_of 0)" by (simp add: python_date_def EPOCH_ORDINAL_def date_of_def)
  moreover have "seen_during (progress_calls 0 [''o''] 1 2 (Fin 1)) demo_output demo_output"
    by (simp add: progress_calls_def Let_def)
  ultimately show ?thesis using progress_handover [OF _ run, of demo_output] run by auto
qed

text \<open>
  C38: A training loop that succeeds has reported its end: the last progress the worker can read is
  the last of all steps, at the time of that step.
\<close>

theorem training_reports:
  assumes run: "run_training_loop L monotonic wall dataset epochs n d s fs = Some (Inr s', fs')"
    and n: "1 \<le> n" and date: "python_date (date_of (wall (nat n)))"
  shows "\<exists>loss. read_progress d fs' =
    Inr (Some \<lparr>p_step = n, p_total_steps = n, p_loss = loss, p_updated_at = wall (nat n)\<rparr>)"
  by (rule loop_reports [OF assms])

theorem training_reports_witness:
  "\<exists>fs' loss. run_training_loop demo_lerobot (\<lambda>_. 0) (\<lambda>_. 0) () (\<lambda>_. [Inr []]) 1 [''o''] () demo_output = Some (Inr (), fs') \<and>
     read_progress [''o''] fs' = Inr (Some \<lparr>p_step = 1, p_total_steps = 1, p_loss = loss, p_updated_at = 0\<rparr>)"
proof -
  obtain fs' where run: "run_training_loop demo_lerobot (\<lambda>_. 0) (\<lambda>_. 0) () (\<lambda>_. [Inr []]) 1 [''o''] () demo_output = Some (Inr (), fs')"
    using demo_loop by blast
  have "python_date (date_of 0)" by (simp add: python_date_def EPOCH_ORDINAL_def date_of_def)
  with training_reports [OF run] run show ?thesis by auto
qed

text \<open>The report that the file holds after \<open>j\<close> steps; 0 stands for the start of the loop.\<close>

lemma last_report:
  assumes "training_steps L monotonic wall ks epochs n d [1..int j] T0 = Some (Inr (), T)"
    and "tn_last_write_at T0 = monotonic 0"
  shows "\<exists>m. 0 \<le> m \<and> m \<le> int j \<and> tn_last_write_at T = monotonic (nat m) \<and> (m = 0 \<longrightarrow> tn_fs T = tn_fs T0) \<and>
    (0 < m \<longrightarrow> (\<exists>loss fs. write_progress (wall (nat m)) d m n loss fs = (Inr (), tn_fs T))) \<and>
    (0 < j \<longrightarrow> m = int j \<or> \<not> writes_progress n (int j) (monotonic j) (monotonic (nat m)))"
  using assms(1)
proof (induction j arbitrary: T)
  case 0
  with assms(2) show ?case by (intro exI [of _ 0]) simp
next
  case (Suc j)
  have "[1..int (Suc j)] = [1..int j] @ [int (Suc j)]" using upto_rec2 [of 1 "int (Suc j)"] by simp
  with Suc.prems have "training_steps L monotonic wall ks epochs n d ([1..int j] @ [int (Suc j)]) T0 = Some (Inr (), T)"
    by (simp only:)
  then obtain T1 where T1: "training_steps L monotonic wall ks epochs n d [1..int j] T0 = Some (Inr (), T1)"
    and steps: "training_steps L monotonic wall ks epochs n d [int (Suc j)] T1 = Some (Inr (), T)"
    unfolding training_steps_append by blast
  from steps have "training_step L monotonic wall ks epochs n d (int (Suc j)) T1 = Some (Inr (), T)"
    by (cases "training_step L monotonic wall ks epochs n d (int (Suc j)) T1") (auto split: sum.splits simp del: of_nat_Suc)
  note last = training_step_Inr [OF this, unfolded nat_int]
  obtain m where m: "0 \<le> m" "m \<le> int j" "tn_last_write_at T1 = monotonic (nat m)" "m = 0 \<longrightarrow> tn_fs T1 = tn_fs T0"
    "0 < m \<longrightarrow> (\<exists>loss fs. write_progress (wall (nat m)) d m n loss fs = (Inr (), tn_fs T1))"
    using Suc.IH [OF T1] by blast
  show ?case
  proof (cases "writes_progress n (int (Suc j)) (monotonic (Suc j)) (tn_last_write_at T1)")
    case True
    with last show ?thesis by (intro exI [of _ "int (Suc j)"]) (auto simp del: of_nat_Suc)
  next
    case False
    with last m show ?thesis by (intro exI [of _ m]) auto
  qed
qed

text \<open>
  C35: A training that steps in time is never taken for dead. After every step \<open>k\<close> of the loop the file holds
  the report of a step \<open>m\<close>, with its loss and its time, that was made less than 60 seconds before (or, for
  \<open>m = 0\<close>, the loop started less than 60 seconds before, and the file is as it was); it is the report of \<open>k\<close>
  itself at every 200th part of the training and at its end. So if the next step takes no longer than 60
  seconds, less than the training timeout of the heartbeat rules has passed at its end since the report the
  file holds. (A slower step may time out: the loop reports between steps only.)
\<close>

theorem progress_cadence:
  assumes run: "training_steps L monotonic wall ks epochs n d [1..k] T0 = Some (Inr (), T)" and k: "1 \<le> k"
    and start: "tn_last_write_at T0 = monotonic 0" and dates: "\<And>i. python_date (date_of (wall i))"
  shows "\<exists>m. 0 \<le> m \<and> m \<le> k \<and>
    (m = 0 \<longrightarrow> read_progress d (tn_fs T) = read_progress d (tn_fs T0)) \<and>
    (0 < m \<longrightarrow> (\<exists>loss. read_progress d (tn_fs T) =
       Inr (Some \<lparr>p_step = m, p_total_steps = n, p_loss = loss, p_updated_at = wall (nat m)\<rparr>))) \<and>
    monotonic (nat k) - monotonic (nat m) < seconds 60 \<and>
    (k mod max 1 (n div 200) = 0 \<or> k = n \<longrightarrow> m = k) \<and>
    (monotonic (nat (k + 1)) - monotonic (nat k) \<le> seconds 60 \<longrightarrow>
       monotonic (nat (k + 1)) - monotonic (nat m) < TRAINING_TIMEOUT)"
proof -
  have "training_steps L monotonic wall ks epochs n d [1..int (nat k)] T0 = Some (Inr (), T)" using run k by simp
  from last_report [OF this start] k obtain m where m: "0 \<le> m" "m \<le> k" "m = 0 \<longrightarrow> tn_fs T = tn_fs T0"
    and written: "0 < m \<longrightarrow> (\<exists>loss fs. write_progress (wall (nat m)) d m n loss fs = (Inr (), tn_fs T))"
    and last: "m = k \<or> \<not> writes_progress n k (monotonic (nat k)) (monotonic (nat m))" by auto
  have report: "\<exists>loss. read_progress d (tn_fs T) =
      Inr (Some \<lparr>p_step = m, p_total_steps = n, p_loss = loss, p_updated_at = wall (nat m)\<rparr>)" if "0 < m"
    using written that write_progress_read [OF _ dates] by blast
  have close: "monotonic (nat k) - monotonic (nat m) < seconds 60" "k mod max 1 (n div 200) = 0 \<or> k = n \<longrightarrow> m = k"
    using last by (auto simp: writes_progress_def progress_every_def MAX_SECONDS_BETWEEN_PROGRESS_WRITES_def seconds_def)
  then have "monotonic (nat (k + 1)) - monotonic (nat m) < TRAINING_TIMEOUT"
    if "monotonic (nat (k + 1)) - monotonic (nat k) \<le> seconds 60"
    using that by (simp add: TRAINING_TIMEOUT_def minutes_def seconds_def)
  with m report close show ?thesis by (intro exI [of _ m]) simp
qed

theorem progress_cadence_witness:
  "\<exists>T loss. training_steps demo_lerobot (\<lambda>k. seconds (int k)) (\<lambda>_. 0) [] (\<lambda>_. [Inr []]) 1 [''o''] [1..1]
      \<lparr>tn_lib = (), tn_cursor = (0, []), tn_last_write_at = 0, tn_fs = demo_output\<rparr> = Some (Inr (), T) \<and>
    read_progress [''o''] (tn_fs T) = Inr (Some \<lparr>p_step = 1, p_total_steps = 1, p_loss = loss, p_updated_at = 0\<rparr>)"
proof -
  obtain T where T: "training_steps demo_lerobot (\<lambda>k. seconds (int k)) (\<lambda>_. 0) [] (\<lambda>_. [Inr []]) 1 [''o''] [1..1]
      \<lparr>tn_lib = (), tn_cursor = (0, []), tn_last_write_at = 0, tn_fs = demo_output\<rparr> = Some (Inr (), T)"
    using demo_first_training_step [of "\<lambda>k. seconds (int k)" "\<lambda>_. 0" 1 0] by blast
  have date: "python_date (date_of 0)" by (simp add: python_date_def EPOCH_ORDINAL_def date_of_def)
  from progress_cadence [OF T _ _ date] have "\<exists>loss. read_progress [''o''] (tn_fs T) =
      Inr (Some \<lparr>p_step = 1, p_total_steps = 1, p_loss = loss, p_updated_at = 0\<rparr>)" by (auto simp: seconds_def)
  with T show ?thesis by blast
qed

text \<open>
  C39: The loop ends if there is something to train on: when every pass over the data set has a batch,
  the training returns or raises. On a data set without a single batch it never gets past its first
  step: \<open>cycle\<close> looks for a batch for ever, no progress is written and no exit code tells the worker.
\<close>

theorem training_returns:
  shows "((\<forall>e. epochs e \<noteq> []) \<longrightarrow> run_training_loop L monotonic wall dataset epochs n d s fs \<noteq> None) \<and>
    ((\<forall>e. epochs e = []) \<and> la_build_optimizer L n s = Inr s0 \<and> 1 \<le> n \<longrightarrow>
       run_training_loop L monotonic wall dataset epochs n d s fs = None)"
proof (intro conjI impI)
  assume full: "\<forall>e. epochs e \<noteq> []"
  show "run_training_loop L monotonic wall dataset epochs n d s fs \<noteq> None"
  proof (cases "la_build_optimizer L n s")
    case (Inr s0)
    obtain r T where "training_steps L monotonic wall (la_camera_keys L dataset) epochs n d [1..n]
        \<lparr>tn_lib = la_train L s0, tn_cursor = (0, []), tn_last_write_at = monotonic 0, tn_fs = fs\<rparr> = Some (r, T)"
      using training_steps_found [OF full] by (metis not_None_eq surj_pair)
    with Inr show ?thesis by (cases r) (simp_all add: run_training_loop_def)
  qed (simp add: run_training_loop_def)
next
  assume empty: "(\<forall>e. epochs e = []) \<and> la_build_optimizer L n s = Inr s0 \<and> 1 \<le> n"
  then have "[1..n] = 1 # [1 + 1..n]" by (intro upto_rec1) simp
  moreover have "next_batch epochs (0, []) = None" using empty by (intro next_batch_hangs) simp
  ultimately show "run_training_loop L monotonic wall dataset epochs n d s fs = None"
    using empty by (simp add: run_training_loop_def training_step_def)
qed

theorem training_returns_witness:
  "run_training_loop demo_lerobot (\<lambda>_. 0) (\<lambda>_. 0) () (\<lambda>_. [Inr []]) 3 [''o''] () demo_output \<noteq> None \<and>
   run_training_loop demo_lerobot (\<lambda>_. 0) (\<lambda>_. 0) () (\<lambda>_. []) 3 [''o''] () demo_output = None"
proof -
  have "la_build_optimizer demo_lerobot 3 () = Inr ()" by (simp add: demo_lerobot_def)
  then show ?thesis
    using training_returns [of "\<lambda>_. [Inr []]" demo_lerobot "\<lambda>_. 0" "\<lambda>_. 0" "()" 3 "[''o'']" "()" demo_output "()"]
      training_returns [of "\<lambda>_. []" demo_lerobot "\<lambda>_. 0" "\<lambda>_. 0" "()" 3 "[''o'']" "()" demo_output "()"] by simp
qed

text \<open>
  C40: A container that exits with status 0 leaves what the worker needs. Its output directory has a
  progress file that reads as the last of all steps, and a checkpoint directory, so that the worker's
  packaging does not miss it.
\<close>

theorem exit_status_zero:
  assumes run: "train_main L policy monotonic wall argv fs = Some (Inr u, fs')" and args: "parse_args argv = Inr args"
    and n: "1 \<le> ta_training_steps args" and date: "python_date (date_of (wall (nat (ta_training_steps args))))"
    and L: "saves_below L"
  shows "(\<exists>loss. read_progress (path_of_string (ta_output_dir args)) fs' =
      Inr (Some \<lparr>p_step = ta_training_steps args, p_total_steps = ta_training_steps args, p_loss = loss,
        p_updated_at = wall (nat (ta_training_steps args))\<rparr>)) \<and>
    (\<forall>deflated_size z. fst (package_checkpoint deflated_size (path_of_string (ta_output_dir args) @ [''checkpoint'']) z fs') \<noteq>
      Inl (CheckpointNotFoundError (string_of_path (path_of_string (ta_output_dir args) @ [''checkpoint'']))))"
proof -
  let ?d = "path_of_string (ta_output_dir args)"
  obtain dataset epochs s s' fs0 fs1 where
    loop: "run_training_loop L monotonic wall dataset epochs (ta_training_steps args) ?d s fs0 = Some (Inr s', fs1)"
    and save: "write_checkpoint L ?d s' fs1 = (Inr u, fs')"
    using run args by (rule train_main_Inr)
  from loop_reports [OF loop n date] obtain loss where read: "read_progress ?d fs1 =
      Inr (Some \<lparr>p_step = ta_training_steps args, p_total_steps = ta_training_steps args, p_loss = loss,
        p_updated_at = wall (nat (ta_training_steps args))\<rparr>)" by blast
  then obtain b where b: "fs_read fs1 (?d @ [PROGRESS_FILENAME]) = Inr b" using read_progress_file by blast
  note b' = saved_checkpoint(2) [OF L save b]
  have "fs_exists fs' (?d @ [PROGRESS_FILENAME]) = fs_exists fs1 (?d @ [PROGRESS_FILENAME])"
    using b b' by (auto simp: fs_exists_def fs_read_def split: option.splits)
  then have "read_progress ?d fs' = read_progress ?d fs1" using b b' by (intro read_progress_cong) simp_all
  with read saved_checkpoint(1) [OF L save] show ?thesis unfolding package_fails_only by auto
qed

definition demo_argv :: "string list" where
  "demo_argv = [''--source-type'', ''hf_hub'', ''--source-ref'', ''org/repo'', ''--training-steps'', ''1'',
     ''--input-dir'', ''/i'', ''--output-dir'', ''/o'']"

definition demo_container_files :: fsys where
  "demo_container_files = \<lparr>fs_nodes = [([''i''], \<lparr>i_node = DirNode, i_mtime = 0\<rparr>),
     ([''i'', ''meta''], \<lparr>i_node = DirNode, i_mtime = 0\<rparr>), ([''o''], \<lparr>i_node = DirNode, i_mtime = 0\<rparr>)], fs_clock = 0\<rparr>"

lemma demo_arguments: "parse_args demo_argv = Inr \<lparr>ta_source_type = ''hf_hub'', ta_source_ref = ''org/repo'',
    ta_training_steps = 1, ta_input_dir = ''/i'', ta_output_dir = ''/o''\<rparr>"
  by (simp add: demo_argv_def parse_args_def OPTIONS_def looks_like_option_def starts_with_def int_of_text_def)

lemma demo_report: "\<exists>fs. write_progress 0 [''o''] 1 1 (Fin 1) demo_container_files = (Inr (), fs) \<and>
    \<not> fs_is_file fs [''o''] \<and> \<not> fs_is_file fs [''o'', ''checkpoint'']"
  by (simp add: write_progress_eq Let_def fs_write_file_def fs_write_def fs_replace_def fs_exists_def fs_is_dir_def
      fs_is_file_def is_dir_inode_def fs_lookup_def demo_container_files_def fs_stamp_def fs_put_def within_dir_def fs_below_def
      strictly_within_def)

lemma demo_training: "\<exists>fs'. train_main demo_lerobot ACT (\<lambda>_. 0) (\<lambda>_. 0) demo_argv demo_container_files = Some (Inr (), fs')"
proof -
  let ?T = "\<lparr>tn_lib = (), tn_cursor = (0, []), tn_last_write_at = 0, tn_fs = demo_container_files\<rparr> :: (unit, unit) trainer"
  obtain fs where w: "write_progress 0 [''o''] 1 1 (Fin 1) demo_container_files = (Inr (), fs)"
    and fs: "\<not> fs_is_file fs [''o'']" "\<not> fs_is_file fs [''o'', ''checkpoint'']" using demo_report by blast
  have "next_batch (\<lambda>_. [Inr []]) (0, []) = Some (Inr [] :: exn + unit batch, (Suc 0, []))" by (simp add: next_batch_Nil)
  moreover have "optimise demo_lerobot [] [] () = Inr (Fin 1, ())"
    by (simp add: optimise_def demo_lerobot_def scale_images_def optional_def)
  ultimately have "training_step demo_lerobot (\<lambda>_. 0) (\<lambda>_. 0) [] (\<lambda>_. [Inr []]) 1 [''o''] 1 ?T =
      Some (Inr (), ?T\<lparr>tn_cursor := (Suc 0, []), tn_fs := fs\<rparr>)"
    using w by (simp add: training_step_def Let_def writes_progress_def)
  then have "run_training_loop demo_lerobot (\<lambda>_. 0) (\<lambda>_. 0) () (\<lambda>_. [Inr []]) 1 [''o''] () demo_container_files = Some (Inr (), fs)"
    by (simp add: run_training_loop_def demo_lerobot_def)
  moreover have "\<exists>fs'. write_checkpoint demo_lerobot [''o''] () fs = (Inr (), fs')"
    using fs by (simp add: write_checkpoint_def Let_def fs_makedirs_def demo_lerobot_def)
  moreover have "fs_makedirs [''o''] demo_container_files = (Inr (), demo_container_files)"
    by (simp add: fs_makedirs_def fs_is_file_def fs_lookup_def is_dir_inode_def demo_container_files_def fs_mkdir_def
        fs_mkdir1_def fs_exists_def)
  moreover have "check_input_dir [''i''] demo_container_files = Inr ()"
    by (simp add: check_input_dir_def fs_is_dir_def fs_lookup_def is_dir_inode_def demo_container_files_def fs_iterdir_def within_dir_def)
  moreover have "load_dataset demo_lerobot d c fs = Inr ()" "la_make_policy demo_lerobot c () = Inr ()"
    "build_processors demo_lerobot ACT c () () = Inr ()" "build_dataloader demo_lerobot () c = (\<lambda>_. [Inr []])" for d c fs
    by (simp_all add: load_dataset_def demo_lerobot_def build_dataloader_def Let_def)
  moreover have "path_of_string ''/o'' = [''o'']" "path_of_string ''/i'' = [''i'']" by (simp_all add: path_of_string_def)
  ultimately show ?thesis by (simp add: train_main_def demo_arguments)
qed

theorem exit_status_zero_witness:
  "\<exists>fs' loss. train_main demo_lerobot ACT (\<lambda>_. 0) (\<lambda>_. 0) demo_argv demo_container_files = Some (Inr (), fs') \<and>
    read_progress [''o''] fs' = Inr (Some \<lparr>p_step = 1, p_total_steps = 1, p_loss = loss, p_updated_at = 0\<rparr>)"
proof -
  obtain fs' where run: "train_main demo_lerobot ACT (\<lambda>_. 0) (\<lambda>_. 0) demo_argv demo_container_files = Some (Inr (), fs')"
    using demo_training by blast
  have "saves_below demo_lerobot" by (simp add: saves_below_def demo_lerobot_def)
  moreover have "python_date (date_of 0)" by (simp add: python_date_def EPOCH_ORDINAL_def date_of_def)
  moreover have "path_of_string ''/o'' = [''o'']" by (simp add: path_of_string_def)
  ultimately show ?thesis using exit_status_zero [OF run demo_arguments] run by auto
qed

end
