(* ===== verification/Demo_Dataset.thy ===== *)
theory Demo_Dataset
  imports Upload_Service
begin

text \<open>
  \<open>scripts/make_demo_dataset_zip.py\<close>: the archive for manual tests of the zip path. The length of the
  JSON text it writes is a parameter, everything else is as written; the argument parser and the file
  are left out.
\<close>

definition build_info_json :: "string \<Rightarrow> json" where
  "build_info_json policy =
     JObj [(''features'',
       JObj ([(''observation.state'', JObj [(''shape'', JArr [JInt 14])]),
              (''action'', JObj [(''shape'', JArr [JInt 7])])] @
         (if policy = ''smolvla''
          then [(''observation.images.top'', JObj [(''shape'', JArr [JInt 3, JInt 224, JInt 224])])]
          else [(''observation.environment_state'', JObj [(''shape'', JArr [JInt 10])])])))]"

definition write_bytes :: "string \<Rightarrow> string \<Rightarrow> zip_member" where
  "write_bytes name content = ZipMember name (int (length content)) (RawBytes content)"

definition make_demo_zip :: "int \<Rightarrow> string \<Rightarrow> blob" where
  "make_demo_zip info_size policy =
     ZipArchive
       ([ZipMember ''meta/info.json'' info_size (json_dumps (build_info_json policy)),
         write_bytes ''data/chunk-000/episode_000000.parquet'' ''placeholder-not-real-parquet-data''] @
        (if policy = ''smolvla''
         then [write_bytes ''videos/chunk-000/observation.images.top/episode_000000.mp4'' ''placeholder-not-real-video'']
         else []))"

lemma demo_camera:
  "has_camera {''observation.state'', ''action'', ''observation.images.top''}"
  "\<not> has_camera {''observation.state'', ''action'', ''observation.environment_state''}"
  by (simp_all add: has_camera_def starts_with_def)

lemma demo_policies:
  "policy_accepts q (build_info_json (policy_value p)) \<longleftrightarrow> p = SMOLVLA \<or> q = ACT"
proof (cases p)
  case ACT
  then have "feature_names (build_info_json (policy_value p)) =
      {''observation.state'', ''action'', ''observation.environment_state''}"
    by (simp add: build_info_json_def feature_names_def)
  with ACT demo_camera(2) show ?thesis by (simp add: policy_accepts_def ENV_STATE_FEATURE_def)
next
  case SMOLVLA
  then have "feature_names (build_info_json (policy_value p)) =
      {''observation.state'', ''action'', ''observation.images.top''}"
    by (simp add: build_info_json_def feature_names_def)
  with SMOLVLA demo_camera(1) show ?thesis by (simp add: policy_accepts_def)
qed

lemma demo_valid:
  assumes "0 \<le> n" and "n \<le> 1024"
  shows "valid_dataset DEFAULT_LIMITS q (make_demo_zip n (policy_value p)) \<longleftrightarrow> p = SMOLVLA \<or> q = ACT"
proof -
  obtain ms d where ms: "make_demo_zip n (policy_value p) = ZipArchive ms"
    and d: "build_info_json (policy_value p) = JObj d"
    by (simp add: make_demo_zip_def build_info_json_def)
  have "zip_find ms ''meta/info.json'' = Inr (JsonText (JObj d))"
    using ms d by (cases p) (auto simp: make_demo_zip_def write_bytes_def zip_find_def json_dumps_def)
  moreover have "''data/'' @ ''chunk-000/episode_000000.parquet'' \<in> zm_name ` set ms"
    using ms by (cases p) (auto simp: make_demo_zip_def write_bytes_def)
  moreover have "within_limits DEFAULT_LIMITS (map entry_meta ms)"
    using ms assms by (cases p) (auto simp: make_demo_zip_def write_bytes_def within_limits_def DEFAULT_LIMITS_def)
  ultimately show ?thesis
    using demo_policies [of q p] unfolding ms d valid_dataset_def by auto
qed

lemma demo_no_crash: "\<not> crashes_check DEFAULT_LIMITS (make_demo_zip n (policy_value p))"
proof -
  obtain ms d where ms: "make_demo_zip n (policy_value p) = ZipArchive ms" and d: "build_info_json (policy_value p) = JObj d"
    by (simp add: make_demo_zip_def build_info_json_def)
  have "zip_find ms ''meta/info.json'' = Inr (JsonText (JObj d))"
    using ms d by (cases p) (auto simp: make_demo_zip_def write_bytes_def zip_find_def json_dumps_def)
  with ms show ?thesis by (auto simp: crashes_check_def)
qed

lemma demo_unsigned: "0 \<le> n \<Longrightarrow> sizes_unsigned (make_demo_zip n (policy_value p))"
  by (cases p) (auto simp: sizes_unsigned_def make_demo_zip_def write_bytes_def)

text \<open>
  The demo archive exercises the zip path: the one made for a policy passes every check of the
  upload service for that policy; the one for SmolVLA, which has a camera, passes for ACT as well, the
  one for ACT is refused for SmolVLA.
\<close>

theorem demo_archive_accepted:
  assumes S: "object_store S objects_of" and stored: "objects_of objects path = Some (make_demo_zip n (policy_value p))"
    and "0 \<le> n" and "n \<le> 1024"
  shows "fst (inspect_upload S DEFAULT_LIMITS q path objects) = Inr () \<longleftrightarrow> p = SMOLVLA \<or> q = ACT"
proof -
  have "sizes_unsigned (make_demo_zip n (policy_value p))" using assms(3) by (rule demo_unsigned)
  moreover have "0 \<le> max_total_uncompressed_bytes DEFAULT_LIMITS" by (simp add: DEFAULT_LIMITS_def)
  ultimately show ?thesis
    using object_store.inspect_upload_Inr [OF S stored] demo_valid [OF assms(3,4)] by simp
qed

theorem demo_archive_accepted_witness:
  "fst (inspect_upload (memory_object_storage ''http://localhost:8000'') DEFAULT_LIMITS ACT ''uploads/u/d.zip''
     [(''uploads/u/d.zip'', make_demo_zip 300 ''act'')]) = Inr ()"
  using demo_archive_accepted [OF memo.object_store_axioms, of "[(''uploads/u/d.zip'', make_demo_zip 300 ''act'')]"
      "''uploads/u/d.zip''" 300 ACT "''http://localhost:8000''" ACT] by simp

end
