(* ===== verification/Manual_Test.thy ===== *)
theory Manual_Test
  imports Deployment Demo_Dataset
begin

text \<open>
  The manual test harnesses \<open>scripts/manual_test.py\<close> and \<open>scripts/manual_test_real_gcp.py\<close>: backend and
  worker in one process, the first over the in-memory adapters and a seeded Hub, the second over the real
  database and bucket with the captcha and the login faked. Both scripts share their helpers. A monotonic
  reading is in microseconds; \<open>env\<close> are the settings the environment gives, which the keyword arguments
  override. The server and the worker run in threads of their own: their steps are those of \<open>System\<close>,
  over the wirings defined here. Printing is left out; the requests the scripts tell their user to make are
  in \<open>Walkthrough\<close>.
\<close>

definition ACT_IMAGE :: string where "ACT_IMAGE = ''lerobot-train-act:latest''"
definition SMOLVLA_IMAGE :: string where "SMOLVLA_IMAGE = ''lerobot-train-smolvla:latest''"
definition DEMO_REPO_ID :: string where "DEMO_REPO_ID = ''demo/pick-place''"
definition DEMO_EMAIL :: string where "DEMO_EMAIL = ''manual-test-real-gcp@example.com''"

subsection \<open>The demo repository\<close>

definition demo_repo_info :: json where
  "demo_repo_info =
     JObj [(''features'',
       JObj [(''observation.state'', JObj [(''shape'', JArr [JInt 14])]),
             (''action'', JObj [(''shape'', JArr [JInt 7])]),
             (''observation.images.top'', JObj [(''shape'', JArr [JInt 3, JInt 224, JInt 224])])])]"

definition seed_demo_hf_repo :: "int \<Rightarrow> mem_repos \<Rightarrow> mem_repos" where
  "seed_demo_hf_repo info_size hf_hub =
     add_repo DEMO_REPO_ID
       [(''meta/info.json'', (info_size, json_dumps demo_repo_info)),
        (''data/chunk-000/episode_000000.parquet'',
          (int (length ''placeholder-not-real-parquet-data''), RawBytes ''placeholder-not-real-parquet-data''))] hf_hub"

subsection \<open>Images\<close>

text \<open>
  \<open>spawn\<close> runs a command to its end and gives its exit status, or raises when it cannot be started;
  \<open>check=True\<close> turns a status other than 0 into an exception.
\<close>

definition run_checked :: "(string list \<Rightarrow> 's \<Rightarrow> ('s, int) outcome) \<Rightarrow> string list \<Rightarrow> 's \<Rightarrow> ('s, unit) outcome" where
  "run_checked spawn command s =
     then_do (spawn command s) (\<lambda>returncode s.
       (if returncode \<noteq> 0 then Inl (CalledProcessError command returncode) else Inr (), s))"

definition build_command :: "string \<Rightarrow> string \<Rightarrow> string \<Rightarrow> string list" where
  "build_command repo_root image_name context_dir =
     [''docker'', ''build'', ''-q'', ''-t'', image_name, repo_root @ ''/docker/'' @ context_dir]"

fun build_images ::
    "(string list \<Rightarrow> 's \<Rightarrow> ('s, int) outcome) \<Rightarrow> string \<Rightarrow> (string \<times> string) list \<Rightarrow> 's \<Rightarrow> ('s, unit) outcome" where
  "build_images spawn repo_root [] s = (Inr (), s)"
| "build_images spawn repo_root ((image_name, context_dir) # images) s =
     then_do (run_checked spawn (build_command repo_root image_name context_dir) s) (\<lambda>_.
       build_images spawn repo_root images)"

definition build_images_if_needed ::
    "(string list \<Rightarrow> 's \<Rightarrow> ('s, int) outcome) \<Rightarrow> string \<Rightarrow> bool \<Rightarrow> 's \<Rightarrow> ('s, unit) outcome" where
  "build_images_if_needed spawn repo_root skip s =
     (if skip then (Inr (), s)
      else build_images spawn repo_root [(ACT_IMAGE, ''act''), (SMOLVLA_IMAGE, ''smolvla'')] s)"

subsection \<open>Waiting for the server\<close>

text \<open>
  The \<open>n\<close>-th turn of the loop reads the clock for the \<open>n\<close>-th time after the deadline was set and, before
  the deadline, asks the server for the \<open>n\<close>-th time. The loop has no bound but the clock: \<open>None\<close> is a wait
  that never ends. \<open>is_http_error\<close> are the exceptions below \<open>httpx.HTTPError\<close>, \<open>number\<close> is the text of a float.
\<close>

partial_function (option) wait_turns ::
    "(nat \<Rightarrow> int) \<Rightarrow> (nat \<Rightarrow> string \<Rightarrow> exn + http_response) \<Rightarrow> (exn \<Rightarrow> bool) \<Rightarrow> exn \<Rightarrow> string \<Rightarrow> int \<Rightarrow> nat \<Rightarrow>
     (exn + unit) option" where
  "wait_turns monotonic ask is_http_error gave_up url deadline n =
     (if \<not> monotonic n < deadline then Some (Inl gave_up)
      else
        (case ask n url of
           Inr _ \<Rightarrow> Some (Inr ())
         | Inl e \<Rightarrow>
             (if is_http_error e then wait_turns monotonic ask is_http_error gave_up url deadline (Suc n)
              else Some (Inl e))))"

definition wait_until_serving ::
    "(nat \<Rightarrow> int) \<Rightarrow> (nat \<Rightarrow> string \<Rightarrow> exn + http_response) \<Rightarrow> (exn \<Rightarrow> bool) \<Rightarrow> (int \<Rightarrow> string) \<Rightarrow>
     string \<Rightarrow> int \<Rightarrow> (exn + unit) option" where
  "wait_until_serving monotonic ask is_http_error number base_url timeout =
     (let deadline = monotonic 0 + timeout
      in wait_turns (\<lambda>n. monotonic (Suc n)) ask is_http_error
           (RuntimeError (''Backend did not start serving at '' @ base_url @ '' within '' @ number timeout @ ''s''))
           (base_url @ ''/docs'') deadline 0)"

definition SERVING_TIMEOUT :: int where "SERVING_TIMEOUT = seconds 10"

subsection \<open>Arguments and settings\<close>

record ManualArgs =
  ma_port :: int
  ma_host :: string
  ma_workdir :: "string option"
  ma_poll_interval :: pyfloat
  ma_skip_build :: bool

definition default_manual_args :: ManualArgs where
  "default_manual_args =
     \<lparr>ma_port = 8765, ma_host = ''127.0.0.1'', ma_workdir = None, ma_poll_interval = Fin 2, ma_skip_build = False\<rparr>"

record RealGcpArgs =
  ra_project_id :: string
  ra_database_id :: string
  ra_bucket :: string
  ra_port :: int
  ra_host :: string
  ra_workdir :: string
  ra_poll_interval :: pyfloat
  ra_skip_build :: bool
  ra_hf_repo_id :: string
  ra_policy :: PolicyType
  ra_training_steps :: int

text \<open>The project and the bucket are required, the other arguments have defaults.\<close>

definition default_real_gcp_args :: "string \<Rightarrow> string \<Rightarrow> RealGcpArgs" where
  "default_real_gcp_args project_id bucket =
     \<lparr>ra_project_id = project_id, ra_database_id = ''(default)'', ra_bucket = bucket, ra_port = 8766,
      ra_host = ''127.0.0.1'', ra_workdir = ''/tmp/lerobot-manual-test-real-gcp'', ra_poll_interval = Fin 2,
      ra_skip_build = False, ra_hf_repo_id = ''lerobot/pusht'', ra_policy = ACT, ra_training_steps = 20\<rparr>"

definition base_url_for :: "string \<Rightarrow> int \<Rightarrow> string" where
  "base_url_for host port = ''http://'' @ host @ '':'' @ str_int port"

definition manual_workdir :: "ManualArgs \<Rightarrow> path" where
  "manual_workdir args =
     path_of_string (if truthy (ma_workdir args) then the (ma_workdir args) else ''/tmp/lerobot-manual-test'')"

text \<open>The directory without \<open>--workdir\<close> is the same in every run, not a fresh one as the help says.\<close>

lemma default_workdir: "manual_workdir default_manual_args = [''tmp'', ''lerobot-manual-test'']"
  by (simp add: manual_workdir_def default_manual_args_def path_of_string_def)

definition manual_settings :: "Settings \<Rightarrow> string \<Rightarrow> Settings" where
  "manual_settings env base_url =
     env\<lparr>st_use_fake_adapters := True, st_dev_storage_base_url := base_url, st_jwt_secret := ''manual-test-jwt-secret'',
         st_scheduler_shared_secret := ''manual-test-scheduler-secret''\<rparr>"

definition manual_worker_settings :: "WorkerSettings \<Rightarrow> path \<Rightarrow> pyfloat \<Rightarrow> WorkerSettings" where
  "manual_worker_settings env workdir poll_interval =
     env\<lparr>ws_use_gpu := False, ws_workdir := string_of_path (workdir @ [''jobs'']),
         ws_hf_cache_dir := string_of_path (workdir @ [''hf-cache'']), ws_poll_interval_seconds := poll_interval,
         ws_act_image := ACT_IMAGE, ws_smolvla_image := SMOLVLA_IMAGE\<rparr>"

definition real_gcp_settings :: "Settings \<Rightarrow> RealGcpArgs \<Rightarrow> Settings" where
  "real_gcp_settings env args =
     env\<lparr>st_use_fake_adapters := False, st_gcp_project_id := Some (ra_project_id args),
         st_firestore_database_id := ra_database_id args, st_gcs_bucket := ra_bucket args,
         st_jwt_secret := ''manual-test-real-gcp-jwt-secret-change-me'',
         st_scheduler_shared_secret := ''manual-test-real-gcp-scheduler-secret''\<rparr>"

definition real_gcp_worker_settings :: "WorkerSettings \<Rightarrow> RealGcpArgs \<Rightarrow> WorkerSettings" where
  "real_gcp_worker_settings env args =
     (manual_worker_settings env (path_of_string (ra_workdir args)) (ra_poll_interval args))
       \<lparr>ws_gcs_bucket := ra_bucket args, ws_gcp_project_id := Some (ra_project_id args),
        ws_firestore_database_id := ra_database_id args\<rparr>"

subsection \<open>Wiring\<close>

definition manual_dependencies ::
    "bcrypt_api \<Rightarrow> jwt_api \<Rightarrow> Settings \<Rightarrow> int \<Rightarrow> ManualArgs \<Rightarrow> (mem_jobs, mem_users, mem_objects) Dependencies" where
  "manual_dependencies B W env info_size args =
     (let base_url = base_url_for (ma_host args) (ma_port args)
      in build_dependencies B W (manual_settings env base_url) memory_user_repository memory_job_repository
           (memory_object_storage base_url) (memory_hf_hub_client (seed_demo_hf_repo info_size []))
           memory_captcha_verifier memory_hf_oauth_client)"

definition manual_worker_dependencies ::
    "(zip_member list \<Rightarrow> int) \<Rightarrow> 'd docker_api \<Rightarrow> int \<Rightarrow> int \<Rightarrow> WorkerSettings \<Rightarrow> int \<Rightarrow> ManualArgs \<Rightarrow>
     (mem_jobs, mem_users, mem_objects, 'd) WorkerDependencies" where
  "manual_worker_dependencies deflated_size A uid gid env info_size args =
     build_worker_dependencies deflated_size
       (manual_worker_settings env (manual_workdir args) (ma_poll_interval args)) memory_job_repository
       memory_user_repository (docker_runner A uid gid)
       (memory_object_storage (base_url_for (ma_host args) (ma_port args)))
       (memory_hf_hub_client (seed_demo_hf_repo info_size []))"

definition real_gcp_dependencies ::
    "('j, 'u, 'o, 'd) platform \<Rightarrow> Settings \<Rightarrow> RealGcpArgs \<Rightarrow> ('j, 'u, 'o) Dependencies" where
  "real_gcp_dependencies L env args =
     build_dependencies (pl_bcrypt L) (pl_jwt L) (real_gcp_settings env args)
       (firestore_user_repository (pl_user_collection L)) (firestore_job_repository (pl_job_collection L))
       (gcs_object_storage (pl_bucket L)) (real_hf_hub_client (pl_hub L)) memory_captcha_verifier memory_hf_oauth_client"

definition real_gcp_worker_dependencies ::
    "('j, 'u, 'o, 'd) platform \<Rightarrow> WorkerSettings \<Rightarrow> RealGcpArgs \<Rightarrow> ('j, 'u, 'o, 'd) WorkerDependencies" where
  "real_gcp_worker_dependencies L env args =
     build_worker_dependencies (pl_deflated_size L) (real_gcp_worker_settings env args)
       (firestore_job_repository (pl_job_collection L)) (firestore_user_repository (pl_user_collection L))
       (docker_runner (pl_docker L) (pl_uid L) (pl_gid L)) (gcs_object_storage (pl_bucket L))
       (real_hf_hub_client (pl_hub L))"

subsection \<open>The process\<close>

text \<open>What happens before the worker starts: the working directory, the images, the server.\<close>

definition start_up ::
    "(string list \<Rightarrow> 's \<Rightarrow> ('s, int) outcome) \<Rightarrow> string \<Rightarrow> (nat \<Rightarrow> int) \<Rightarrow> (nat \<Rightarrow> string \<Rightarrow> exn + http_response) \<Rightarrow>
     (exn \<Rightarrow> bool) \<Rightarrow> (int \<Rightarrow> string) \<Rightarrow> bool \<Rightarrow> path \<Rightarrow> string \<Rightarrow> fsys \<times> 's \<Rightarrow> (fsys \<times> 's, unit) outcome option" where
  "start_up spawn repo_root monotonic ask is_http_error number skip_build workdir base_url s =
     (case fs_makedirs workdir (fst s) of
        (Inl e, fs) \<Rightarrow> Some (Inl e, (fs, snd s))
      | (Inr _, fs) \<Rightarrow>
          (case build_images_if_needed spawn repo_root skip_build (snd s) of
             (Inl e, images) \<Rightarrow> Some (Inl e, (fs, images))
           | (Inr _, images) \<Rightarrow>
               (case wait_until_serving monotonic ask is_http_error number base_url SERVING_TIMEOUT of
                  None \<Rightarrow> None
                | Some r \<Rightarrow> Some (r, (fs, images)))))"

text \<open>
  The worker's thread: ticks without the lock and the reconciliation of the real worker, until
  \<open>stopped n\<close>, the stop event before the \<open>n\<close>-th tick, for at most a given number of rounds.
\<close>

fun worker_loop ::
    "('j, 'u, 'o, 'd) WorkerDependencies \<Rightarrow> (nat \<Rightarrow> nat \<Rightarrow> datetime) \<Rightarrow> (nat \<Rightarrow> bool) \<Rightarrow> nat \<Rightarrow>
     ('j, 'u, 'o, 'd) world \<Rightarrow> (('j, 'u, 'o, 'd) world, unit) outcome" where
  "worker_loop E clock stopped 0 w = (Inr (), w)"
| "worker_loop E clock stopped (Suc rounds) w =
     (if stopped 0 then (Inr (), w)
      else then_do (worker_tick E (clock 0) w) (\<lambda>_.
        worker_loop E (\<lambda>i. clock (Suc i)) (\<lambda>n. stopped (Suc n)) rounds))"

subsection \<open>The harnesses run the service\<close>

lemma manual_worker_loop: "\<exists>n. worker_loop E clock stopped rounds w = poll_loop E clock n w"
proof (induction rounds arbitrary: clock stopped w)
  case 0
  show ?case by (rule exI [of _ 0]) simp
next
  case (Suc rounds)
  obtain r w1 where tick: "worker_tick E (clock 0) w = (r, w1)" by fastforce
  obtain n where "worker_loop E (\<lambda>i. clock (Suc i)) (\<lambda>n. stopped (Suc n)) rounds w1 = poll_loop E (\<lambda>i. clock (Suc i)) n w1"
    using Suc.IH by blast
  with tick have "worker_loop E clock stopped (Suc rounds) w = poll_loop E clock (if stopped 0 then 0 else Suc n) w"
    by (cases r) simp_all
  then show ?case by blast
qed

lemma manual_system:
  assumes "docker_ok A view"
  shows "whole_system (manual_dependencies B W env n args) (manual_worker_dependencies z A uid gid wenv n args)
    map_of mem_jobs_ok map_of mem_users_ok map_of (running_view view)"
  unfolding manual_dependencies_def manual_worker_dependencies_def Let_def whole_system_def
  by (intro conjI shared_adapters.wired_backend [OF fake_adapters [OF assms]] shared_adapters.wired_worker [OF fake_adapters [OF assms]])

lemma real_gcp_system:
  assumes "platform_ok L"
  shows "whole_system (real_gcp_dependencies L env args) (real_gcp_worker_dependencies L wenv args)
    (stored_job (pl_job_docs L)) (holds_jobs (pl_job_docs L)) (stored_user (pl_user_docs L)) (holds_users (pl_user_docs L))
    (pl_objects L) (running_view (pl_containers L))"
  unfolding real_gcp_dependencies_def real_gcp_worker_dependencies_def whole_system_def
  by (intro conjI shared_adapters.wired_backend [OF real_adapters [OF assms]] shared_adapters.wired_worker [OF real_adapters [OF assms]])

interpretation manual: whole_system "manual_dependencies B W env n args"
  "manual_worker_dependencies z reference_daemon uid gid wenv n args" map_of mem_jobs_ok map_of mem_users_ok map_of
  "running_view map_of" for B W env n args z uid gid wenv
  by (rule manual_system [OF reference_daemon_ok])

subsection \<open>Starting up\<close>

text \<open>A turn before the deadline that is not answered is followed by the next one.\<close>

definition unanswered ::
    "(nat \<Rightarrow> int) \<Rightarrow> (nat \<Rightarrow> string \<Rightarrow> exn + http_response) \<Rightarrow> (exn \<Rightarrow> bool) \<Rightarrow> string \<Rightarrow> int \<Rightarrow> nat \<Rightarrow> bool" where
  "unanswered monotonic ask is_http_error url deadline n \<longleftrightarrow>
     monotonic n < deadline \<and> (\<exists>e. ask n url = Inl e \<and> is_http_error e)"

lemma wait_turns_skip:
  assumes "\<And>i. n \<le> i \<Longrightarrow> i < n + k \<Longrightarrow> unanswered monotonic ask ishe url deadline i"
  shows "wait_turns monotonic ask ishe gave_up url deadline n = wait_turns monotonic ask ishe gave_up url deadline (n + k)"
  using assms
proof (induction k)
  case (Suc k)
  have u: "unanswered monotonic ask ishe url deadline (n + k)" by (rule Suc.prems) simp_all
  have "wait_turns monotonic ask ishe gave_up url deadline n = wait_turns monotonic ask ishe gave_up url deadline (n + k)"
    by (rule Suc.IH) (rule Suc.prems, simp_all)
  also have "\<dots> = wait_turns monotonic ask ishe gave_up url deadline (Suc (n + k))"
    using u by (subst wait_turns.simps) (auto simp: unanswered_def)
  finally show ?case by simp
qed simp

lemma wait_turns_Some:
  assumes "wait_turns monotonic ask ishe gave_up url deadline n = Some r"
  shows "\<exists>k. \<not> unanswered monotonic ask ishe url deadline k"
  using assms
proof (induction rule: wait_turns.raw_induct [rotated, consumes 1])
  case (1 turns monotonic ask ishe gave_up url deadline n r)
  show ?case
  proof (cases "unanswered monotonic ask ishe url deadline n")
    case True
    with 1(2) have "turns monotonic ask ishe gave_up url deadline (Suc n) = Some r" by (auto simp: unanswered_def)
    then show ?thesis by (rule 1(1))
  qed blast
qed

text \<open>The first turn that is not unanswered decides; without one the wait never ends.\<close>

lemma wait_turns_exact:
  "wait_turns monotonic ask ishe gave_up url deadline 0 =
    (if \<exists>k. \<not> unanswered monotonic ask ishe url deadline k
     then let k = (LEAST k. \<not> unanswered monotonic ask ishe url deadline k)
          in Some (if \<not> monotonic k < deadline then Inl gave_up
                   else case ask k url of Inr _ \<Rightarrow> Inr () | Inl e \<Rightarrow> Inl e)
     else None)"
proof -
  let ?u = "unanswered monotonic ask ishe url deadline"
  let ?wait = "wait_turns monotonic ask ishe gave_up url deadline"
  define k where "k = (LEAST k. \<not> ?u k)"
  show ?thesis
  proof (cases "\<exists>k. \<not> ?u k")
    case True
    then have stop: "\<not> ?u k" unfolding k_def by (rule LeastI_ex)
    have before: "\<forall>i < k. ?u i" unfolding k_def using not_less_Least by blast
    have "?wait 0 = ?wait (0 + k)" by (rule wait_turns_skip) (use before in simp)
    also have "\<dots> = Some (if \<not> monotonic k < deadline then Inl gave_up
        else case ask k url of Inr _ \<Rightarrow> Inr () | Inl e \<Rightarrow> Inl e)"
      using stop by (subst wait_turns.simps) (auto simp: unanswered_def split: sum.splits)
    finally show ?thesis using True by (simp add: k_def Let_def)
  next
    case False
    then have "?wait 0 = None" using wait_turns_Some [of monotonic ask ishe gave_up url deadline 0] by fastforce
    with False show ?thesis by simp
  qed
qed

lemma build_images_Inr:
  "build_images spawn repo_root images s = (Inr (), s') \<Longrightarrow> images = (image_name, context_dir) # rest \<Longrightarrow>
     \<exists>s1. spawn (build_command repo_root image_name context_dir) s = (Inr 0, s1) \<and>
       build_images spawn repo_root rest s1 = (Inr (), s')"
  by (auto simp: run_checked_def then_do_def split: prod.splits sum.splits if_splits)

text \<open>
  The start always comes to an end when the clock passes the ten seconds. It succeeds only if the images
  were built, unless that was skipped, and a request was answered before the deadline; otherwise the
  harness ends with the exception and no worker starts.
\<close>

theorem harness_start_up:
  fixes spawn :: "string list \<Rightarrow> 's \<Rightarrow> ('s, int) outcome"
  assumes run: "run = start_up spawn repo_root monotonic ask is_http_error number skip_build workdir base_url (fs, images)"
  shows "(monotonic 0 + seconds 10 \<le> monotonic (Suc m) \<longrightarrow> run \<noteq> None) \<and>
    (run = Some (Inr (), (fs', images')) \<longrightarrow>
       (if skip_build then images' = images
        else \<exists>s1. spawn [''docker'', ''build'', ''-q'', ''-t'', ''lerobot-train-act:latest'', repo_root @ ''/docker/act''] images = (Inr 0, s1) \<and>
          spawn [''docker'', ''build'', ''-q'', ''-t'', ''lerobot-train-smolvla:latest'', repo_root @ ''/docker/smolvla''] s1 =
            (Inr 0, images')) \<and>
       (\<exists>k response. monotonic (Suc k) < monotonic 0 + seconds 10 \<and> ask k (base_url @ ''/docs'') = Inr response))"
proof (intro conjI impI)
  let ?wait = "wait_until_serving monotonic ask is_http_error number base_url SERVING_TIMEOUT"
  let ?u = "unanswered (\<lambda>n. monotonic (Suc n)) ask is_http_error (base_url @ ''/docs'') (monotonic 0 + SERVING_TIMEOUT)"
  note wait = wait_until_serving_def [of monotonic ask is_http_error number base_url SERVING_TIMEOUT,
      unfolded Let_def wait_turns_exact]
  show "run \<noteq> None" if "monotonic 0 + seconds 10 \<le> monotonic (Suc m)"
  proof -
    have "\<not> ?u m" using that by (simp add: unanswered_def SERVING_TIMEOUT_def)
    then have "?wait \<noteq> None" unfolding wait by auto
    then show ?thesis by (auto simp: run start_up_def split: prod.splits sum.splits option.splits)
  qed
  assume "run = Some (Inr (), (fs', images'))"
  then have built: "build_images_if_needed spawn repo_root skip_build images = (Inr (), images')"
    and served: "?wait = Some (Inr ())"
    by (auto simp: run start_up_def split: prod.splits sum.splits option.splits)
  show "if skip_build then images' = images
      else \<exists>s1. spawn [''docker'', ''build'', ''-q'', ''-t'', ''lerobot-train-act:latest'', repo_root @ ''/docker/act''] images = (Inr 0, s1) \<and>
        spawn [''docker'', ''build'', ''-q'', ''-t'', ''lerobot-train-smolvla:latest'', repo_root @ ''/docker/smolvla''] s1 =
          (Inr 0, images')"
  proof (cases skip_build)
    case False
    with built build_images_Inr [OF _ refl] obtain s1 where
      "spawn (build_command repo_root ACT_IMAGE ''act'') images = (Inr 0, s1)"
      "build_images spawn repo_root [(SMOLVLA_IMAGE, ''smolvla'')] s1 = (Inr (), images')"
      unfolding build_images_if_needed_def by fastforce
    with False build_images_Inr [OF this(2) refl] show ?thesis
      by (auto simp: build_command_def ACT_IMAGE_def SMOLVLA_IMAGE_def)
  qed (use built in \<open>simp add: build_images_if_needed_def\<close>)
  define k where "k = (LEAST k. \<not> ?u k)"
  have "monotonic (Suc k) < monotonic 0 + SERVING_TIMEOUT \<and> (\<exists>response. ask k (base_url @ ''/docs'') = Inr response)"
    using served unfolding wait k_def [symmetric] by (auto simp: Let_def k_def [symmetric] split: if_splits sum.splits)
  then show "\<exists>k response. monotonic (Suc k) < monotonic 0 + seconds 10 \<and> ask k (base_url @ ''/docs'') = Inr response"
    by (auto simp: SERVING_TIMEOUT_def)
qed

text \<open>
  Whatever the two threads of a harness do, in any order, keeps the invariants of the service: from empty
  stores on, one job holds the GPU, a user has one active job, and the documents stay readable.
\<close>

theorem manual_harness_consistent:
  assumes A: "docker_ok A view" and empty: "w_jobs w = []" "w_users w = []"
    and run: "system_run (manual_dependencies B W env info_size args)
      (manual_worker_dependencies z A uid gid wenv info_size args) map_of map_of map_of (running_view view) allowed
      (w, t) (w', t')"
  shows "mem_jobs_ok (w_jobs w') \<and> mem_users_ok (w_users w') \<and>
    sys_ok (world_view map_of map_of map_of (running_view view) w' t')"
proof -
  note sys = manual_system [OF A, of B W env info_size args z uid gid wenv]
  then have "training_system (manual_worker_dependencies z A uid gid wenv info_size args) map_of mem_jobs_ok map_of
      mem_users_ok map_of (running_view view)" unfolding whole_system_def by blast
  note good = whole_system.good_def [OF sys] training_system.world_ok_def [OF this]
  have "whole_system.good map_of mem_jobs_ok map_of mem_users_ok map_of (running_view view) (w, t)"
    using empty by (auto simp: good mem_jobs_ok_def mem_users_ok_def sys_ok_def users_keyed_def one_monitored_def
        one_active_def jobs_ok_def quota_ok_def)
  from whole_system.run_good [OF sys run this] show ?thesis by (simp add: good)
qed

theorem real_gcp_harness_consistent:
  assumes L: "platform_ok L" and "consistent L s"
    and run: "system_run (real_gcp_dependencies L env args) (real_gcp_worker_dependencies L wenv args)
      (stored_job (pl_job_docs L)) (stored_user (pl_user_docs L)) (pl_objects L) (running_view (pl_containers L)) allowed s s'"
  shows "consistent L s'"
  using whole_system.run_good [OF real_gcp_system [OF L] run] assms(2) by (simp add: consistent_good [OF L])

end
