(* ===== verification/Walkthrough.thy ===== *)
theory Walkthrough
  imports Manual_Test
begin

text \<open>
  The way of a new user through the API: register, log in and submit a repository, or upload an archive and
  confirm it. The requests are those of the shell commands that the manual test harnesses print for their
  user (\<open>print_walkthrough\<close>); no code of the repository sends them. They are answered one after the other
  here, without a step of the worker in between.
\<close>

subsection \<open>The printed walkthrough\<close>

text \<open>Steps 1 and 2: register, log in, submit. A failed login leaves the shell's \<open>TOKEN\<close> empty.\<close>

definition token_of :: "TokenOut reply \<Rightarrow> string" where
  "token_of r = (case r of Reply _ t \<Rightarrow> to_access_token t | ErrorReply _ _ \<Rightarrow> [])"

definition walkthrough ::
    "('j, 'u, 'o) Dependencies \<Rightarrow> (nat \<Rightarrow> datetime) \<Rightarrow> string \<Rightarrow> string \<Rightarrow> string \<Rightarrow> string \<Rightarrow> string \<Rightarrow> PolicyType \<Rightarrow>
     int \<Rightarrow> ('j, 'u, 'o) backend \<Rightarrow> JobOut reply \<times> ('j, 'u, 'o) backend" where
  "walkthrough P now salt user_id job_id email repo_id policy training_steps b =
     (case api_register P (now 0) salt user_id email ''password123'' ''x'' b of
        (_, b1) \<Rightarrow>
          (case api_login P (now 1) email ''password123'' b1 of
             (login, b2) \<Rightarrow>
               api_submit_hf_dataset P (\<lambda>n. now (2 + n)) (Some (''Bearer '' @ token_of login)) job_id repo_id policy
                 training_steps b2))"

definition manual_walkthrough ::
    "(mem_jobs, mem_users, mem_objects) Dependencies \<Rightarrow> (nat \<Rightarrow> datetime) \<Rightarrow> string \<Rightarrow> string \<Rightarrow> string \<Rightarrow>
     (mem_jobs, mem_users, mem_objects) backend \<Rightarrow> JobOut reply \<times> (mem_jobs, mem_users, mem_objects) backend" where
  "manual_walkthrough P now salt user_id job_id =
     walkthrough P now salt user_id job_id ''demo@example.com'' DEMO_REPO_ID ACT 20"

text \<open>
  The other way to submit: ask for an upload target, \<open>PUT\<close> the archive to its URL, confirm. The server
  finds the object's path behind the prefix of the development storage.
\<close>

definition target_of :: "(string \<times> string) reply \<Rightarrow> string \<times> string" where
  "target_of r = (case r of Reply _ target \<Rightarrow> target | ErrorReply _ _ \<Rightarrow> ([], []))"

definition put_url ::
    "string \<Rightarrow> string \<Rightarrow> blob \<Rightarrow> ('j, 'u, mem_objects) backend \<Rightarrow> unit reply \<times> ('j, 'u, mem_objects) backend" where
  "put_url base_url url body b =
     (let route = base_url @ ''/dev-storage/''
      in if starts_with route url then api_put_object (drop (length route) url) body b
         else (ErrorReply 404 ''Not Found'', b))"

definition zip_walkthrough ::
    "('j, 'u, mem_objects) Dependencies \<Rightarrow> string \<Rightarrow> (nat \<Rightarrow> datetime) \<Rightarrow> string \<Rightarrow> string \<Rightarrow> string \<Rightarrow> blob \<Rightarrow>
     PolicyType \<Rightarrow> int \<Rightarrow> ('j, 'u, mem_objects) backend \<Rightarrow> JobOut reply \<times> ('j, 'u, mem_objects) backend" where
  "zip_walkthrough P base_url now token new_upload_id job_id archive policy training_steps b =
     (case api_create_zip_upload_target P (now 0) (Some (''Bearer '' @ token)) new_upload_id b of
        (target, b1) \<Rightarrow>
          (case target_of target of
             (upload_id, upload_url) \<Rightarrow>
               (case put_url base_url upload_url archive b1 of
                  (_, b2) \<Rightarrow>
                    api_confirm_zip_upload P (\<lambda>n. now (1 + n)) (Some (''Bearer '' @ token)) job_id upload_id policy
                      training_steps b2)))"

definition real_gcp_walkthrough ::
    "('j, 'u, 'o) Dependencies \<Rightarrow> RealGcpArgs \<Rightarrow> (nat \<Rightarrow> datetime) \<Rightarrow> string \<Rightarrow> string \<Rightarrow> string \<Rightarrow>
     ('j, 'u, 'o) backend \<Rightarrow> JobOut reply \<times> ('j, 'u, 'o) backend" where
  "real_gcp_walkthrough P args now salt user_id job_id =
     walkthrough P now salt user_id job_id DEMO_EMAIL (ra_hf_repo_id args) (ra_policy args) (ra_training_steps args)"

subsection \<open>The walkthrough succeeds\<close>

lemma demo_repo_features: "policy_accepts p demo_repo_info"
proof -
  have "feature_names demo_repo_info = {''observation.state'', ''action'', ''observation.images.top''}"
    by (simp add: demo_repo_info_def feature_names_def)
  then show ?thesis using demo_camera(1) by (simp add: policy_accepts_def)
qed

lemma demo_repo_accepted:
  "inspect_hf_dataset (memory_hf_hub_client (seed_demo_hf_repo n repos)) p DEMO_REPO_ID = Inr ()"
proof -
  obtain d where d: "demo_repo_info = JObj d" by (simp add: demo_repo_info_def)
  have files: "map_of (seed_demo_hf_repo n repos) DEMO_REPO_ID = Some
       [(''meta/info.json'', (n, json_dumps demo_repo_info)),
        (''data/chunk-000/episode_000000.parquet'',
          (int (length ''placeholder-not-real-parquet-data''), RawBytes ''placeholder-not-real-parquet-data''))]"
    by (simp add: seed_demo_hf_repo_def add_repo_def)
  have known: "DEMO_REPO_ID \<in> fst ` set (seed_demo_hf_repo n repos)"
    using files map_of_eq_None_iff [of "seed_demo_hf_repo n repos" DEMO_REPO_ID] by simp
  have "\<exists>rest. ''data/'' @ rest = ''data/chunk-000/episode_000000.parquet''" by simp
  with files known demo_repo_features [of p] d show ?thesis
    unfolding inspect_hf_Inr_iff memory_hf_hub_client_def
    by (auto simp: mem_list_repo_files_def mem_get_repo_file_bytes_def json_dumps_def)
qed

text \<open>The token of a login admits its user to the submission.\<close>

lemma walkthrough_admitted:
  assumes W: "jwt_ok (dp_jwt P)" and time: "t1 \<le> t2" "t2 < whole_seconds (t1 + DEFAULT_EXPIRES_IN)"
  shows "as_user P t2 (Some (''Bearer '' @ to_access_token (token_for P t1 uid))) route b = route uid b"
proof -
  have "get_current_user_id (dp_jwt P) (dp_settings P) t2
      (Some (''Bearer '' @ to_access_token (token_for P t1 uid))) = Inr uid"
    using bearer_accepted [OF W time(1), of "dp_settings P" uid DEFAULT_EXPIRES_IN] time(2)
    unfolding token_for_def TokenOut.simps by simp
  then show ?thesis by (simp only: as_user_def sum.case)
qed

context backend_system begin

text \<open>A new account of the walkthrough, whose password logs in at once.\<close>

lemma walkthrough_login:
  assumes ok: "backend_ok b" and captcha: "dp_captcha_verifier P = memory_captcha_verifier"
    and score: "\<not> float_less (Fin 1) (st_min_captcha_score (dp_settings P))"
    and B: "bcrypt_ok (dp_bcrypt P)" and h: "hash_password (dp_bcrypt P) salt ''password123'' = Inr h"
    and new: "\<forall>k v. users_of (b_users b) k = Some v \<longrightarrow> u_email v \<noteq> Some email"
  obtains users where "api_register P t0 salt uid email ''password123'' ''x'' b =
      (Reply 200 (token_for P t0 uid), b\<lparr>b_users := users\<rparr>)"
    and "users_of users = (users_of (b_users b))(uid \<mapsto> email_user uid email h t0)" and "wf_users users"
    and "api_login P t1 email ''password123'' (b\<lparr>b_users := users\<rparr>) =
      (Reply 200 (token_for P t1 uid), b\<lparr>b_users := users\<rparr>)"
proof -
  let ?u = "email_user uid email h t0"
  define users where "users = ur_create U ?u (b_users b)"
  have wf: "wf_users (b_users b)" using ok by (simp add: backend_ok_def)
  have none: "ur_get_by_email U (b_users b) email = Inr None" using new by (simp add: none_by_email [OF wf])
  have reg: "register_with_email (dp_bcrypt P) U (dp_captcha_verifier P) (st_min_captcha_score (dp_settings P)) salt uid t0
      email ''password123'' ''x'' (b_users b) = (Inr ?u, users)"
    using none h score captcha by (simp add: register_with_email_def memory_captcha_verifier_def users_def Let_def)
  have law: "users_of users = (users_of (b_users b))(uid \<mapsto> ?u)" and wf': "wf_users users"
    using create_user_law [OF wf, of ?u] create_user_wf [OF wf, of ?u] by (simp_all add: users_def)
  have "ur_get_by_email U users email = Inr (Some ?u)"
    by (rule only_by_email [OF wf', of uid]) (use law new in \<open>auto split: if_splits\<close>)
  then have log: "login_with_email (dp_bcrypt P) U users email ''password123'' = Inr ?u"
    using verify_same [OF B h, of "''password123''"] by (simp add: login_with_email_def same_password_def)
  show thesis
    by (rule that [OF _ law wf']) (simp_all add: api_register_def api_login_def reg log respond_def)
qed

lemma walkthrough_first:
  assumes ok: "backend_ok b" and captcha: "dp_captcha_verifier P = memory_captcha_verifier"
    and score: "\<not> float_less (Fin 1) (st_min_captcha_score (dp_settings P))"
    and B: "bcrypt_ok (dp_bcrypt P)" and h: "hash_password (dp_bcrypt P) salt ''password123'' = Inr h"
    and W: "jwt_ok (dp_jwt P)"
    and new: "\<forall>k v. users_of (b_users b) k = Some v \<longrightarrow> u_email v \<noteq> Some email"
    and idle: "\<not> has_active_job (jobs_of (b_jobs b)) uid"
    and steps: "1 \<le> n" "n \<le> 20000" and accepted: "inspect_hf_dataset (dp_hf_hub_client P) p repo = Inr ()"
    and time: "now 1 \<le> now 2" "now 2 < whole_seconds (now 1 + DEFAULT_EXPIRES_IN)"
  obtains out pos b' where "walkthrough P now salt uid jid email repo p n b = (Reply 200 out, b')"
    and "out = from_view \<lparr>jv_job = new_job jid uid p HF_HUB repo n (now 3), jv_display_status = ''queued'',
      jv_queue_position = Some pos\<rparr>" and "1 \<le> pos"
    and "jobs_of (b_jobs b') = (jobs_of (b_jobs b))(jid \<mapsto> new_job jid uid p HF_HUB repo n (now 3))"
    and "users_of (b_users b') = (users_of (b_users b))(uid \<mapsto> email_user uid email h (now 0))"
    and "b_objects b' = b_objects b" and "backend_ok b'"
proof -
  let ?j = "new_job jid uid p HF_HUB repo n (now 3)"
  obtain users where reg: "api_register P (now 0) salt uid email ''password123'' ''x'' b =
      (Reply 200 (token_for P (now 0) uid), b\<lparr>b_users := users\<rparr>)"
    and law: "users_of users = (users_of (b_users b))(uid \<mapsto> email_user uid email h (now 0))" and wf: "wf_users users"
    and log: "api_login P (now 1) email ''password123'' (b\<lparr>b_users := users\<rparr>) =
      (Reply 200 (token_for P (now 1) uid), b\<lparr>b_users := users\<rparr>)"
    by (rule walkthrough_login [OF ok captcha score B h new])
  have wfj: "wf_jobs (b_jobs b)" using ok by (simp add: backend_ok_def)
  have usr: "ur_get U users uid = Inr (Some (email_user uid email h (now 0)))" using law by (simp add: get_user_law [OF wf])
  have create: "JobService_create_job R U (\<lambda>i. now (2 + i)) jid users uid p HF_HUB repo n (b_jobs b) =
      (Inr ?j, jr_create R ?j (b_jobs b))"
    using create_job_spec [OF wfj usr, of "\<lambda>i. now (2 + i)" jid p HF_HUB repo n] steps idle
    by (simp add: effective_daily_used_def MAX_DAILY_JOBS_def)
  have wfj': "wf_jobs (jr_create R ?j (b_jobs b))" by (rule create_job_wf [OF wfj])
  have jobs': "jobs_of (jr_create R ?j (b_jobs b)) = (jobs_of (b_jobs b))(jid \<mapsto> ?j)"
    using create_job_law [OF wfj, of ?j] by simp
  obtain pos where shown: "job_out_for R (jr_create R ?j (b_jobs b)) uid jid =
      Inr (from_view \<lparr>jv_job = ?j, jv_display_status = ''queued'', jv_queue_position = Some pos\<rparr>)" and "1 \<le> pos"
    using job_out_for_found [OF wfj', of jid ?j uid] jobs' by auto
  have run: "walkthrough P now salt uid jid email repo p n b =
      (Reply 200 (from_view \<lparr>jv_job = ?j, jv_display_status = ''queued'', jv_queue_position = Some pos\<rparr>),
       b\<lparr>b_users := users, b_jobs := jr_create R ?j (b_jobs b)\<rparr>)"
    unfolding walkthrough_def reg prod.case log token_of_def reply.case api_submit_hf_dataset_def add_0_right
      walkthrough_admitted [OF W time]
    using steps by (simp add: steps_field_ok_def MAX_TRAINING_STEPS_def submit_hf_dataset_def accepted create [simplified] shown respond_def)
  show thesis
    by (rule that [OF run refl]) (use \<open>1 \<le> pos\<close> jobs' law wf wfj' in \<open>simp_all add: backend_ok_def\<close>)
qed

text \<open>A second walkthrough finds the account, logs in and is refused for its active job.\<close>

lemma walkthrough_again:
  assumes ok: "backend_ok b" and captcha: "dp_captcha_verifier P = memory_captcha_verifier"
    and score: "\<not> float_less (Fin 1) (st_min_captcha_score (dp_settings P))"
    and B: "bcrypt_ok (dp_bcrypt P)" and h: "hash_password (dp_bcrypt P) salt ''password123'' = Inr h"
    and W: "jwt_ok (dp_jwt P)"
    and usr: "users_of (b_users b) uid = Some usr" "u_email usr = Some email" "u_password_hash usr = Some h"
    and only: "\<forall>k v. users_of (b_users b) k = Some v \<longrightarrow> u_email v = Some email \<longrightarrow> k = uid"
    and busy: "has_active_job (jobs_of (b_jobs b)) uid"
    and steps: "1 \<le> n" "n \<le> 20000" and accepted: "inspect_hf_dataset (dp_hf_hub_client P) p repo = Inr ()"
    and time: "now 1 \<le> now 2" "now 2 < whole_seconds (now 1 + DEFAULT_EXPIRES_IN)"
  shows "walkthrough P now salt' uid' jid email repo p n b =
    (ErrorReply 429 ''You already have a job queued or in progress.'', b)"
proof -
  have wf: "wf_users (b_users b)" and wfj: "wf_jobs (b_jobs b)" using ok by (simp_all add: backend_ok_def)
  have id: "u_id usr = uid" using keyedD [OF users_keyed [OF wf] usr(1)] .
  have found: "ur_get_by_email U (b_users b) email = Inr (Some usr)"
    by (rule only_by_email [OF wf usr(1,2)]) (use only in blast)
  have reg: "api_register P (now 0) salt' uid' email ''password123'' ''x'' b =
      (ErrorReply 409 (''Email already registered: '' @ email), b)"
    using score captcha
    by (simp add: api_register_def register_with_email_def memory_captcha_verifier_def found respond_def error_reply_def)
  have log: "api_login P (now 1) email ''password123'' b = (Reply 200 (token_for P (now 1) uid), b)"
    using verify_same [OF B h, of "''password123''"] usr(3)
    by (simp add: api_login_def login_with_email_def found id same_password_def respond_def)
  have "ur_get U (b_users b) uid = Inr (Some usr)" using usr(1) by (simp add: get_user_law [OF wf])
  from create_job_spec [OF wfj this, of "\<lambda>i. now (2 + i)" jid p HF_HUB repo n] steps busy
  have create: "JobService_create_job R U (\<lambda>i. now (2 + i)) jid (b_users b) uid p HF_HUB repo n (b_jobs b) =
      (Inl (QuotaExceededError ''You already have a job queued or in progress.''), b_jobs b)"
    by simp
  show ?thesis
    unfolding walkthrough_def reg prod.case log token_of_def reply.case api_submit_hf_dataset_def add_0_right
      walkthrough_admitted [OF W time]
    using steps
    by (simp add: steps_field_ok_def MAX_TRAINING_STEPS_def submit_hf_dataset_def accepted create [simplified] respond_def
        error_reply_def)
qed

end

lemma manual_backend_system:
  "backend_system (manual_dependencies B W env info_size args) map_of mem_jobs_ok map_of mem_users_ok map_of"
  using manual_system [OF reference_daemon_ok] unfolding whole_system_def by blast

lemma manual_fields:
  "dp_captcha_verifier (manual_dependencies B W env info_size args) = memory_captcha_verifier"
  "st_min_captcha_score (dp_settings (manual_dependencies B W env info_size args)) = st_min_captcha_score env"
  "dp_bcrypt (manual_dependencies B W env info_size args) = B" "dp_jwt (manual_dependencies B W env info_size args) = W"
  "dp_hf_hub_client (manual_dependencies B W env info_size args) = memory_hf_hub_client (seed_demo_hf_repo info_size [])"
  by (simp_all add: manual_dependencies_def build_dependencies_def manual_settings_def Let_def)

subsection \<open>How it ends\<close>

text \<open>
  With the wiring of the manual test harness, for either policy and every number of steps the service allows:
  on stores without the demo account, registering, logging in and submitting the seeded repository answers
  200 with the new job, queued and with its place in the queue; the job and the account are stored and
  nothing else changes. Sent again while that job is active, before the worker thread of the harness has
  finished it, the registration is refused, the login works and the submission is answered with 429; the
  state stays as it is.
\<close>

theorem walkthrough_submits:
  assumes B: "bcrypt_ok B" and W: "jwt_ok W" and h: "hash_password B salt ''password123'' = Inr h"
    and score: "\<not> float_less (Fin 1) (st_min_captcha_score env)"
    and stores: "mem_jobs_ok (b_jobs b)" "mem_users_ok (b_users b)"
    and new: "\<not> (\<exists>k v. map_of (b_users b) k = Some v \<and> u_email v = Some email)"
    and idle: "\<not> has_active_job (map_of (b_jobs b)) uid"
    and steps: "1 \<le> n" "n \<le> 20000"
    and time: "now 1 \<le> now 2" "now 2 < whole_seconds (now 1 + DEFAULT_EXPIRES_IN)"
    and P: "P = manual_dependencies B W env info_size args"
  shows "\<exists>out pos b'. walkthrough P now salt uid jid email DEMO_REPO_ID p n b = (Reply 200 out, b') \<and>
    jo_id out = jid \<and> jo_policy out = p \<and> jo_training_steps out = n \<and> jo_status out = ''queued'' \<and>
    jo_queue_position out = Some pos \<and> 1 \<le> pos \<and>
    map_of (b_jobs b') = (map_of (b_jobs b))(jid \<mapsto> new_job jid uid p HF_HUB DEMO_REPO_ID n (now 3)) \<and>
    map_of (b_users b') = (map_of (b_users b))(uid \<mapsto> email_user uid email h (now 0)) \<and> b_objects b' = b_objects b \<and>
    (\<forall>later salt' uid' jid'. later 1 \<le> later 2 \<and> later 2 < whole_seconds (later 1 + DEFAULT_EXPIRES_IN) \<longrightarrow>
       walkthrough P later salt' uid' jid' email DEMO_REPO_ID p n b' =
         (ErrorReply 429 ''You already have a job queued or in progress.'', b'))"
proof -
  note sys = manual_backend_system [of B W env info_size args]
  note fields = manual_fields [of B W env info_size args]
  have ok: "backend_system.backend_ok mem_jobs_ok mem_users_ok b"
    using stores by (simp add: backend_system.backend_ok_def [OF sys])
  have new': "\<forall>k v. map_of (b_users b) k = Some v \<longrightarrow> u_email v \<noteq> Some email" using new by blast
  have accepted: "inspect_hf_dataset (dp_hf_hub_client P) p DEMO_REPO_ID = Inr ()"
    unfolding P fields by (rule demo_repo_accepted)
  have setting: "backend_system P map_of mem_jobs_ok map_of mem_users_ok map_of"
    "dp_captcha_verifier P = memory_captcha_verifier" "\<not> float_less (Fin 1) (st_min_captcha_score (dp_settings P))"
    "bcrypt_ok (dp_bcrypt P)" "hash_password (dp_bcrypt P) salt ''password123'' = Inr h" "jwt_ok (dp_jwt P)"
    using sys score B h W by (simp_all add: P fields)
  obtain out pos b' where run: "walkthrough P now salt uid jid email DEMO_REPO_ID p n b = (Reply 200 out, b')"
    and out: "out = from_view \<lparr>jv_job = new_job jid uid p HF_HUB DEMO_REPO_ID n (now 3), jv_display_status = ''queued'',
      jv_queue_position = Some pos\<rparr>" "1 \<le> pos"
    and jobs: "map_of (b_jobs b') = (map_of (b_jobs b))(jid \<mapsto> new_job jid uid p HF_HUB DEMO_REPO_ID n (now 3))"
    and users: "map_of (b_users b') = (map_of (b_users b))(uid \<mapsto> email_user uid email h (now 0))"
    and rest: "b_objects b' = b_objects b" "backend_system.backend_ok mem_jobs_ok mem_users_ok b'"
    by (rule backend_system.walkthrough_first [OF setting(1) ok setting(2-6) new' idle steps accepted time])
  have busy: "has_active_job (map_of (b_jobs b')) uid"
    unfolding has_active_job_def
    by (intro exI [of _ jid] exI [of _ "new_job jid uid p HF_HUB DEMO_REPO_ID n (now 3)"]) (simp add: jobs ACTIVE_STATUSES_def)
  have usr: "map_of (b_users b') uid = Some (email_user uid email h (now 0))"
    and only: "\<forall>k v. map_of (b_users b') k = Some v \<longrightarrow> u_email v = Some email \<longrightarrow> k = uid"
    using users new' by auto
  have again: "walkthrough P later salt' uid' jid' email DEMO_REPO_ID p n b' =
         (ErrorReply 429 ''You already have a job queued or in progress.'', b')"
    if "later 1 \<le> later 2" "later 2 < whole_seconds (later 1 + DEFAULT_EXPIRES_IN)" for later salt' uid' jid'
    by (rule backend_system.walkthrough_again [OF setting(1) rest(2) setting(2-6) usr _ _ only busy steps accepted that])
      simp_all
  show ?thesis
    by (intro exI [of _ out] exI [of _ pos] exI [of _ b'])
      (use run out jobs users rest(1) again in \<open>simp add: from_view_def Let_def\<close>)
qed

theorem walkthrough_submits_witness:
  "\<exists>out b'. manual_walkthrough (manual_dependencies reference_bcrypt reference_jwt default_settings 300 default_manual_args)
       (\<lambda>_. 0) ''salt'' ''u1'' ''j1'' \<lparr>b_jobs = [], b_users = [], b_objects = []\<rparr> = (Reply 200 out, b') \<and>
     jo_id out = ''j1'' \<and> jo_status out = ''queued'' \<and>
     manual_walkthrough (manual_dependencies reference_bcrypt reference_jwt default_settings 300 default_manual_args)
       (\<lambda>_. 1000000) ''pepper'' ''u2'' ''j2'' b' = (ErrorReply 429 ''You already have a job queued or in progress.'', b')"
proof -
  let ?b = "\<lparr>b_jobs = [], b_users = [], b_objects = []\<rparr> :: (mem_jobs, mem_users, mem_objects) backend"
  let ?P = "manual_dependencies reference_bcrypt reference_jwt default_settings 300 default_manual_args"
  have h: "hash_password reference_bcrypt ''salt'' ''password123'' = Inr (spell (password_bytes ''password123''))"
    by (simp add: hash_password_def reference_bcrypt_def decode_ascii_def spell_ascii)
  have score: "\<not> float_less (Fin 1) (st_min_captcha_score default_settings)" by (simp add: default_settings_def)
  have valid: "0 < whole_seconds (0 + DEFAULT_EXPIRES_IN)" "1000000 < whole_seconds (1000000 + DEFAULT_EXPIRES_IN)"
    by (simp_all add: DEFAULT_EXPIRES_IN_def whole_seconds_def seconds_def)
  have stores: "mem_jobs_ok (b_jobs ?b)" "mem_users_ok (b_users ?b)" "\<not> has_active_job (map_of (b_jobs ?b)) ''u1''"
    "\<not> (\<exists>k v. map_of (b_users ?b) k = Some v \<and> u_email v = Some ''demo@example.com'')"
    by (simp_all add: mem_jobs_ok_def mem_users_ok_def has_active_job_def)
  show ?thesis
    using walkthrough_submits [OF reference_bcrypt_ok reference_jwt_ok h score stores(1,2,4,3), of 20 "\<lambda>_. 0" ?P 300
        default_manual_args "''j1''" ACT] valid
    unfolding manual_walkthrough_def by fastforce
qed

text \<open>
  The same against the real database, for the repository, policy and steps the harness was started with:
  the Hub has to accept the repository.
\<close>

theorem real_gcp_walkthrough_submits:
  assumes L: "platform_ok L" "bcrypt_ok (pl_bcrypt L)" "jwt_ok (pl_jwt L)"
    and h: "hash_password (pl_bcrypt L) salt ''password123'' = Inr h"
    and score: "\<not> float_less (Fin 1) (st_min_captcha_score env)"
    and stores: "holds_jobs (pl_job_docs L) (b_jobs b)" "holds_users (pl_user_docs L) (b_users b)"
    and new: "\<not> (\<exists>k v. stored_user (pl_user_docs L) (b_users b) k = Some v \<and> u_email v = Some DEMO_EMAIL)"
    and idle: "\<not> has_active_job (stored_job (pl_job_docs L) (b_jobs b)) uid"
    and args: "1 \<le> ra_training_steps args" "ra_training_steps args \<le> 20000"
      "inspect_hf_dataset (real_hf_hub_client (pl_hub L)) (ra_policy args) (ra_hf_repo_id args) = Inr ()"
    and time: "now 1 \<le> now 2" "now 2 < whole_seconds (now 1 + DEFAULT_EXPIRES_IN)"
  shows "\<exists>out b'. real_gcp_walkthrough (real_gcp_dependencies L env args) args now salt uid jid b = (Reply 200 out, b') \<and>
    jo_status out = ''queued'' \<and> stored_job (pl_job_docs L) (b_jobs b') = (stored_job (pl_job_docs L) (b_jobs b))
      (jid \<mapsto> new_job jid uid (ra_policy args) HF_HUB (ra_hf_repo_id args) (ra_training_steps args) (now 3))"
proof -
  let ?P = "real_gcp_dependencies L env args"
  have sys: "backend_system ?P (stored_job (pl_job_docs L)) (holds_jobs (pl_job_docs L)) (stored_user (pl_user_docs L))
      (holds_users (pl_user_docs L)) (pl_objects L)"
    using real_gcp_system [OF L(1)] unfolding whole_system_def by blast
  have setting: "dp_captcha_verifier ?P = memory_captcha_verifier"
    "\<not> float_less (Fin 1) (st_min_captcha_score (dp_settings ?P))" "bcrypt_ok (dp_bcrypt ?P)"
    "hash_password (dp_bcrypt ?P) salt ''password123'' = Inr h" "jwt_ok (dp_jwt ?P)"
    "inspect_hf_dataset (dp_hf_hub_client ?P) (ra_policy args) (ra_hf_repo_id args) = Inr ()"
    using score L h args(3) by (simp_all add: real_gcp_dependencies_def build_dependencies_def real_gcp_settings_def)
  have ok: "backend_system.backend_ok (holds_jobs (pl_job_docs L)) (holds_users (pl_user_docs L)) b"
    using stores by (simp add: backend_system.backend_ok_def [OF sys])
  have new': "\<forall>k v. stored_user (pl_user_docs L) (b_users b) k = Some v \<longrightarrow> u_email v \<noteq> Some DEMO_EMAIL" using new by blast
  show ?thesis
    unfolding real_gcp_walkthrough_def
    by (rule backend_system.walkthrough_first [where jid = jid, OF sys ok setting(1-5) new' idle args(1,2) setting(6) time])
      (auto simp: from_view_def Let_def)
qed

subsection \<open>The upload of the demo archive\<close>

lemma nat_digits_last: "nat_digits n \<noteq> [] \<and> last (nat_digits n) \<noteq> CHR ''/''"
proof -
  have digit: "(char_of (48 + m) :: char) \<noteq> CHR ''/''" if "m < 10" for m :: nat
  proof
    assume "(char_of (48 + m) :: char) = CHR ''/''"
    then have "of_char (char_of (48 + m) :: char) = (of_char (CHR ''/'') :: nat)" by simp
    with that show False by (simp add: of_char_of)
  qed
  show ?thesis by (subst (1 2) nat_digits.simps) (auto simp: digit)
qed

lemma base_url_no_slash: "rstrip_slash (base_url_for h p) = base_url_for h p"
proof -
  have "str_int p \<noteq> []" "last (str_int p) \<noteq> CHR ''/''"
    using nat_digits_last [of "nat p"] nat_digits_last [of "nat (- p)"] by (auto simp: str_int_def)
  then have "base_url_for h p \<noteq> []" "last (base_url_for h p) \<noteq> CHR ''/''" by (simp_all add: base_url_for_def)
  then show ?thesis by (cases "base_url_for h p" rule: rev_cases) (simp_all add: rstrip_slash_def)
qed

text \<open>A client that follows the URL of a target writes the object the service asks for.\<close>

lemma put_url_target:
  "put_url (base_url_for h p) (mem_url (base_url_for h p) path) body b =
     (Reply 204 (), b\<lparr>b_objects := put_bytes path body (b_objects b)\<rparr>)"
  by (simp only: put_url_def mem_url_def base_url_no_slash append_assoc [symmetric] starts_with_append append_eq_conv_conj
      Let_def if_True api_put_object_def) simp

text \<open>What the upload service makes of the demo archive in the in-memory storage.\<close>

lemma demo_inspected:
  assumes stored: "map_of objects path = Some (make_demo_zip n (policy_value p))" and n: "0 \<le> n" "n \<le> 1024"
  shows "if p = SMOLVLA \<or> q = ACT
    then inspect_upload (memory_object_storage url) DEFAULT_LIMITS q path objects = (Inr (), objects)
    else \<exists>m objects'. inspect_upload (memory_object_storage url) DEFAULT_LIMITS q path objects =
        (Inl (UploadValidationError m), objects') \<and> map_of objects' = (map_of objects)(path := None)"
proof -
  have "0 \<le> max_total_uncompressed_bytes DEFAULT_LIMITS" by (simp add: DEFAULT_LIMITS_def)
  note spec = memo.inspect_upload_spec [OF stored demo_unsigned [OF n(1)] this, of q url]
  have kept: "os_delete (memory_object_storage url) path objects \<noteq> (Inl e, objects')" for e objects'
    by (simp add: port_simps)
  show ?thesis
    using spec demo_no_crash [of n p] demo_valid [OF n, of q p] kept
    by (auto simp: memo.rejected_def split: prod.splits)
qed

text \<open>
  The zip path of the walkthrough, with the demo archive of a policy: the client's upload ends up at the
  path the service confirms, and the archive is accepted for every policy but SmolVLA with the archive for
  ACT, which is answered with 400 and deleted.
\<close>

theorem zip_walkthrough_submits:
  assumes P: "P = manual_dependencies B W env info_size args"
    and stores: "mem_jobs_ok (b_jobs b)" "mem_users_ok (b_users b)" and usr: "map_of (b_users b) uid = Some usr"
    and idle: "\<not> has_active_job (map_of (b_jobs b)) uid" "effective_daily_used usr (date_of (now 1)) < 10"
    and caller: "get_current_user_id W (dp_settings P) (now 0) (Some (''Bearer '' @ token)) = Inr uid"
      "get_current_user_id W (dp_settings P) (now 1) (Some (''Bearer '' @ token)) = Inr uid"
    and n: "0 \<le> n" "n \<le> 1024" and steps: "1 \<le> k" "k \<le> 20000" and place: "path = object_path_for uid upload_id"
    and archive: "archive = make_demo_zip n (policy_value p)"
    and run: "zip_walkthrough P (base_url_for (ma_host args) (ma_port args)) now token upload_id jid archive q k b = (r, b')"
  shows "if p = SMOLVLA \<or> q = ACT
    then (\<exists>out. r = Reply 200 out \<and> jo_status out = ''queued'') \<and>
      map_of (b_jobs b') = (map_of (b_jobs b))(jid \<mapsto> new_job jid uid q ZIP_UPLOAD path k (now 2)) \<and>
      map_of (b_objects b') = (map_of (b_objects b))(path \<mapsto> archive)
    else (\<exists>m. r = ErrorReply 400 m) \<and> b_jobs b' = b_jobs b \<and> map_of (b_objects b') = (map_of (b_objects b))(path := None)"
proof -
  let ?url = "base_url_for (ma_host args) (ma_port args)"
  let ?objects = "put_bytes path archive (b_objects b)"
  let ?j = "new_job jid uid q ZIP_UPLOAD path k (now 2)"
  have fields: "dp_jwt P = W" "dp_storage P = memory_object_storage ?url" "dp_job_repository P = memory_job_repository"
    "dp_user_repository P = memory_user_repository" "dp_limits P = DEFAULT_LIMITS"
    by (simp_all add: P manual_dependencies_def build_dependencies_def Let_def)
  have target: "api_create_zip_upload_target P (now 0) (Some (''Bearer '' @ token)) upload_id b =
      (Reply 200 (upload_id, mem_url ?url path), b)"
    using caller(1) fields
    by (simp only: api_create_zip_upload_target_def as_user_def sum.case)
      (simp add: create_upload_target_def port_simps place)
  have "ur_get memory_user_repository (b_users b) uid = Inr (Some usr)" using usr by (simp add: port_simps)
  from memj.create_job_spec [OF stores(1) this, of "\<lambda>i. now (1 + i)" jid q ZIP_UPLOAD path k] idle steps
  have create: "JobService_create_job memory_job_repository memory_user_repository (\<lambda>i. now (1 + i)) jid (b_users b) uid q
      ZIP_UPLOAD path k (b_jobs b) = (Inr ?j, mem_put_job ?j (b_jobs b))"
    by (simp add: MAX_DAILY_JOBS_def port_simps numeral_2_eq_2)
  have put: "map_of ?objects path = Some (make_demo_zip n (policy_value p))" by (simp add: put_bytes_def archive)
  note inspected = demo_inspected [OF put n, of q ?url]
  have there: "os_exists (memory_object_storage ?url) ?objects path"
    using memo.exists_law [of ?url ?objects path] put by simp
  have confirm: "zip_walkthrough P ?url now token upload_id jid archive q k b =
      (case confirm_zip_upload memory_job_repository memory_user_repository (memory_object_storage ?url) DEFAULT_LIMITS
            (\<lambda>i. now (1 + i)) jid (b_users b) uid upload_id q k (b_jobs b, ?objects) of
         (r, (jobs, objects)) \<Rightarrow>
           (respond 200 (and_then r (\<lambda>job. job_out_for memory_job_repository jobs uid (j_id job))),
            b\<lparr>b_jobs := jobs, b_objects := objects\<rparr>))"
    unfolding zip_walkthrough_def target prod.case target_of_def reply.case put_url_target api_confirm_zip_upload_def
      as_user_def add_0_right fields caller(2) sum.case
    using steps by (simp add: steps_field_ok_def MAX_TRAINING_STEPS_def)
  have wf: "mem_jobs_ok (mem_put_job ?j (b_jobs b))" using stores(1) by (rule mem_put_job_ok)
  have jobs: "map_of (mem_put_job ?j (b_jobs b)) = (map_of (b_jobs b))(jid \<mapsto> ?j)" by (simp add: mem_put_job_def)
  have "map_of (mem_put_job ?j (b_jobs b)) jid = Some ?j" using jobs by simp
  from memj.job_out_for_found [OF wf this] obtain out where
    shown: "job_out_for memory_job_repository (mem_put_job ?j (b_jobs b)) uid jid = Inr out" "jo_status out = ''queued''"
    by (auto simp: from_view_def Let_def)
  show ?thesis
  proof (cases "p = SMOLVLA \<or> q = ACT")
    case True
    with inspected have "inspect_upload (memory_object_storage ?url) DEFAULT_LIMITS q path ?objects = (Inr (), ?objects)" by simp
    with run confirm there create shown True jobs archive put show ?thesis
      by (auto simp: confirm_zip_upload_def Let_def place [symmetric] respond_def put_bytes_def)
  next
    case False
    with inspected obtain m objects' where
      "inspect_upload (memory_object_storage ?url) DEFAULT_LIMITS q path ?objects = (Inl (UploadValidationError m), objects')"
      "map_of objects' = (map_of ?objects)(path := None)" by auto
    with run confirm there False show ?thesis
      by (auto simp: confirm_zip_upload_def Let_def place [symmetric] respond_def error_reply_def put_bytes_def)
  qed
qed

end
