(* ===== verification/Known_Defects.thy ===== *)
theory Known_Defects
  imports Reference_Platform Worker_Steps
begin

text \<open>
  Behaviour of the code that its documentation rules out, each as a lemma that shows it happen. What the
  properties of the other theories already show of this kind is not repeated here.
\<close>

text \<open>A progress file with JSON that is no object is not "unreadable": the read raises \<open>TypeError\<close>.\<close>

lemma progress_of_no_object:
  assumes "fs_read fs (d @ [PROGRESS_FILENAME]) = Inr (JsonText (JArr js))"
  shows "\<exists>m. read_progress d fs = Inl (TypeError m)"
proof -
  have "fs_exists fs (d @ [PROGRESS_FILENAME])" using assms by (auto simp: fs_exists_def fs_read_def split: option.splits)
  then show ?thesis using assms
    by (simp add: read_progress_def Let_def parse_progress_def progress_unreadable_def)
qed

text \<open>
  The storage of the deployed worker raises the client's own exception for an upload that is gone, which
  the fetch does not turn into a \<open>DatasetFetchError\<close>, so that the job is not failed: the tick raises.
\<close>

lemma missing_upload_not_caught:
  assumes B: "gcs_ok B objects_of" and gone: "objects_of objects (j_source_ref job) = None"
    and zip: "j_source_type job = ZIP_UPLOAD" and dir: "fs_makedirs (d @ [''input'']) fs = (Inr u, fs')"
  shows "fetch_for_job H (gcs_object_storage B) cache_dir cache_max_bytes job d (objects, fs) =
    (Inl (ExternalError (''404 '' @ j_source_ref job)), (objects, fs'))"
proof -
  have "os_open_read_stream (gcs_object_storage B) objects (j_source_ref job) = Inl (ExternalError (''404 '' @ j_source_ref job))"
    using B gone by (simp add: gcs_ok_def gcs_object_storage_def)
  with zip dir show ?thesis by (simp add: fetch_for_job_def extract_zip_upload_def extract_failure_def)
qed

lemma uncaught_fetch_raises:
  assumes "fetch_dataset E job w = (Inl (ExternalError m), w1)"
  shows "finish_start E now job w = (Inl (ExternalError m), w1)"
  using assms by (simp add: finish_start_def)

text \<open>
  The start of a job ends with a write of the job as it was claimed: a cancellation requested while the data
  set was fetched and the container started is lost.
\<close>

lemma cancellation_lost:
  assumes R: "job_store (wd_job_repository E) jobs_of wf_jobs" and wf: "wf_jobs (w_jobs w2)"
    and fetch: "fetch_dataset E job w = (Inr dataset, w1)"
    and run: "run_container E (build_container_spec (wd_settings E) job (job_dir_text (ws_workdir (wd_settings E)) job) dataset) w1 =
      (Inr c, w2)"
    and asked: "jobs_of (w_jobs w2) (j_id job) = Some (job\<lparr>j_cancel_requested := True\<rparr>)" and claimed: "\<not> j_cancel_requested job"
  shows "\<exists>job' w'. finish_start E now job w = (Inr job', w') \<and> jobs_of (w_jobs w') (j_id job) = Some job' \<and>
    \<not> j_cancel_requested job'"
  using fetch run claimed job_store.update_job_law [OF R wf]
  by (simp add: finish_start_def Let_def write_job_def)

text \<open>A timeout that a sweep recorded meanwhile is overwritten in the same way: the failed job is revived.\<close>

lemma timeout_overwritten:
  assumes R: "job_store (wd_job_repository E) jobs_of wf_jobs" and wf: "wf_jobs (w_jobs w)"
    and failed: "jobs_of (w_jobs w) (j_id job) = Some (timeout_version t0 job)" and job: "j_status job = INITIALIZING"
  shows "\<exists>w'. worker_step E t (Recording job) w = (Monitoring, w') \<and> jobs_of (w_jobs w') (j_id job) = Some job"
  using job_store.update_job_law [OF R wf] by (simp add: write_job_def)

text \<open>
  A Hugging Face account with an address stands in the way of the email account with the same address: the
  login by email finds the account without a password, whatever password is given.
\<close>

lemma email_account_shadowed:
  assumes "u_email hf_account = Some email" and "u_password_hash hf_account = None"
  shows "login_with_email B memory_user_repository [(''h'', hf_account), (''e'', email_account)] email password =
    Inl (InvalidCredentialsError ''Invalid email or password'')"
  using assms by (simp add: login_with_email_def memory_user_repository_def mem_get_by_email_def)

text \<open>
  The eviction that follows a download can remove what was downloaded: a cache entry larger than the cap is
  evicted although it is the most recent, and the fetch returns the path of a directory that is gone.
\<close>

definition demo_cache :: fsys where
  "demo_cache = \<lparr>fs_nodes = [([''cache''], \<lparr>i_node = DirNode, i_mtime = 0\<rparr>),
     ([''cache'', ''org__repo''], \<lparr>i_node = DirNode, i_mtime = 5\<rparr>),
     ([''cache'', ''org__repo'', ''data''], \<lparr>i_node = FileNode 11 (RawBytes []), i_mtime = 5\<rparr>)], fs_clock = 5\<rparr>"

lemma download_evicted:
  "evict_lru_until_under_cap [''cache''] 10 demo_cache =
     ([[''cache'', ''org__repo'']], fs_rmtree [''cache'', ''org__repo''] demo_cache)"
proof -
  have "list_cache_entries demo_cache [''cache''] =
      [\<lparr>ce_path = [''cache'', ''org__repo''], ce_size_bytes = 11, ce_mtime = 5\<rparr>]"
    by (simp add: list_cache_entries_def demo_cache_def fs_exists_def fs_lookup_def fs_iterdir_def within_dir_def fs_is_dir_def
        is_dir_inode_def cache_entry_def is_cache_entry_def directory_size_bytes_def stat_size_def fs_below_def strictly_within_def fs_is_file_def fs_mtime_def ends_with_def
        starts_with_def TMP_SUFFIX_def)
  then show ?thesis by (simp add: evict_lru_until_under_cap_def)
qed

end
